theory Spec2Isabelle
  imports Main "HOL-Library.Word"
begin

unbundle bit_operations_syntax

section \<open>Data model of rastertoptch\<close>

type_synonym byte = "8 word"

text \<open>Pixel transfer mode, pixel data alignment and media type (\<^verbatim>\<open>xfer_t\<close>,
  \<^verbatim>\<open>align_t\<close>, \<^verbatim>\<open>media_t\<close>).\<close>

datatype xfer_t = ULP | RLE | BIP
datatype align_t = RIGHT | CENTER
datatype media_t = TAPE | LABELS

text \<open>
  \<^verbatim>\<open>job_options_t\<close>.  The two \<^verbatim>\<open>float\<close> fields \<^verbatim>\<open>min_margin\<close> and \<^verbatim>\<open>margin\<close> are
  only used inside floating-point expressions whose rounded results are fields of the page
  header record below, so they do not appear here.  \<open>bytes_per_line\<close> is restricted to
  1..255 by the option parser.
\<close>

record job_options_t =
  pixel_xfer :: xfer_t
  print_quality_high :: bool
  auto_cut :: bool
  half_cut :: bool
  cut_mark :: bool
  cut_label :: int
  chain_printing :: bool
  mirror_print :: bool
  pt_series :: bool
  ql_series :: bool
  bytes_per_line :: nat
  align :: align_t
  media :: media_t
  software_mirror :: bool
  print_density :: int
  legacy_xfer_mode :: int
  xfer_mode :: int
  label_preamble :: bool
  label_recoyery :: bool
  last_page_flag :: bool
  legacy_hires :: bool
  concat_pages :: bool
  status_notification :: int
  page :: nat
  last_page :: bool

text \<open>
  The fields of \<^verbatim>\<open>cups_page_header2_t\<close> the filter reads.  The integer fields are
  kept as they are.  \<^verbatim>\<open>cupsPageSize\<close> and \<^verbatim>\<open>cupsImagingBBox\<close> are \<^verbatim>\<open>float\<close> arrays
  that the filter only uses inside floating-point expressions converted to an integer
  (by \<^verbatim>\<open>lrint\<close> or by assignment to \<^verbatim>\<open>unsigned\<close>); binary floating point is not
  modelled, and the header carries the integer value of each such expression instead:

  \<^item> \<open>PageSize0_mm\<close>: \<^verbatim>\<open>lrint (cupsPageSize[0] * MM_PER_PT)\<close>;
  \<^item> \<open>PageSize1_mm\<close>: \<^verbatim>\<open>lrint (cupsPageSize[1] * MM_PER_PT)\<close>;
  \<^item> \<open>PageSize1_px\<close>: \<^verbatim>\<open>lrint (cupsPageSize[1] * pt2px[1])\<close>;
  \<^item> \<open>margins_px\<close>: \<^verbatim>\<open>lrint ((min_margin + margin) * pt2px)\<close>, the feed of
    \<^verbatim>\<open>emit_page_cmds\<close> on continuous tape;
  \<^item> \<open>min_feed_px\<close>: \<^verbatim>\<open>lrint (min_margin * pt2px[1])\<close>;
  \<^item> \<open>right_spacing\<close>: \<^verbatim>\<open>(cupsPageSize[0] - cupsImagingBBox[2]) * pt2px[0]\<close> as
    \<^verbatim>\<open>unsigned\<close>;
  \<^item> \<open>left_spacing\<close>: \<^verbatim>\<open>cupsImagingBBox[0] * pt2px[0]\<close> as \<^verbatim>\<open>unsigned\<close>;
  \<^item> \<open>BBox2_lt_PageSize0\<close>: \<^verbatim>\<open>cupsImagingBBox[2] < cupsPageSize[0]\<close>;
  \<^item> \<open>BBox3_nonzero\<close>: \<^verbatim>\<open>cupsImagingBBox[3] != 0\<close>;
  \<^item> \<open>top_distance_px\<close>: \<^verbatim>\<open>lrint ((cupsPageSize[1] - cupsImagingBBox[3]) * pt2px[1])\<close>;
  \<^item> \<open>BBox1_px\<close>: \<^verbatim>\<open>lrint (cupsImagingBBox[1] * pt2px[1])\<close>.
\<close>

record cups_page_header2_t =
  HWResolution0 :: nat
  HWResolution1 :: nat
  cupsBytesPerLine :: nat
  cupsHeight :: nat
  cupsWidth :: nat
  NegativePrint :: bool
  PageSize0_mm :: nat
  PageSize1_mm :: nat
  PageSize1_px :: nat
  margins_px :: nat
  min_feed_px :: nat
  right_spacing :: nat
  left_spacing :: nat
  BBox2_lt_PageSize0 :: bool
  BBox3_nonzero :: bool
  top_distance_px :: nat
  BBox1_px :: nat

text \<open>
  Standard output.  The filter writes bytes with \<^verbatim>\<open>putchar\<close> and \<^verbatim>\<open>fwrite\<close>; the model
  keeps them grouped as the source emits them, one entry per printer command (or per
  block of raster data), labelled with the command, so that properties of the command
  sequence can be stated.  The byte stream is the concatenation of the groups.
\<close>

datatype command =
    NulBytes | Initialise | LegacyTransferMode | TransferMode | StatusNotification
  | PrintDensity | WidthResolution | VariousMode | AdvancedMode | CutLabel | Margin
  | Compression | BitImage | PrintInformation | RasterData | RasterLine
  | FormFeed | Eject

type_synonym out_stream = "(command \<times> byte list) list"

definition stream_bytes :: "out_stream \<Rightarrow> byte list" where
  "stream_bytes out = concat (map snd out)"

definition ESC :: byte where "ESC = 0x1b"
definition PTC_EJECT :: byte where "PTC_EJECT = 0x1a"
definition PTC_FORMFEED :: byte where "PTC_FORMFEED = 0x0c"

text \<open>
  The global variables of the filter: the RLE buffer (its contents from \<^verbatim>\<open>rle_buffer\<close>
  up to \<^verbatim>\<open>rle_buffer_next\<close>, so that \<^verbatim>\<open>rle_buffer_next - rle_buffer\<close> is the length of the
  list), its allocated size, the two line counters, and standard output.  A C write
  past \<open>rle_alloced\<close> bytes is undefined behaviour; the model keeps appending, and the
  theorems below say where the allocated size is exceeded.
\<close>

record globals =
  rle_buffer :: "byte list"
  rle_alloced :: nat
  empty_lines :: nat
  lines_waiting :: nat
  stdout :: out_stream

definition max_lines_waiting :: nat where
  "max_lines_waiting = 2147483647"

definition putchars :: "command \<Rightarrow> byte list \<Rightarrow> globals \<Rightarrow> globals" where
  "putchars c bs g = g\<lparr>stdout := stdout g @ [(c, bs)]\<rparr>"

definition init_globals :: globals where
  "init_globals = \<lparr>rle_buffer = [], rle_alloced = 0, empty_lines = 0,
                    lines_waiting = 0, stdout = []\<rparr>"

text \<open>The process ends with \<^verbatim>\<open>exit (-1)\<close> in \<^verbatim>\<open>ensure_rle_buf_space\<close>; the value
  carries the globals at that point (what has been written to standard output).\<close>

datatype 'a result = Exit globals | Return 'a

subsection \<open>\<^verbatim>\<open>emit_quality_rollfed_size\<close>: the ESC i z command\<close>

definition emit_quality_rollfed_size ::
  "job_options_t \<Rightarrow> cups_page_header2_t \<Rightarrow> nat \<Rightarrow> globals \<Rightarrow> globals" where
  "emit_quality_rollfed_size job_options header image_height_px g =
     (let PI_KIND = (0x02 :: byte); PI_WIDTH = (0x04 :: byte); PI_LENGTH = (0x08 :: byte);
          PI_QUALITY = (0x40 :: byte); PI_RECOVER = (0x80 :: byte);
          valid0 = PI_WIDTH;
          valid1 = (if label_recoyery job_options then valid0 OR PI_RECOVER else valid0);
          tape_width_mm = (if PageSize0_mm header > 0xff then 0xff else PageSize0_mm header);
          (valid2, media_type2, tape_length_mm) =
            (if ql_series job_options then
               (let v = (if print_quality_high job_options then valid1 OR PI_QUALITY else valid1);
                    v' = v OR PI_KIND;
                    (v'', mt, tl) =
                       (case media job_options of
                          TAPE \<Rightarrow> (v', 0x0A :: byte, 0)
                        | LABELS \<Rightarrow> (v' OR PI_LENGTH, 0x0B, PageSize1_mm header))
                in (v'', mt, if tl > 0xff then 0xff else tl))
             else (valid1, 0, 0));
          (valid3, media_type3) =
            (if pt_series job_options \<and> HWResolution0 header = 360 \<and>
                (HWResolution1 header = 180 \<or> HWResolution1 header = 720)
             then (valid2 OR PI_KIND, 0x09) else (valid2, media_type2));
          which_page0 = (if page job_options > 1 then 1 else 0 :: byte);
          which_page = (if last_page_flag job_options \<and> last_page job_options
                        then 2 else which_page0)
      in putchars PrintInformation
           [ESC, 0x69, 0x7a, valid3, media_type3, of_nat tape_width_mm, of_nat tape_length_mm,
            of_nat image_height_px, of_nat (image_height_px div 256),
            of_nat (image_height_px div 65536), of_nat (image_height_px div 16777216),
            which_page, 0x00] g)"

subsection \<open>\<^verbatim>\<open>flush_rle_buffer\<close>\<close>

text \<open>
  The run decoder at label \<^verbatim>\<open>expand_g_or_G\<close>: \<open>linelen\<close> bytes of runs are read from
  \<open>p\<close>; the result is the bytes written to standard output and the advanced \<open>p\<close>.
  A count byte \<open>l < 0\<close> (as \<^verbatim>\<open>signed char\<close>) repeats the next byte \<open>1 - l\<close> times, a count
  byte \<open>l \<ge> 0\<close> copies the next \<open>l + 1\<close> bytes.  Reads past \<^verbatim>\<open>rle_buffer_next\<close> (an empty
  \<open>p\<close>) do not occur on buffers written by the store functions; the model reads 0 there.
\<close>

function expand_g_or_G :: "nat \<Rightarrow> byte list \<Rightarrow> byte list \<times> byte list" where
  "expand_g_or_G linelen p =
     (if linelen > 0 then
        (let l = (case p of [] \<Rightarrow> 0 | x # _ \<Rightarrow> x); p1 = tl p; linelen1 = linelen - 1
         in if sint l < 0 then
              (let data = (case p1 of [] \<Rightarrow> 0 | x # _ \<Rightarrow> x); p2 = tl p1;
                   (em, p') = expand_g_or_G (linelen1 - 1) p2
               in (replicate (nat (1 - sint l)) data @ em, p'))
            else
              (let n = unat l + 1;
                   (em, p') = expand_g_or_G (linelen1 - n) (drop n p1)
               in (take n p1 @ em, p')))
      else ([], p))"
  by pat_completeness auto
termination
  by (relation "measure (\<lambda>(linelen, p). linelen)") auto

declare expand_g_or_G.simps [simp del]

text \<open>One iteration of the \<^verbatim>\<open>while (rle_buffer_next - p > 0)\<close> loop for a non-empty \<open>p\<close>:
  the bytes written for this line and the advanced \<open>p\<close>.  In ULP mode every line starts
  with \<^verbatim>\<open>g 0x00 bytes_per_line\<close>; the decoded data is padded with zero bytes up to
  \<open>bytes_per_line\<close>; an unknown flag byte only produces an error message.\<close>

definition expand_line :: "xfer_t \<Rightarrow> nat \<Rightarrow> byte \<Rightarrow> byte list \<Rightarrow> byte list \<times> byte list" where
  "expand_line xfer bpl flag p =
     (let hdr = (if xfer = ULP then [0x67, 0x00, of_nat bpl] else []);
          b0 = (case p of [] \<Rightarrow> 0 | x # _ \<Rightarrow> x);
          b1 = (case tl p of [] \<Rightarrow> 0 | x # _ \<Rightarrow> x)
      in if flag = 0x47 then
           (let linelen = unat b0 + unat b1 * 256;
                (em, p') = expand_g_or_G linelen (drop 2 p)
            in (hdr @ em @ replicate (bpl - length em) 0, p'))
         else if flag = 0x67 then
           (let linelen = unat b0 * 256 + unat b1;
                (em, p') = expand_g_or_G linelen (drop 2 p)
            in (hdr @ em @ replicate (bpl - length em) 0, p'))
         else if flag = 0x5a then (hdr @ replicate bpl 0, p)
         else (hdr, p))"

lemma length_expand_g_or_G: "length (snd (expand_g_or_G linelen p)) \<le> length p"
proof (induction linelen p rule: expand_g_or_G.induct)
  case (1 linelen p)
  show ?case
  proof (cases "linelen > 0")
    case False
    then show ?thesis by (subst expand_g_or_G.simps) simp
  next
    case True
    show ?thesis
    proof (cases "sint (case p of [] \<Rightarrow> 0 | x # _ \<Rightarrow> x) < 0")
      case neg: True
      have "length (snd (expand_g_or_G (linelen - 1 - 1) (tl (tl p)))) \<le> length (tl (tl p))"
        using "1.IH"(1) [OF True refl refl refl neg refl refl] .
      then show ?thesis
        using True neg by (subst expand_g_or_G.simps) (simp add: Let_def case_prod_unfold)
    next
      case pos: False
      define n where "n = unat (case p of [] \<Rightarrow> 0 | x # _ \<Rightarrow> x) + 1"
      have "length (snd (expand_g_or_G (linelen - 1 - n) (drop n (tl p)))) \<le> length (drop n (tl p))"
        using "1.IH"(2) [OF True refl refl refl pos n_def] .
      then show ?thesis
        using True pos
        by (subst expand_g_or_G.simps) (simp add: Let_def case_prod_unfold n_def)
    qed
  qed
qed

lemma length_expand_g_or_G_drop: "length (snd (expand_g_or_G linelen (drop k p))) \<le> length p"
  by (rule order_trans [OF length_expand_g_or_G]) simp

lemma length_expand_line: "length (snd (expand_line xfer bpl flag p)) \<le> length p"
  by (simp add: expand_line_def Let_def case_prod_unfold length_expand_g_or_G_drop)

text \<open>The loop \<^verbatim>\<open>while (rle_buffer_next - p > 0)\<close> of the ULP and BIP cases: every
  stored line is written as one group of bytes.\<close>

function expand_lines :: "xfer_t \<Rightarrow> nat \<Rightarrow> byte list \<Rightarrow> globals \<Rightarrow> globals" where
  "expand_lines xfer bpl [] g = g"
| "expand_lines xfer bpl (flag # p) g =
     (let (bytes, p') = expand_line xfer bpl flag p
      in expand_lines xfer bpl p' (putchars (if xfer = ULP then RasterLine else RasterData) bytes g))"
  by pat_completeness auto
termination
proof (relation "measure (\<lambda>(xfer, bpl, p, g). length p)", goal_cases)
  case 1
  show ?case by simp
next
  case (2 xfer bpl flag p g x xa y)
  then have "y = snd (expand_line xfer bpl flag p)"
    by (metis snd_conv)
  then show ?case
    using length_expand_line [of xfer bpl flag p] by simp
qed

definition flush_rle_buffer :: "job_options_t \<Rightarrow> cups_page_header2_t \<Rightarrow> globals \<Rightarrow> globals" where
  "flush_rle_buffer job_options header g =
     (if lines_waiting g > 0 then
        (let g1 = (if label_preamble job_options
                   then emit_quality_rollfed_size job_options header (lines_waiting g) g
                   else g);
             g2 = (case pixel_xfer job_options of
                     RLE \<Rightarrow> putchars RasterData (rle_buffer g1) g1
                   | ULP \<Rightarrow> expand_lines ULP (bytes_per_line job_options) (rle_buffer g1) g1
                   | BIP \<Rightarrow> expand_lines BIP (bytes_per_line job_options) (rle_buffer g1) g1)
         in g2\<lparr>rle_buffer := [], lines_waiting := 0\<rparr>)
      else g)"

subsection \<open>\<^verbatim>\<open>ensure_rle_buf_space\<close>\<close>

text \<open>
  Whether \<^verbatim>\<open>realloc\<close> returns a block is not decided by the program: the parameter
  \<open>realloc_ok\<close> says for which sizes it does.  When the buffer is too small the function
  asks for \<open>rle_alloced * 2 + 0x4000\<close> bytes, unless that exceeds 1000000; without a new
  block it flushes, and exits if the request still does not fit.
\<close>

definition ensure_rle_buf_space ::
  "(nat \<Rightarrow> bool) \<Rightarrow> job_options_t \<Rightarrow> cups_page_header2_t \<Rightarrow> nat \<Rightarrow> globals \<Rightarrow> globals result" where
  "ensure_rle_buf_space realloc_ok job_options header bytes g =
     (let nextpos = length (rle_buffer g)
      in if nextpos + bytes > rle_alloced g then
           (let new_alloced = rle_alloced g * 2 + 0x4000;
                p = (new_alloced \<le> 1000000 \<and> realloc_ok new_alloced)
            in if p then Return (g\<lparr>rle_alloced := new_alloced\<rparr>)
               else (let g1 = flush_rle_buffer job_options header g
                     in if length (rle_buffer g1) + bytes > rle_alloced g1
                        then Exit g1 else Return g1))
         else Return g)"

subsection \<open>\<^verbatim>\<open>RLE_store_line\<close>: the run-length encoder\<close>

text \<open>
  A C read \<^verbatim>\<open>*p\<close> from the line buffer.  The loop of \<^verbatim>\<open>RLE_store_line\<close> reads
  \<^verbatim>\<open>*next\<close> once more after the last byte (in the increment part of its \<^verbatim>\<open>for\<close>) and
  reads \<^verbatim>\<open>*buf\<close> before testing for an empty buffer; the value read there is never
  used, and the model reads 0.
\<close>

definition peek :: "byte list \<Rightarrow> nat \<Rightarrow> byte" where
  "peek buf i = (if i < length buf then buf ! i else 0)"

text \<open>The local variables of \<^verbatim>\<open>RLE_store_line\<close>: the three pointers as offsets into
  \<open>buf\<close> (\<open>next_p\<close> is \<^verbatim>\<open>next\<close>), and \<open>rle_out\<close>, the bytes written from
  \<^verbatim>\<open>rle_buffer_next + 3\<close> up to \<^verbatim>\<open>rle_next\<close>.\<close>

record rle_vars =
  mix_start :: nat
  rep_start :: nat
  next_p :: nat
  rep_val :: byte
  nonzero :: byte
  rle_out :: "byte list"

text \<open>Macro \<^verbatim>\<open>APPEND_MIXED_BYTES\<close> first clips the variable \<open>mix_len\<close> to 128
  (\<open>clip_mix_len\<close>, which the code after the macro goes on using), then writes the count
  byte \<open>mix_len - 1\<close> and copies \<open>mix_len\<close> bytes from \<open>mix_start\<close>.\<close>

definition clip_mix_len :: "nat \<Rightarrow> nat" where
  "clip_mix_len mix_len = (if mix_len > 128 then 128 else mix_len)"

definition APPEND_MIXED_BYTES :: "byte list \<Rightarrow> nat \<Rightarrow> rle_vars \<Rightarrow> rle_vars" where
  "APPEND_MIXED_BYTES buf mix_len v =
     v\<lparr>rle_out := rle_out v @ [of_nat (clip_mix_len mix_len - 1)]
                     @ take (clip_mix_len mix_len) (drop (mix_start v) buf)\<rparr>"

text \<open>Macro \<^verbatim>\<open>APPEND_REPEATED_BYTE\<close> writes \<^verbatim>\<open>(signed char)(1 - rep_len)\<close>, with
  \<open>rep_len = next - rep_start\<close>, and the repeated value.\<close>

definition APPEND_REPEATED_BYTE :: "rle_vars \<Rightarrow> rle_vars" where
  "APPEND_REPEATED_BYTE v =
     v\<lparr>rle_out := rle_out v @ [1 - of_nat (next_p v - rep_start v), rep_val v]\<rparr>"

text \<open>The loop body in three parts: the test for a run of 129, the branch for
  \<open>next_val = rep_val\<close> and the branch for a differing byte.\<close>

definition rle_cap :: "byte list \<Rightarrow> rle_vars \<Rightarrow> rle_vars" where
  "rle_cap buf v =
     (if next_p v - rep_start v \<ge> 129 then
        (let rep_len = next_p v - rep_start v;
             w = APPEND_REPEATED_BYTE v;
             w1 = w\<lparr>rep_start := rep_start w + rep_len\<rparr>;
             w2 = w1\<lparr>rep_val := peek buf (rep_start w1)\<rparr>
         in w2\<lparr>mix_start := rep_start w2\<rparr>)
      else v)"

definition rle_same :: "byte list \<Rightarrow> rle_vars \<Rightarrow> rle_vars" where
  "rle_same buf v =
     (if next_p v - rep_start v = 2 then
        (let mix_len = rep_start v - mix_start v
         in if mix_len > 0 then
              (let w = APPEND_MIXED_BYTES buf mix_len v in w\<lparr>mix_start := rep_start w\<rparr>)
            else v)
      else v)"

definition rle_differ :: "byte list \<Rightarrow> byte \<Rightarrow> rle_vars \<Rightarrow> rle_vars" where
  "rle_differ buf next_val v =
     (let w0 = (if next_p v - rep_start v > 2 then
                  (let w = APPEND_REPEATED_BYTE v in w\<lparr>mix_start := next_p w\<rparr>)
                else v);
          w1 = w0\<lparr>rep_start := next_p w0, rep_val := next_val\<rparr>;
          mix_len = rep_start w1 - mix_start w1
      in if mix_len \<ge> 128 then
           (let w = APPEND_MIXED_BYTES buf mix_len w1
            in w\<lparr>mix_start := mix_start w + clip_mix_len mix_len\<rparr>)
         else w1)"

text \<open>One iteration: the loop body followed by \<^verbatim>\<open>next++\<close>.\<close>

definition rle_body :: "byte list \<Rightarrow> rle_vars \<Rightarrow> rle_vars" where
  "rle_body buf v0 =
     (let next_val = peek buf (next_p v0);
          v1 = v0\<lparr>nonzero := nonzero v0 OR next_val\<rparr>;
          v2 = rle_cap buf v1;
          v3 = (if next_val = rep_val v2 then rle_same buf v2 else rle_differ buf next_val v2)
      in v3\<lparr>next_p := next_p v3 + 1\<rparr>)"

lemma next_p_APPEND [simp]:
  "next_p (APPEND_MIXED_BYTES buf ml v) = next_p v"
  "next_p (APPEND_REPEATED_BYTE v) = next_p v"
  by (simp_all add: APPEND_MIXED_BYTES_def APPEND_REPEATED_BYTE_def)

lemma next_p_rle_cap [simp]: "next_p (rle_cap buf v) = next_p v"
  by (simp add: rle_cap_def Let_def)

lemma next_p_rle_same [simp]: "next_p (rle_same buf v) = next_p v"
  by (simp add: rle_same_def Let_def)

lemma next_p_rle_differ [simp]: "next_p (rle_differ buf x v) = next_p v"
  by (simp add: rle_differ_def Let_def)

lemma next_p_rle_body [simp]: "next_p (rle_body buf v) = next_p v + 1"
  by (simp add: rle_body_def Let_def)

function rle_loop :: "byte list \<Rightarrow> rle_vars \<Rightarrow> rle_vars" where
  "rle_loop buf v = (if next_p v < length buf then rle_loop buf (rle_body buf v) else v)"
  by pat_completeness auto
termination
  by (relation "measure (\<lambda>(buf, v). length buf - next_p v)") auto

declare rle_loop.simps [simp del]

text \<open>The code after the loop (``Handle final bytes'').\<close>

definition rle_final :: "byte list \<Rightarrow> rle_vars \<Rightarrow> rle_vars" where
  "rle_final buf v0 =
     (let v1 = (if next_p v0 - rep_start v0 > 2 then
                  (let w = APPEND_REPEATED_BYTE v0 in w\<lparr>mix_start := next_p w\<rparr>)
                else v0);
          v2 = v1\<lparr>rep_start := next_p v1\<rparr>;
          mix_len = rep_start v2 - mix_start v2;
          v3 = (if mix_len > 0 then
                  (let w = APPEND_MIXED_BYTES buf mix_len v2
                   in w\<lparr>mix_start := mix_start w + clip_mix_len mix_len\<rparr>)
                else v2);
          mix_len2 = rep_start v3 - mix_start v3
      in if mix_len2 > 0 then APPEND_MIXED_BYTES buf mix_len2 v3 else v3)"

definition rle_init :: "byte list \<Rightarrow> rle_vars" where
  "rle_init buf = \<lparr>mix_start = 0, rep_start = 0, next_p = 0,
                   rep_val = peek buf 0, nonzero = 0, rle_out = []\<rparr>"

text \<open>The encoding part of \<^verbatim>\<open>RLE_store_line\<close>: the final values of its locals for the
  line \<open>buf\<close> (of \<open>buf_len = length buf\<close> bytes).\<close>

definition rle_encode :: "byte list \<Rightarrow> rle_vars" where
  "rle_encode buf = rle_final buf (rle_loop buf (rle_init buf))"

text \<open>The meta data written in front of a line: the command letter and the two length
  bytes \<^verbatim>\<open>rle_len & 0xff\<close> and \<^verbatim>\<open>(rle_len >> 8) & 0xff\<close>, \<^verbatim>\<open>g\<close> with the high byte first
  for the QL series, \<^verbatim>\<open>G\<close> with the low byte first otherwise.\<close>

definition line_prefix :: "job_options_t \<Rightarrow> nat \<Rightarrow> byte list" where
  "line_prefix job_options rle_len =
     (if ql_series job_options
      then [0x67, of_nat (rle_len div 256), of_nat rle_len]
      else [0x47, of_nat rle_len, of_nat (rle_len div 256)])"

text \<open>What \<^verbatim>\<open>RLE_store_line\<close> leaves in the buffer for the line \<open>buf\<close>: the prefix and the
  runs when some byte of \<open>buf\<close> is nonzero, the single byte \<^verbatim>\<open>Z\<close> otherwise.\<close>

definition stored_line :: "job_options_t \<Rightarrow> byte list \<Rightarrow> byte list" where
  "stored_line job_options buf =
     (let v = rle_encode buf; rle_len = length (rle_out v)
      in if nonzero v \<noteq> 0 then line_prefix job_options rle_len @ rle_out v else [0x5a])"

definition RLE_store_line ::
  "(nat \<Rightarrow> bool) \<Rightarrow> job_options_t \<Rightarrow> cups_page_header2_t \<Rightarrow> byte list \<Rightarrow> globals
     \<Rightarrow> globals result" where
  "RLE_store_line realloc_ok job_options header buf g =
     (let buf_len = length buf
      in case ensure_rle_buf_space realloc_ok job_options header
                (4 + buf_len + buf_len div 128) g of
           Exit g' \<Rightarrow> Exit g'
         | Return g1 \<Rightarrow>
             (let g2 = g1\<lparr>rle_buffer := rle_buffer g1 @ stored_line job_options buf\<rparr>;
                  g3 = g2\<lparr>lines_waiting := lines_waiting g2 + 1\<rparr>
              in Return (if lines_waiting g3 \<ge> max_lines_waiting
                         then flush_rle_buffer job_options header g3 else g3)))"

subsection \<open>\<^verbatim>\<open>RLE_store_empty_lines\<close>\<close>

text \<open>The inner loop \<^verbatim>\<open>for (len = bytes_per_line; len > 0; len -= rep_len)\<close>: repeat
  runs of at most 129 bytes of \<open>xormask\<close>.\<close>

function empty_line_runs :: "nat \<Rightarrow> byte \<Rightarrow> byte list" where
  "empty_line_runs len xormask =
     (if len > 0 then
        (let rep_len = (if len > 129 then 129 else len)
         in [1 - of_nat rep_len, xormask] @ empty_line_runs (len - rep_len) xormask)
      else [])"
  by pat_completeness auto
termination
  by (relation "measure (\<lambda>(len, xormask). len)") auto

declare empty_line_runs.simps [simp del]

definition RLE_store_empty_lines ::
  "(nat \<Rightarrow> bool) \<Rightarrow> job_options_t \<Rightarrow> cups_page_header2_t \<Rightarrow> nat \<Rightarrow> byte \<Rightarrow> globals
     \<Rightarrow> globals result" where
  "RLE_store_empty_lines realloc_ok job_options header n xormask g0 =
     (let bpl = bytes_per_line job_options;
          g = g0\<lparr>lines_waiting := lines_waiting g0 + n\<rparr>
      in if xormask \<noteq> 0 then
           (let blocks = (bpl + 127) div 128
            in case ensure_rle_buf_space realloc_ok job_options header (n * blocks) g of
                 Exit g' \<Rightarrow> Exit g'
               | Return g1 \<Rightarrow>
                   (let runs = empty_line_runs bpl xormask;
                        line = line_prefix job_options (length runs) @ runs
                    in Return (g1\<lparr>rle_buffer := rle_buffer g1 @ concat (replicate n line)\<rparr>)))
         else
           (case ensure_rle_buf_space realloc_ok job_options header n g of
              Exit g' \<Rightarrow> Exit g'
            | Return g1 \<Rightarrow> Return (g1\<lparr>rle_buffer := rle_buffer g1 @ replicate n 0x5a\<rparr>)))"

subsection \<open>\<^verbatim>\<open>generate_emit_line\<close>\<close>

text \<open>The table \<^verbatim>\<open>mirror\<close>: \<open>mirror_table ! i\<close> is the bit mirror image of \<open>i\<close>.\<close>

definition mirror_table :: "byte list" where
  "mirror_table =
    [
     0x00, 0x80, 0x40, 0xc0, 0x20, 0xa0, 0x60, 0xe0,
     0x10, 0x90, 0x50, 0xd0, 0x30, 0xb0, 0x70, 0xf0,
     0x08, 0x88, 0x48, 0xc8, 0x28, 0xa8, 0x68, 0xe8,
     0x18, 0x98, 0x58, 0xd8, 0x38, 0xb8, 0x78, 0xf8,
     0x04, 0x84, 0x44, 0xc4, 0x24, 0xa4, 0x64, 0xe4,
     0x14, 0x94, 0x54, 0xd4, 0x34, 0xb4, 0x74, 0xf4,
     0x0c, 0x8c, 0x4c, 0xcc, 0x2c, 0xac, 0x6c, 0xec,
     0x1c, 0x9c, 0x5c, 0xdc, 0x3c, 0xbc, 0x7c, 0xfc,
     0x02, 0x82, 0x42, 0xc2, 0x22, 0xa2, 0x62, 0xe2,
     0x12, 0x92, 0x52, 0xd2, 0x32, 0xb2, 0x72, 0xf2,
     0x0a, 0x8a, 0x4a, 0xca, 0x2a, 0xaa, 0x6a, 0xea,
     0x1a, 0x9a, 0x5a, 0xda, 0x3a, 0xba, 0x7a, 0xfa,
     0x06, 0x86, 0x46, 0xc6, 0x26, 0xa6, 0x66, 0xe6,
     0x16, 0x96, 0x56, 0xd6, 0x36, 0xb6, 0x76, 0xf6,
     0x0e, 0x8e, 0x4e, 0xce, 0x2e, 0xae, 0x6e, 0xee,
     0x1e, 0x9e, 0x5e, 0xde, 0x3e, 0xbe, 0x7e, 0xfe,
     0x01, 0x81, 0x41, 0xc1, 0x21, 0xa1, 0x61, 0xe1,
     0x11, 0x91, 0x51, 0xd1, 0x31, 0xb1, 0x71, 0xf1,
     0x09, 0x89, 0x49, 0xc9, 0x29, 0xa9, 0x69, 0xe9,
     0x19, 0x99, 0x59, 0xd9, 0x39, 0xb9, 0x79, 0xf9,
     0x05, 0x85, 0x45, 0xc5, 0x25, 0xa5, 0x65, 0xe5,
     0x15, 0x95, 0x55, 0xd5, 0x35, 0xb5, 0x75, 0xf5,
     0x0d, 0x8d, 0x4d, 0xcd, 0x2d, 0xad, 0x6d, 0xed,
     0x1d, 0x9d, 0x5d, 0xdd, 0x3d, 0xbd, 0x7d, 0xfd,
     0x03, 0x83, 0x43, 0xc3, 0x23, 0xa3, 0x63, 0xe3,
     0x13, 0x93, 0x53, 0xd3, 0x33, 0xb3, 0x73, 0xf3,
     0x0b, 0x8b, 0x4b, 0xcb, 0x2b, 0xab, 0x6b, 0xeb,
     0x1b, 0x9b, 0x5b, 0xdb, 0x3b, 0xbb, 0x7b, 0xfb,
     0x07, 0x87, 0x47, 0xc7, 0x27, 0xa7, 0x67, 0xe7,
     0x17, 0x97, 0x57, 0xd7, 0x37, 0xb7, 0x77, 0xf7,
     0x0f, 0x8f, 0x4f, 0xcf, 0x2f, 0xaf, 0x6f, 0xef,
     0x1f, 0x9f, 0x5f, 0xdf, 0x3f, 0xbf, 0x7f, 0xff
    ]"

definition mirror :: "byte \<Rightarrow> byte" where
  "mirror b = mirror_table ! unat b"

text \<open>
  The shifting loops: for each data byte, in the order given,
  \<^verbatim>\<open>nonzero |= data; box |= data << shift; out_buffer [j++] = (f (box & 0xff)) ^ xormask;
  box >>= 8\<close>, where \<open>f\<close> is the identity when mirroring and the table \<^verbatim>\<open>mirror\<close>
  otherwise.  \<open>box\<close> and \<open>nonzero\<close> are \<^verbatim>\<open>unsigned int\<close>.  The result is the final
  \<open>box\<close>, \<open>nonzero\<close> and the bytes written.
\<close>

fun shift_loop ::
  "(byte \<Rightarrow> byte) \<Rightarrow> nat \<Rightarrow> byte \<Rightarrow> byte list \<Rightarrow> 32 word \<Rightarrow> 32 word
     \<Rightarrow> 32 word \<times> 32 word \<times> byte list" where
  "shift_loop f shift xormask [] box nz = (box, nz, [])"
| "shift_loop f shift xormask (d # ds) box nz =
     (let data = (ucast d :: 32 word);
          nz1 = nz OR data;
          box1 = box OR push_bit shift data;
          b = f (ucast (box1 AND 0xff)) XOR xormask;
          (box', nz', bs) = shift_loop f shift xormask ds (drop_bit 8 box1) nz1
      in (box', nz', b # bs))"

text \<open>
  \<^verbatim>\<open>generate_emit_line\<close> returns whether \<open>nonzero \<noteq> 0\<close>, and the contents of
  \<^verbatim>\<open>out_buffer\<close>: \<open>right_padding_bytes\<close> bytes of \<open>xormask\<close>, the pixel bytes, and
  \<open>bytes_per_line - j\<close> bytes of \<open>xormask\<close>.  The source requires
  \<open>buflen + right_padding_bytes + (shift > 0 ? 1 : 0) \<le> bytes_per_line\<close>; without it the C
  code writes past the end of \<^verbatim>\<open>out_buffer\<close>, and the list of the model is longer than
  \<open>bytes_per_line\<close>.  A negative \<open>shift\<close> is meant for \<open>do_mirror = False\<close> only (a C shift
  by a negative amount is undefined); \<open>buflen\<close> and \<open>right_padding_bytes\<close> are not negative.
\<close>

definition generate_emit_line ::
  "byte list \<Rightarrow> nat \<Rightarrow> nat \<Rightarrow> nat \<Rightarrow> int \<Rightarrow> bool \<Rightarrow> byte \<Rightarrow> bool \<times> byte list" where
  "generate_emit_line in_buffer buflen bpl right_padding_bytes shift do_mirror xormask =
     (let inp = map (peek in_buffer) [0..<buflen];
          (nz, mid) =
            (if do_mirror then
               (if shift \<noteq> 0 then
                  (let (box, nz, bs) = shift_loop id (nat shift) xormask inp 0 0
                   in (nz, bs @ [ucast (box AND 0xff)]))
                else
                  (fold (\<lambda>d nz. nz OR ucast d) inp (0 :: 32 word),
                   map (\<lambda>d. d XOR xormask) inp))
             else
               (if shift \<noteq> 0 then
                  (if buflen > 0 then
                     (let lastb = (ucast (peek in_buffer (buflen - 1)) :: 32 word);
                          rest = rev (map (peek in_buffer) [0..<buflen - 1])
                      in if shift < 0 then
                           (let box0 = drop_bit (nat (- shift)) lastb;
                                (box, nz, bs) = shift_loop mirror (nat (shift + 8)) xormask rest box0 box0
                            in (nz, bs @ [mirror (ucast (box AND 0xff)) XOR xormask]))
                         else
                           (let box0 = push_bit (nat shift) lastb;
                                b0 = mirror (ucast (box0 AND 0xff)) XOR xormask;
                                (box, nz, bs) =
                                   shift_loop mirror (nat shift) xormask rest (drop_bit 8 box0) box0
                            in (nz, b0 # bs @ [mirror (ucast (box AND 0xff)) XOR xormask])))
                   else (0, []))
                else
                  (fold (\<lambda>d nz. nz OR ucast d) (rev inp) (0 :: 32 word),
                   map (\<lambda>d. mirror d XOR xormask) (rev inp))));
          j = right_padding_bytes + length mid
      in (nz \<noteq> 0,
          replicate right_padding_bytes xormask @ mid @ replicate (bpl - j) xormask))"

subsection \<open>\<^verbatim>\<open>emit_raster_lines\<close>\<close>

text \<open>C arithmetic on \<^verbatim>\<open>unsigned\<close> and \<^verbatim>\<open>int\<close> (32 bits): reduction modulo \<open>2 ^ 32\<close>,
  the signed reading of an unsigned value, and division and remainder truncating
  towards zero.\<close>

definition u32 :: "int \<Rightarrow> int" where
  "u32 x = x mod 2 ^ 32"

definition s32 :: "int \<Rightarrow> int" where
  "s32 x = (let y = x mod 2 ^ 32 in if y \<ge> 2 ^ 31 then y - 2 ^ 32 else y)"

definition c_div :: "int \<Rightarrow> int \<Rightarrow> int" where
  "c_div a b = sgn a * sgn b * (\<bar>a\<bar> div \<bar>b\<bar>)"

definition c_mod :: "int \<Rightarrow> int \<Rightarrow> int" where
  "c_mod a b = a - b * c_div a b"

text \<open>The values \<^verbatim>\<open>emit_raster_lines\<close> computes before its loop over the lines.\<close>

record line_geometry =
  g_buflen :: nat
  g_right_padding_bytes :: nat
  g_shift :: int
  g_top_empty_lines :: nat
  g_bot_empty_lines :: nat
  g_top_skip :: nat
  g_bot_skip :: nat

definition geometry :: "job_options_t \<Rightarrow> cups_page_header2_t \<Rightarrow> line_geometry" where
  "geometry job_options header =
     (let do_mirror = (software_mirror job_options \<and> mirror_print job_options);
          bpl = int (bytes_per_line job_options);
          buflen0 = int (cupsBytesPerLine header);
          buflen1 = (if buflen0 > 0xff then 0xff else buflen0);
          buflen2 = (if buflen1 \<ge> bpl then bpl else buflen1);
          right_spacing_px = (if BBox2_lt_PageSize0 header then int (right_spacing header) else 0);
          right_padding_bits =
            (if align job_options = CENTER then
               (let left_spacing_px = int (left_spacing header);
                    r = s32 (u32 (u32 (bpl * 8
                              - u32 (left_spacing_px + int (cupsWidth header) + right_spacing_px))
                            div 2 + right_spacing_px))
                in if r < 0 then 0 else r)
             else s32 right_spacing_px);
          right_padding_bytes0 = c_div right_padding_bits 8;
          shift0 = c_mod right_padding_bits 8;
          shift = (if \<not> do_mirror
                   then shift0 - int ((8 - cupsWidth header mod 8) mod 8) else shift0);
          shift_positive = (if shift > 0 then 1 else 0 :: int);
          (buflen, right_padding_bytes) =
            (if u32 (buflen2 + right_padding_bytes0 + shift_positive) > bpl then
               (let rpb = (if right_padding_bytes0 + shift_positive > bpl
                           then bpl - shift_positive else right_padding_bytes0)
                in (u32 (bpl - rpb - shift_positive), rpb))
             else (buflen2, right_padding_bytes0));
          top0 = (if BBox3_nonzero header \<and> (\<not> concat_pages job_options \<or> page job_options = 1)
                  then top_distance_px header else 0);
          image_height_px = PageSize1_px header;
          bot0 = (if image_height_px \<ge> top0 + cupsHeight header
                  then image_height_px - top0 - cupsHeight header else 0);
          min_feed = min_feed_px header;
          (top_empty_lines, top_skip) =
            (if media job_options = LABELS \<and> top0 \<noteq> 0 then (0, 0)
             else if top0 \<ge> min_feed then (top0 - min_feed, 0)
             else (0, min_feed - top0));
          (bot_empty_lines, bot_skip) =
            (if media job_options = LABELS \<and> bot0 \<noteq> 0 then (0, 0)
             else if bot0 \<ge> min_feed then (bot0 - min_feed, 0)
             else (0, min_feed - bot0))
      in \<lparr>g_buflen = nat buflen, g_right_padding_bytes = nat right_padding_bytes,
          g_shift = shift, g_top_empty_lines = top_empty_lines,
          g_bot_empty_lines = bot_empty_lines, g_top_skip = top_skip, g_bot_skip = bot_skip\<rparr>)"

definition xormask_of :: "cups_page_header2_t \<Rightarrow> byte" where
  "xormask_of header = (if NegativePrint header then 0xff else 0)"

text \<open>
  One line of the page, after \<^verbatim>\<open>cupsRasterReadPixels\<close> has delivered \<open>row\<close>: a line in
  the skipped top or bottom range is dropped; a line with a set input pixel is stored,
  after the empty lines that wait; any other line only counts as an empty line.
\<close>

definition emit_raster_line ::
  "(nat \<Rightarrow> bool) \<Rightarrow> job_options_t \<Rightarrow> cups_page_header2_t \<Rightarrow> line_geometry \<Rightarrow> nat
     \<Rightarrow> byte list \<Rightarrow> globals \<Rightarrow> globals result" where
  "emit_raster_line realloc_ok job_options header geo y row g =
     (let xormask = xormask_of header;
          do_mirror = (software_mirror job_options \<and> mirror_print job_options);
          bpl = bytes_per_line job_options
      in if y < g_top_skip geo \<or> y + g_bot_skip geo \<ge> cupsHeight header then Return g
         else
           (let (nonempty_line, emit_line_buffer) =
                  generate_emit_line row (g_buflen geo) bpl (g_right_padding_bytes geo)
                    (g_shift geo) do_mirror xormask
            in if nonempty_line then
                 (case (if empty_lines g \<noteq> 0
                        then (case RLE_store_empty_lines realloc_ok job_options header
                                     (empty_lines g) xormask g of
                                Exit g' \<Rightarrow> Exit g'
                              | Return g1 \<Rightarrow> Return (g1\<lparr>empty_lines := 0\<rparr>))
                        else Return g) of
                    Exit g' \<Rightarrow> Exit g'
                  | Return g2 \<Rightarrow>
                      RLE_store_line realloc_ok job_options header (take bpl emit_line_buffer) g2)
               else Return (g\<lparr>empty_lines := empty_lines g + 1\<rparr>)))"

text \<open>The loop \<^verbatim>\<open>for (y = 0; y < cupsHeight; y++)\<close>; \<open>rows\<close> are the lines the raster
  stream still holds for this page, and the loop ends early when
  \<^verbatim>\<open>cupsRasterReadPixels\<close> delivers nothing.\<close>

fun raster_loop ::
  "(nat \<Rightarrow> bool) \<Rightarrow> job_options_t \<Rightarrow> cups_page_header2_t \<Rightarrow> line_geometry \<Rightarrow> nat
     \<Rightarrow> byte list list \<Rightarrow> globals \<Rightarrow> globals result" where
  "raster_loop realloc_ok job_options header geo y [] g = Return g"
| "raster_loop realloc_ok job_options header geo y (row # rows) g =
     (if y < cupsHeight header then
        (case emit_raster_line realloc_ok job_options header geo y row g of
           Exit g' \<Rightarrow> Exit g'
         | Return g1 \<Rightarrow> raster_loop realloc_ok job_options header geo (y + 1) rows g1)
      else Return g)"

definition emit_raster_lines ::
  "(nat \<Rightarrow> bool) \<Rightarrow> job_options_t \<Rightarrow> byte list list \<Rightarrow> cups_page_header2_t \<Rightarrow> globals
     \<Rightarrow> globals result" where
  "emit_raster_lines realloc_ok job_options rows header g =
     (let geo = geometry job_options header;
          g1 = g\<lparr>empty_lines := empty_lines g + g_top_empty_lines geo\<rparr>
      in case raster_loop realloc_ok job_options header geo 0 rows g1 of
           Exit g' \<Rightarrow> Exit g'
         | Return g2 \<Rightarrow>
             Return (if g_bot_empty_lines geo \<noteq> 0 \<and> \<not> concat_pages job_options
                     then g2\<lparr>empty_lines := empty_lines g2 + g_bot_empty_lines geo\<rparr>
                     else g2))"

subsection \<open>Job and page commands\<close>

definition emit_job_cmds :: "job_options_t \<Rightarrow> globals \<Rightarrow> globals" where
  "emit_job_cmds job_options g =
     (let g1 = putchars NulBytes (replicate 350 0x00) g;
          g2 = putchars Initialise [ESC, 0x40] g1;
          g3 = (if legacy_xfer_mode job_options \<ge> 0 \<and> legacy_xfer_mode job_options < 0x100
                then putchars LegacyTransferMode
                       [ESC, 0x69, 0x52, of_int (legacy_xfer_mode job_options)] g2
                else g2);
          g4 = (if xfer_mode job_options \<ge> 0 \<and> xfer_mode job_options < 0x100
                then putchars TransferMode [ESC, 0x69, 0x61, of_int (xfer_mode job_options)] g3
                else g3)
      in if status_notification job_options \<noteq> - 1
         then putchars StatusNotification
                [ESC, 0x69, 0x21, of_int (status_notification job_options)] g4
         else g4)"

definition emit_page_cmds :: "job_options_t \<Rightarrow> cups_page_header2_t \<Rightarrow> globals \<Rightarrow> globals" where
  "emit_page_cmds job_options header g =
     (let density = print_density job_options;
          g1 = (if density \<in> {1, 2, 3, 4, 5}
                then putchars PrintDensity [ESC, 0x69, 0x44, of_int density] g else g);
          g2 = (if legacy_hires job_options \<and> HWResolution0 header = 360 \<and>
                   (HWResolution1 header = 360 \<or> HWResolution1 header = 720) then
                  (let tape_width_mm = (if PageSize0_mm header > 0xff then 0xff
                                        else PageSize0_mm header)
                   in if HWResolution1 header = 360
                      then putchars WidthResolution
                             [ESC, 0x69, 0x63, 0x84, 0x00, of_nat tape_width_mm, 0x00, 0x00] g1
                      else putchars WidthResolution
                             [ESC, 0x69, 0x63, 0x86, 0x09, of_nat tape_width_mm, 0x00, 0x01] g1)
                else g1);
          various_mode =
            (if auto_cut job_options \<or> cut_mark job_options then 0x40 else 0 :: byte)
            OR (if mirror_print job_options \<and> \<not> software_mirror job_options then 0x80 else 0);
          g3 = putchars VariousMode [ESC, 0x69, 0x4d, various_mode] g2;
          advanced_mode =
            (if \<not> legacy_hires job_options then
               (if HWResolution0 header = 360 then
                  (if HWResolution1 header = 180 then 0x01 else 0 :: byte)
                  OR (if HWResolution1 header = 720 then 0x40 else 0)
                else 0)
               OR (if HWResolution0 header = 300 \<and> HWResolution1 header = 600 then 0x40 else 0)
             else 0)
            OR (if half_cut job_options then 0x04 else 0)
            OR (if \<not> chain_printing job_options then 0x08 else 0);
          g4 = putchars AdvancedMode [ESC, 0x69, 0x4b, advanced_mode] g3;
          g5 = (if cut_label job_options \<noteq> - 1
                then putchars CutLabel [ESC, 0x69, 0x41, of_int (cut_label job_options)] g4
                else g4);
          feed = (if media job_options \<noteq> LABELS then margins_px header else 0);
          g6 = putchars Margin [ESC, 0x69, 0x64, of_nat feed, of_nat (feed div 256)] g5;
          g7 = (if pixel_xfer job_options = RLE
                then putchars Compression [0x4d, 0x02] g6 else g6)
      in if pixel_xfer job_options = BIP
         then (let image_height_px = PageSize1_px header
               in putchars BitImage
                    [ESC, 0x2a, 0x27, of_nat image_height_px, of_nat (image_height_px div 256)] g7)
         else g7)"

subsection \<open>\<^verbatim>\<open>process_rasterdata\<close>\<close>

text \<open>
  The raster stream is a list of pages, each a page header and the lines that follow
  it.  \<^verbatim>\<open>cupsRasterReadHeader2\<close> fails at the end of the list.  One iteration of the page
  loop handles the current page \<open>(header, rows)\<close>; \<open>has_next\<close> says whether another header
  follows.  \<^verbatim>\<open>job_options->page\<close> is \<open>pageno\<close>, and \<^verbatim>\<open>job_options->last_page\<close> is false
  until the next header has been asked for.
\<close>

definition process_page ::
  "(nat \<Rightarrow> bool) \<Rightarrow> job_options_t \<Rightarrow> nat \<Rightarrow> cups_page_header2_t \<Rightarrow> byte list list
     \<Rightarrow> bool \<Rightarrow> globals \<Rightarrow> globals result" where
  "process_page realloc_ok job_options0 pageno header rows has_next g =
     (let job_options = job_options0\<lparr>page := pageno, last_page := False\<rparr>;
          g1 = (if page job_options = 1
                then emit_page_cmds job_options header (emit_job_cmds job_options g) else g)
      in case emit_raster_lines realloc_ok job_options rows header g1 of
           Exit g' \<Rightarrow> Exit g'
         | Return g2 \<Rightarrow>
             (let xormask = xormask_of header;
                  job_options' = job_options\<lparr>last_page := \<not> has_next\<rparr>
              in if \<not> last_page job_options' then
                   (if \<not> concat_pages job_options' then
                      (case RLE_store_empty_lines realloc_ok job_options' header
                               (empty_lines g2) xormask g2 of
                         Exit g' \<Rightarrow> Exit g'
                       | Return g3 \<Rightarrow>
                           Return (putchars FormFeed [PTC_FORMFEED]
                                     (flush_rle_buffer job_options' header
                                        (g3\<lparr>empty_lines := 0\<rparr>))))
                    else Return g2)
                 else
                   (let n = (if \<not> concat_pages job_options' then empty_lines g2
                             else BBox1_px header)
                    in case RLE_store_empty_lines realloc_ok job_options' header n xormask
                              (g2\<lparr>empty_lines := n\<rparr>) of
                         Exit g' \<Rightarrow> Exit g'
                       | Return g3 \<Rightarrow>
                           Return (putchars Eject [PTC_EJECT]
                                     (flush_rle_buffer job_options' header
                                        (g3\<lparr>empty_lines := 0\<rparr>))))))"

fun process_pages ::
  "(nat \<Rightarrow> bool) \<Rightarrow> job_options_t \<Rightarrow> nat \<Rightarrow> (cups_page_header2_t \<times> byte list list) list
     \<Rightarrow> globals \<Rightarrow> globals result" where
  "process_pages realloc_ok job_options pageno [] g = Return g"
| "process_pages realloc_ok job_options pageno ((header, rows) # pages) g =
     (case process_page realloc_ok job_options pageno header rows (pages \<noteq> []) g of
        Exit g' \<Rightarrow> Exit g'
      | Return g1 \<Rightarrow> process_pages realloc_ok job_options (pageno + 1) pages g1)"

definition process_rasterdata ::
  "(nat \<Rightarrow> bool) \<Rightarrow> job_options_t \<Rightarrow> (cups_page_header2_t \<times> byte list list) list
     \<Rightarrow> globals result" where
  "process_rasterdata realloc_ok job_options pages =
     process_pages realloc_ok job_options 1 pages init_globals"

section \<open>The length bound of the run-length encoder\<close>

text \<open>
  Loop invariant of \<^verbatim>\<open>RLE_store_line\<close> (invariants 3 to 5 of the comment in the source),
  extended by the bound on what has been written: \<open>k\<close> counts the mixed runs of 128
  bytes written so far, each of which covers 128 bytes of input, and one more byte is
  allowed while a repeated run of at least three bytes is pending.
\<close>

definition rle_inv :: "nat \<Rightarrow> rle_vars \<Rightarrow> bool" where
  "rle_inv k v \<longleftrightarrow>
     mix_start v \<le> rep_start v \<and> rep_start v \<le> next_p v \<and>
     (next_p v - rep_start v > 2 \<longrightarrow> mix_start v = rep_start v) \<and>
     next_p v - rep_start v \<le> 129 \<and>
     rep_start v - mix_start v < 128 \<and>
     128 * k \<le> mix_start v \<and>
     length (rle_out v) \<le> mix_start v + k + (if next_p v - rep_start v \<ge> 3 then 1 else 0)"

text \<open>The invariant after the test for a run of 129 bytes.\<close>

definition rle_inv1 :: "nat \<Rightarrow> rle_vars \<Rightarrow> bool" where
  "rle_inv1 k v \<longleftrightarrow> rle_inv k v \<and> next_p v - rep_start v < 129"

text \<open>The invariant at the end of the loop body, before \<^verbatim>\<open>next++\<close>.\<close>

definition rle_inv2 :: "nat \<Rightarrow> rle_vars \<Rightarrow> bool" where
  "rle_inv2 k v \<longleftrightarrow>
     mix_start v \<le> rep_start v \<and> rep_start v \<le> next_p v \<and>
     (next_p v - rep_start v \<ge> 2 \<longrightarrow> mix_start v = rep_start v) \<and>
     next_p v - rep_start v < 129 \<and>
     rep_start v - mix_start v < 128 \<and>
     128 * k \<le> mix_start v \<and>
     length (rle_out v) \<le> mix_start v + k + (if next_p v - rep_start v \<ge> 2 then 1 else 0)"

lemma length_APPEND_REPEATED_BYTE [simp]:
  "length (rle_out (APPEND_REPEATED_BYTE v)) = length (rle_out v) + 2"
  by (simp add: APPEND_REPEATED_BYTE_def)

lemma length_APPEND_MIXED_BYTES_le:
  "length (rle_out (APPEND_MIXED_BYTES buf ml v)) \<le> length (rle_out v) + 1 + ml"
  "length (rle_out (APPEND_MIXED_BYTES buf ml v)) \<le> length (rle_out v) + 129"
  by (auto simp add: APPEND_MIXED_BYTES_def clip_mix_len_def)

lemma fields_APPEND_REPEATED_BYTE [simp]:
  "mix_start (APPEND_REPEATED_BYTE v) = mix_start v"
  "rep_start (APPEND_REPEATED_BYTE v) = rep_start v"
  "rep_val (APPEND_REPEATED_BYTE v) = rep_val v"
  "nonzero (APPEND_REPEATED_BYTE v) = nonzero v"
  by (simp_all add: APPEND_REPEATED_BYTE_def)

lemma fields_APPEND_MIXED_BYTES [simp]:
  "mix_start (APPEND_MIXED_BYTES buf ml v) = mix_start v"
  "rep_start (APPEND_MIXED_BYTES buf ml v) = rep_start v"
  "rep_val (APPEND_MIXED_BYTES buf ml v) = rep_val v"
  "nonzero (APPEND_MIXED_BYTES buf ml v) = nonzero v"
  by (simp_all add: APPEND_MIXED_BYTES_def)

lemma rle_cap_inv: "rle_inv k v \<Longrightarrow> rle_inv1 k (rle_cap buf v)"
  unfolding rle_inv_def rle_inv1_def rle_cap_def Let_def
  by (cases "next_p v - rep_start v \<ge> 129") (simp_all, arith)

lemma rle_same_inv:
  assumes a: "rle_inv1 k v"
  shows "rle_inv2 k (rle_same buf v)"
proof (cases "next_p v - rep_start v = 2 \<and> rep_start v - mix_start v > 0")
  case True
  have "length (rle_out (APPEND_MIXED_BYTES buf (rep_start v - mix_start v) v))
           \<le> length (rle_out v) + 1 + (rep_start v - mix_start v)"
    by (rule length_APPEND_MIXED_BYTES_le)
  with a True show ?thesis
    unfolding rle_inv_def rle_inv1_def rle_inv2_def rle_same_def Let_def
    by simp arith
next
  case False
  with a show ?thesis
    unfolding rle_inv_def rle_inv1_def rle_inv2_def rle_same_def Let_def
    by (auto split: if_splits)
qed

lemma rle_differ_inv:
  assumes a: "rle_inv1 k v"
  shows "\<exists>k'. rle_inv2 k' (rle_differ buf x v)"
proof (cases "next_p v - rep_start v > 2")
  case True
  with a have "rle_inv2 k (rle_differ buf x v)"
    unfolding rle_inv_def rle_inv1_def rle_inv2_def rle_differ_def Let_def
    by simp arith
  then show ?thesis ..
next
  case F: False
  show ?thesis
  proof (cases "next_p v - mix_start v \<ge> 128")
    case True
    have "length (rle_out (APPEND_MIXED_BYTES buf (next_p v - mix_start v)
             (v\<lparr>rep_start := next_p v, rep_val := x\<rparr>)))
           \<le> length (rle_out v) + 129"
      using length_APPEND_MIXED_BYTES_le(2) [of buf "next_p v - mix_start v"
               "v\<lparr>rep_start := next_p v, rep_val := x\<rparr>"]
      by simp
    moreover have "clip_mix_len (next_p v - mix_start v) = 128"
      using True unfolding clip_mix_len_def by simp
    ultimately have "rle_inv2 (k + 1) (rle_differ buf x v)"
      using a F True
      unfolding rle_inv_def rle_inv1_def rle_inv2_def rle_differ_def Let_def
      by simp arith
    then show ?thesis ..
  next
    case False
    with a F have "rle_inv2 k (rle_differ buf x v)"
      unfolding rle_inv_def rle_inv1_def rle_inv2_def rle_differ_def Let_def
      by simp
    then show ?thesis ..
  qed
qed

lemma rle_inv2_next: "rle_inv2 k v \<Longrightarrow> rle_inv k (v\<lparr>next_p := next_p v + 1\<rparr>)"
  unfolding rle_inv_def rle_inv2_def by simp arith

lemma rle_body_inv:
  assumes a: "rle_inv k v"
  shows "\<exists>k'. rle_inv k' (rle_body buf v)"
proof -
  have "rle_inv k (v\<lparr>nonzero := nonzero v OR peek buf (next_p v)\<rparr>)"
    using a by (simp add: rle_inv_def)
  then have c: "rle_inv1 k (rle_cap buf (v\<lparr>nonzero := nonzero v OR peek buf (next_p v)\<rparr>))"
    by (rule rle_cap_inv)
  define v2 where "v2 = rle_cap buf (v\<lparr>nonzero := nonzero v OR peek buf (next_p v)\<rparr>)"
  define w where "w = (if peek buf (next_p v) = rep_val v2 then rle_same buf v2
                       else rle_differ buf (peek buf (next_p v)) v2)"
  have "\<exists>k'. rle_inv2 k' w"
    using rle_same_inv [OF c] rle_differ_inv [OF c] unfolding w_def v2_def by auto
  then obtain k' where "rle_inv2 k' w" ..
  then have "rle_inv k' (w\<lparr>next_p := next_p w + 1\<rparr>)" by (rule rle_inv2_next)
  moreover have "rle_body buf v = w\<lparr>next_p := next_p w + 1\<rparr>"
    unfolding rle_body_def Let_def w_def v2_def ..
  ultimately show ?thesis by auto
qed

lemma rle_loop_inv: "rle_inv k v \<Longrightarrow> \<exists>k'. rle_inv k' (rle_loop buf v)"
proof (induction buf v arbitrary: k rule: rle_loop.induct)
  case (1 buf v)
  show ?case
  proof (cases "next_p v < length buf")
    case True
    from rle_body_inv [OF "1.prems"] obtain k1 where "rle_inv k1 (rle_body buf v)" ..
    from "1.IH" [OF True this] show ?thesis
      by (subst rle_loop.simps) (simp add: True)
  next
    case False
    with "1.prems" show ?thesis
      by (subst rle_loop.simps) auto
  qed
qed

lemma next_p_rle_loop:
  "next_p v \<le> length buf \<Longrightarrow> next_p (rle_loop buf v) = length buf"
proof (induction buf v rule: rle_loop.induct)
  case (1 buf v)
  then show ?case
    by (subst rle_loop.simps) simp
qed

lemma rle_init_inv: "rle_inv 0 (rle_init buf)"
  by (simp add: rle_inv_def rle_init_def)

lemma k_le_div: "128 * k \<le> (n::nat) \<Longrightarrow> k \<le> n div 128"
  by arith

lemma rle_final_bound_k:
  assumes "rle_inv k v"
  shows "\<exists>k'. 128 * k' \<le> next_p v \<and> length (rle_out (rle_final buf v)) \<le> next_p v + k' + 1"
proof -
  define v1 where "v1 = (if next_p v - rep_start v > 2 then
                  (let w = APPEND_REPEATED_BYTE v in w\<lparr>mix_start := next_p w\<rparr>)
                else v)"
  define v2 where "v2 = v1\<lparr>rep_start := next_p v1\<rparr>"
  define ml where "ml = rep_start v2 - mix_start v2"
  define v3 where "v3 = (if ml > 0 then
                  (let w = APPEND_MIXED_BYTES buf ml v2
                   in w\<lparr>mix_start := mix_start w + clip_mix_len ml\<rparr>)
                else v2)"
  define ml2 where "ml2 = rep_start v3 - mix_start v3"
  have fin: "rle_final buf v = (if ml2 > 0 then APPEND_MIXED_BYTES buf ml2 v3 else v3)"
    unfolding rle_final_def v1_def v2_def v3_def ml_def ml2_def Let_def ..
  have n1: "next_p v1 = next_p v" by (simp add: v1_def Let_def)
  have b1: "mix_start v1 \<le> next_p v \<and> next_p v - mix_start v1 \<le> 129 \<and>
            128 * k \<le> mix_start v1 \<and> length (rle_out v1) \<le> mix_start v1 + k"
  proof (cases "next_p v - rep_start v > 2")
    case True
    with assms show ?thesis unfolding v1_def rle_inv_def Let_def by simp arith
  next
    case False
    with assms show ?thesis unfolding v1_def rle_inv_def Let_def by simp arith
  qed
  have b2: "rep_start v2 = next_p v \<and> mix_start v2 = mix_start v1 \<and> rle_out v2 = rle_out v1"
    by (simp add: v2_def n1)
  have mlb: "ml = next_p v - mix_start v1" by (simp add: ml_def b2)
  show ?thesis
  proof (cases "ml > 0")
    case False
    then have "v3 = v2" by (simp add: v3_def)
    with False have "rle_final buf v = v2" by (simp add: fin ml2_def ml_def)
    with b1 b2 have "128 * k \<le> next_p v \<and> length (rle_out (rle_final buf v)) \<le> next_p v + k + 1"
      by simp
    then show ?thesis ..
  next
    case True
    have l3: "length (rle_out v3) \<le> length (rle_out v1) + 1 + ml"
             "length (rle_out v3) \<le> length (rle_out v1) + 129"
      using True length_APPEND_MIXED_BYTES_le [of buf ml v2] b2 by (simp_all add: v3_def Let_def)
    have m3: "mix_start v3 = mix_start v1 + clip_mix_len ml" "rep_start v3 = next_p v"
      using True b2 by (simp_all add: v3_def Let_def)
    show ?thesis
    proof (cases "ml > 128")
      case False
      then have c: "clip_mix_len ml = ml" by (simp add: clip_mix_len_def)
      have "ml2 = 0" using m3 mlb c b1 by (simp add: ml2_def)
      then have "rle_final buf v = v3" by (simp add: fin)
      with l3(1) mlb b1
      have "128 * k \<le> next_p v \<and> length (rle_out (rle_final buf v)) \<le> next_p v + k + 1"
        by simp linarith
      then show ?thesis ..
    next
      case T: True
      then have c: "clip_mix_len ml = 128" by (simp add: clip_mix_len_def)
      have ml129: "ml = 129" using T mlb b1 by simp
      have m2: "ml2 = 1" using m3 mlb c ml129 by (simp add: ml2_def)
      have "length (rle_out (rle_final buf v)) \<le> length (rle_out v3) + 1 + 1"
        using length_APPEND_MIXED_BYTES_le(1) [of buf ml2 v3] m2 by (simp add: fin)
      with l3(2) mlb ml129 b1
      have "128 * (k + 1) \<le> next_p v \<and> length (rle_out (rle_final buf v)) \<le> next_p v + (k + 1) + 1"
        by simp linarith
      then show ?thesis ..
    qed
  qed
qed

text \<open>
  Claim C1.  For every input row \<open>buf\<close> of \<open>n\<close> bytes handed to \<^verbatim>\<open>RLE_store_line\<close>, the
  run-length-encoded body it writes behind the three bytes of meta data (\<open>rle_out\<close>,
  the bytes between \<^verbatim>\<open>rle_buffer_next + 3\<close> and \<^verbatim>\<open>rle_next\<close>) is at most
  \<open>n + n div 128 + 1\<close> bytes long.
\<close>

theorem rle_encode_bound:
  "length (rle_out (rle_encode buf)) \<le> length buf + length buf div 128 + 1"
proof -
  from rle_loop_inv [OF rle_init_inv] obtain k where "rle_inv k (rle_loop buf (rle_init buf))" ..
  from rle_final_bound_k [OF this, of buf] obtain k' where
    k': "128 * k' \<le> length buf" "length (rle_out (rle_encode buf)) \<le> length buf + k' + 1"
    by (auto simp add: rle_encode_def next_p_rle_loop rle_init_def)
  from k_le_div [OF k'(1)] k'(2) show ?thesis by linarith
qed

section \<open>Example inputs\<close>

text \<open>The defaults of \<^verbatim>\<open>parse_job_options\<close>.\<close>

definition default_job_options :: job_options_t where
  "default_job_options =
     \<lparr>pixel_xfer = RLE, print_quality_high = True, auto_cut = False, half_cut = False,
      cut_mark = False, cut_label = - 1, chain_printing = True, mirror_print = False,
      pt_series = False, ql_series = False, bytes_per_line = 90, align = RIGHT, media = TAPE,
      software_mirror = False, print_density = 0, legacy_xfer_mode = - 1, xfer_mode = - 1,
      label_preamble = False, label_recoyery = False, last_page_flag = False,
      legacy_hires = False, concat_pages = False, status_notification = - 1, page = 0,
      last_page = False\<rparr>"

text \<open>A page header: 300 dpi, a one-byte-wide page of one line, a page box of 62 mm
  by 10 mm that the imaging box fills.\<close>

definition example_header :: cups_page_header2_t where
  "example_header =
     \<lparr>HWResolution0 = 300, HWResolution1 = 300, cupsBytesPerLine = 1, cupsHeight = 1,
      cupsWidth = 8, NegativePrint = False, PageSize0_mm = 62, PageSize1_mm = 10,
      PageSize1_px = 1, margins_px = 0, min_feed_px = 0, right_spacing = 0, left_spacing = 0,
      BBox2_lt_PageSize0 = False, BBox3_nonzero = False, top_distance_px = 0, BBox1_px = 0\<rparr>"

lemmas rle_eval =
  rle_encode_def rle_init_def rle_final_def rle_body_def rle_cap_def rle_same_def
  rle_differ_def APPEND_MIXED_BYTES_def APPEND_REPEATED_BYTE_def clip_mix_len_def peek_def
  rle_loop.simps Let_def

section \<open>Tag letter and byte order of the length prefix\<close>

text \<open>
  Claim C9.  The command letter and the order of the two length bytes of every stored
  row depend only on \<open>ql_series\<close>.  When \<^verbatim>\<open>RLE_store_line\<close> returns for a row that it
  encodes (some byte of it is nonzero), it has appended to the buffer that
  \<^verbatim>\<open>ensure_rle_buf_space\<close> left \<^verbatim>\<open>g\<close>, the high length byte, the low length byte and the
  runs when \<open>ql_series\<close> is set, and \<^verbatim>\<open>G\<close>, the low byte, the high byte and the runs
  otherwise, whatever \<open>pt_series\<close> is, and has counted the line; the buffer is then
  flushed when \<open>max_lines_waiting\<close> lines wait.  And the \<open>n\<close> rows that
  \<^verbatim>\<open>RLE_store_empty_lines\<close> synthesizes under negative print (\<open>xormask \<noteq> 0\<close>) are
  appended to the buffer in the same two forms.
\<close>

theorem line_prefix_ql_series_only:
  "(nonzero (rle_encode buf) \<noteq> 0 \<longrightarrow>
      RLE_store_line realloc_ok job_options header buf g = Return g' \<longrightarrow>
      (\<exists>g1. ensure_rle_buf_space realloc_ok job_options header
                (4 + length buf + length buf div 128) g = Return g1 \<and>
            g' = (if lines_waiting g1 + 1 \<ge> max_lines_waiting
                  then flush_rle_buffer job_options header
                         (g1\<lparr>rle_buffer := rle_buffer g1
                               @ (if ql_series job_options
                                  then [0x67, of_nat (length (rle_out (rle_encode buf)) div 256),
                                        of_nat (length (rle_out (rle_encode buf)))]
                                  else [0x47, of_nat (length (rle_out (rle_encode buf))),
                                        of_nat (length (rle_out (rle_encode buf)) div 256)])
                               @ rle_out (rle_encode buf),
                             lines_waiting := lines_waiting g1 + 1\<rparr>)
                  else g1\<lparr>rle_buffer := rle_buffer g1
                            @ (if ql_series job_options
                               then [0x67, of_nat (length (rle_out (rle_encode buf)) div 256),
                                     of_nat (length (rle_out (rle_encode buf)))]
                               else [0x47, of_nat (length (rle_out (rle_encode buf))),
                                     of_nat (length (rle_out (rle_encode buf)) div 256)])
                            @ rle_out (rle_encode buf),
                          lines_waiting := lines_waiting g1 + 1\<rparr>))) \<and>
   (xormask \<noteq> 0 \<longrightarrow>
      RLE_store_empty_lines realloc_ok job_options header n xormask g = Return g' \<longrightarrow>
      (\<exists>before. rle_buffer g' = before @ concat (replicate n
         ((if ql_series job_options
           then [0x67, of_nat (length (empty_line_runs (bytes_per_line job_options) xormask) div 256),
                 of_nat (length (empty_line_runs (bytes_per_line job_options) xormask))]
           else [0x47, of_nat (length (empty_line_runs (bytes_per_line job_options) xormask)),
                 of_nat (length (empty_line_runs (bytes_per_line job_options) xormask) div 256)])
          @ empty_line_runs (bytes_per_line job_options) xormask))))"
proof (intro conjI impI)
  let ?line = "(if ql_series job_options
                then [0x67, of_nat (length (rle_out (rle_encode buf)) div 256),
                      of_nat (length (rle_out (rle_encode buf)))]
                else [0x47, of_nat (length (rle_out (rle_encode buf))),
                      of_nat (length (rle_out (rle_encode buf)) div 256)])
               @ rle_out (rle_encode buf)"
  assume nz: "nonzero (rle_encode buf) \<noteq> 0"
    and r: "RLE_store_line realloc_ok job_options header buf g = Return g'"
  from nz have st: "stored_line job_options buf = ?line"
    by (simp add: stored_line_def line_prefix_def Let_def)
  from r obtain g1 where
    e: "ensure_rle_buf_space realloc_ok job_options header
          (4 + length buf + length buf div 128) g = Return g1"
    unfolding RLE_store_line_def Let_def
    by (cases "ensure_rle_buf_space realloc_ok job_options header
                 (4 + length buf + length buf div 128) g") simp_all
  have "RLE_store_line realloc_ok job_options header buf g
      = Return (if lines_waiting g1 + 1 \<ge> max_lines_waiting
      then flush_rle_buffer job_options header
             (g1\<lparr>rle_buffer := rle_buffer g1 @ ?line, lines_waiting := lines_waiting g1 + 1\<rparr>)
      else g1\<lparr>rle_buffer := rle_buffer g1 @ ?line, lines_waiting := lines_waiting g1 + 1\<rparr>)"
    by (simp add: RLE_store_line_def Let_def e st)
  with r have "g' = (if lines_waiting g1 + 1 \<ge> max_lines_waiting
      then flush_rle_buffer job_options header
             (g1\<lparr>rle_buffer := rle_buffer g1 @ ?line, lines_waiting := lines_waiting g1 + 1\<rparr>)
      else g1\<lparr>rle_buffer := rle_buffer g1 @ ?line, lines_waiting := lines_waiting g1 + 1\<rparr>)"
    by simp
  with e show "\<exists>g1. ensure_rle_buf_space realloc_ok job_options header
                (4 + length buf + length buf div 128) g = Return g1 \<and>
      g' = (if lines_waiting g1 + 1 \<ge> max_lines_waiting
            then flush_rle_buffer job_options header
                   (g1\<lparr>rle_buffer := rle_buffer g1 @ ?line,
                       lines_waiting := lines_waiting g1 + 1\<rparr>)
            else g1\<lparr>rle_buffer := rle_buffer g1 @ ?line,
                    lines_waiting := lines_waiting g1 + 1\<rparr>)"
    by blast
next
  let ?runs = "empty_line_runs (bytes_per_line job_options) xormask"
  let ?line = "(if ql_series job_options
           then [0x67, of_nat (length ?runs div 256), of_nat (length ?runs)]
           else [0x47, of_nat (length ?runs), of_nat (length ?runs div 256)]) @ ?runs"
  assume x: "xormask \<noteq> 0"
    and r: "RLE_store_empty_lines realloc_ok job_options header n xormask g = Return g'"
  from r x obtain g1 where "g' = g1\<lparr>rle_buffer := rle_buffer g1 @ concat (replicate n ?line)\<rparr>"
    by (auto simp add: RLE_store_empty_lines_def line_prefix_def Let_def split: result.splits)
  then have "rle_buffer g' = rle_buffer g1 @ concat (replicate n ?line)"
    by simp
  then show "\<exists>before. rle_buffer g' = before @ concat (replicate n ?line)" ..
qed

lemma empty_line_runs_90: "empty_line_runs 90 0xff = [0xa7, 0xff]"
  by (simp add: empty_line_runs.simps)

theorem line_prefix_ql_series_only_witness:
  "nonzero (rle_encode [1]) \<noteq> 0 \<and>
   RLE_store_line (\<lambda>_. True) default_job_options example_header [1] init_globals
     = Return (init_globals\<lparr>rle_buffer := [0x47, 2, 0, 0, 1], rle_alloced := 16384,
                            lines_waiting := 1\<rparr>) \<and>
   RLE_store_line (\<lambda>_. True) (default_job_options\<lparr>ql_series := True\<rparr>) example_header [1]
       init_globals
     = Return (init_globals\<lparr>rle_buffer := [0x67, 0, 2, 0, 1], rle_alloced := 16384,
                            lines_waiting := 1\<rparr>) \<and>
   (0xff :: byte) \<noteq> 0 \<and>
   RLE_store_empty_lines (\<lambda>_. True) default_job_options example_header 1 0xff init_globals
     = Return (init_globals\<lparr>rle_buffer := [0x47, 2, 0, 0xa7, 0xff], rle_alloced := 16384,
                            lines_waiting := 1\<rparr>) \<and>
   (\<exists>before. [0x47, 2, 0, 0xa7, 0xff] = before @ [0x47, 2, 0, 0xa7, 0xff :: byte])"
proof -
  have nz: "nonzero (rle_encode [1]) \<noteq> 0"
    by (simp add: rle_eval)
  have out: "rle_out (rle_encode [1]) = [0, 1]"
    by (simp add: rle_eval)
  have en: "ensure_rle_buf_space (\<lambda>_. True) j example_header (4 + length [1 :: byte]
              + length [1 :: byte] div 128) init_globals
            = Return (init_globals\<lparr>rle_alloced := 16384\<rparr>)" for j
    by (simp add: ensure_rle_buf_space_def init_globals_def Let_def)
  have ret: "\<exists>g'. RLE_store_line (\<lambda>_. True) j example_header [1] init_globals = Return g'" for j
    unfolding RLE_store_line_def Let_def en by simp
  have e: "RLE_store_empty_lines (\<lambda>_. True) default_job_options example_header 1 0xff
             init_globals
           = Return (init_globals\<lparr>rle_buffer := [0x47, 2, 0, 0xa7, 0xff], rle_alloced := 16384,
                                  lines_waiting := 1\<rparr>)"
    by (simp add: RLE_store_empty_lines_def ensure_rle_buf_space_def default_job_options_def
        init_globals_def line_prefix_def empty_line_runs_90 Let_def)
  have x: "(0xff :: byte) \<noteq> 0" by simp
  obtain ga where ga: "RLE_store_line (\<lambda>_. True) default_job_options example_header [1]
      init_globals = Return ga"
    using ret by blast
  obtain gb where gb: "RLE_store_line (\<lambda>_. True) (default_job_options\<lparr>ql_series := True\<rparr>)
      example_header [1] init_globals = Return gb"
    using ret by blast
  note t1 = line_prefix_ql_series_only [where buf = "[1]" and job_options = default_job_options,
      THEN conjunct1, rule_format, OF nz ga]
  note t2 = line_prefix_ql_series_only [where buf = "[1]"
      and job_options = "default_job_options\<lparr>ql_series := True\<rparr>",
      THEN conjunct1, rule_format, OF nz gb]
  note t3 = line_prefix_ql_series_only [where buf = "[1]" and job_options = default_job_options,
      THEN conjunct2, rule_format, OF x e]
  have s1: "ga = init_globals\<lparr>rle_buffer := [0x47, 2, 0, 0, 1], rle_alloced := 16384,
                              lines_waiting := 1\<rparr>"
    using t1 unfolding en
    by (simp add: out default_job_options_def init_globals_def max_lines_waiting_def)
  have s2: "gb = init_globals\<lparr>rle_buffer := [0x67, 0, 2, 0, 1], rle_alloced := 16384,
                              lines_waiting := 1\<rparr>"
    using t2 unfolding en
    by (simp add: out default_job_options_def init_globals_def max_lines_waiting_def)
  have s3: "\<exists>before. [0x47, 2, 0, 0xa7, 0xff] = before @ [0x47, 2, 0, 0xa7, 0xff :: byte]"
    using t3 by (simp add: init_globals_def default_job_options_def empty_line_runs_90)
  from nz ga gb s1 s2 x e s3 show ?thesis by blast
qed

section \<open>Buffer space\<close>

text \<open>
  Claim C8 says that \<^verbatim>\<open>ensure_rle_buf_space\<close> returns only when the buffer has room for
  \<open>bytes\<close> more bytes.  The function asks for \<open>rle_alloced * 2 + 0x4000\<close> bytes whatever the
  request is, and returns as soon as \<^verbatim>\<open>realloc\<close> succeeds, without looking at the request
  again.  On the empty buffer of a new job a request of 20000 bytes returns normally with
  16384 bytes allocated; \<^verbatim>\<open>RLE_store_empty_lines\<close>, called for 20000 empty lines (a first
  page of 20000 blank lines), then writes 20000 bytes into them.
\<close>

theorem ensure_rle_buf_space_returns_short:
  "ensure_rle_buf_space (\<lambda>_. True) job_options header 20000 init_globals
     = Return (init_globals\<lparr>rle_alloced := 16384\<rparr>) \<and>
   RLE_store_empty_lines (\<lambda>_. True) job_options header 20000 0 init_globals
     = Return (init_globals\<lparr>rle_buffer := replicate 20000 0x5a, rle_alloced := 16384,
                            lines_waiting := 20000\<rparr>)"
  by (simp add: ensure_rle_buf_space_def RLE_store_empty_lines_def init_globals_def Let_def)

text \<open>What does hold: a normal return that did not go through a successful \<^verbatim>\<open>realloc\<close>
  leaves room for the request, and the function exits exactly when no block was obtained
  and the request does not fit after the flush.\<close>

lemma ensure_rle_buf_space_no_realloc:
  assumes "ensure_rle_buf_space realloc_ok job_options header bytes g = Return g'"
    and "\<not> (rle_alloced g * 2 + 0x4000 \<le> 1000000 \<and> realloc_ok (rle_alloced g * 2 + 0x4000))"
  shows "length (rle_buffer g') + bytes \<le> rle_alloced g'"
  using assms
  by (auto simp add: ensure_rle_buf_space_def Let_def split: if_splits)

lemma ensure_rle_buf_space_Exit_iff:
  "(\<exists>g'. ensure_rle_buf_space realloc_ok job_options header bytes g = Exit g') \<longleftrightarrow>
     length (rle_buffer g) + bytes > rle_alloced g \<and>
     \<not> (rle_alloced g * 2 + 0x4000 \<le> 1000000 \<and> realloc_ok (rle_alloced g * 2 + 0x4000)) \<and>
     length (rle_buffer (flush_rle_buffer job_options header g)) + bytes
       > rle_alloced (flush_rle_buffer job_options header g)"
  by (auto simp add: ensure_rle_buf_space_def Let_def split: if_splits)

section \<open>The XOR mask in \<^verbatim>\<open>generate_emit_line\<close>\<close>

text \<open>
  Claim C4 says that every byte \<^verbatim>\<open>generate_emit_line\<close> writes is XORed with \<open>xormask\<close>.
  When mirroring with a nonzero shift, the byte written after the loop (the bits carried
  out of the last input byte) is \<^verbatim>\<open>box & 0xff\<close> without the mask, where the branch that
  does not mirror writes \<^verbatim>\<open>(mirror [box & 0xff]) ^ xormask\<close>.  For the one-byte input row
  \<open>0x00\<close>, two bytes per line, no padding, shift 1 and \<open>xormask = 0xff\<close> the mirrored line is
  \<open>0xff 0x00\<close>; without mirroring it is \<open>0xff 0xff\<close>.  The precondition
  \<open>buflen + right_padding_bytes + 1 \<le> bytes_per_line\<close> holds: \<open>1 + 0 + 1 \<le> 2\<close>.
\<close>

theorem generate_emit_line_mirror_shift_unmasked:
  "generate_emit_line [0x00] 1 2 0 1 True 0xff = (False, [0xff, 0x00]) \<and>
   generate_emit_line [0x00] 1 2 0 1 False 0xff = (False, [0xff, 0xff])"
  by (simp add: generate_emit_line_def peek_def mirror_def mirror_table_def Let_def)

section \<open>The empty-row token\<close>

lemma nonzero_rle_cap [simp]: "nonzero (rle_cap buf v) = nonzero v"
  by (simp add: rle_cap_def Let_def)

lemma nonzero_rle_same [simp]: "nonzero (rle_same buf v) = nonzero v"
  by (simp add: rle_same_def Let_def)

lemma nonzero_rle_differ [simp]: "nonzero (rle_differ buf x v) = nonzero v"
  by (simp add: rle_differ_def Let_def)

lemma nonzero_rle_body: "nonzero (rle_body buf v) = nonzero v OR peek buf (next_p v)"
  by (simp add: rle_body_def Let_def)

lemma nonzero_rle_final [simp]: "nonzero (rle_final buf v) = nonzero v"
  by (simp add: rle_final_def Let_def)

lemma all_from_Suc:
  "n < len \<Longrightarrow>
     (P n \<and> (\<forall>i. n + 1 \<le> i \<and> i < len \<longrightarrow> P i)) \<longleftrightarrow> (\<forall>i::nat. n \<le> i \<and> i < len \<longrightarrow> P i)"
  by (metis Suc_eq_plus1 Suc_leI le_neq_implies_less order_refl Suc_leD)

lemma nonzero_rle_loop:
  "nonzero (rle_loop buf v) = 0 \<longleftrightarrow>
     nonzero v = 0 \<and> (\<forall>i. next_p v \<le> i \<and> i < length buf \<longrightarrow> buf ! i = 0)"
proof (induction buf v rule: rle_loop.induct)
  case (1 buf v)
  show ?case
  proof (cases "next_p v < length buf")
    case True
    have "nonzero (rle_loop buf v) = 0 \<longleftrightarrow> nonzero (rle_loop buf (rle_body buf v)) = 0"
      using True by (subst rle_loop.simps) simp
    also have "\<dots> \<longleftrightarrow> nonzero (rle_body buf v) = 0 \<and>
         (\<forall>i. next_p v + 1 \<le> i \<and> i < length buf \<longrightarrow> buf ! i = 0)"
      using "1.IH" [OF True] by simp
    also have "\<dots> \<longleftrightarrow> nonzero v = 0 \<and> buf ! next_p v = 0 \<and>
         (\<forall>i. next_p v + 1 \<le> i \<and> i < length buf \<longrightarrow> buf ! i = 0)"
      using True by (simp add: nonzero_rle_body or_eq_0_iff peek_def)
    also have "\<dots> \<longleftrightarrow> nonzero v = 0 \<and>
         (\<forall>i. next_p v \<le> i \<and> i < length buf \<longrightarrow> buf ! i = 0)"
      using all_from_Suc [OF True, of "\<lambda>i. buf ! i = 0"] by simp
    finally show ?thesis .
  next
    case False
    then show ?thesis by (subst rle_loop.simps) auto
  qed
qed

lemma nonzero_rle_encode:
  "nonzero (rle_encode buf) = 0 \<longleftrightarrow> buf = replicate (length buf) 0"
  by (simp add: rle_encode_def nonzero_rle_loop rle_init_def list_eq_iff_nth_eq)

text \<open>
  Claim C5 says that under negative print a row whose input pixels are all set is never
  stored as the token \<^verbatim>\<open>Z\<close>.  It is: \<^verbatim>\<open>RLE_store_line\<close> tests the bytes of the line it
  is given, which are the bytes after the XOR, and a full-width row of set pixels is
  the zero line after the XOR with \<open>0xff\<close>.  With one byte per line, a page of negative
  print whose single row is \<open>0xff\<close> leaves the single byte \<^verbatim>\<open>Z\<close> in the buffer.
\<close>

theorem negative_all_set_row_stored_as_Z:
  "xormask_of (example_header\<lparr>NegativePrint := True\<rparr>) = 0xff \<and>
   emit_raster_lines (\<lambda>_. True) (default_job_options\<lparr>bytes_per_line := 1, page := 1\<rparr>)
      [[0xff]] (example_header\<lparr>NegativePrint := True\<rparr>) init_globals
     = Return (init_globals\<lparr>rle_buffer := [0x5a], rle_alloced := 16384, lines_waiting := 1\<rparr>)"
proof -
  let ?J = "default_job_options\<lparr>bytes_per_line := 1, page := 1\<rparr>"
  let ?H = "example_header\<lparr>NegativePrint := True\<rparr>"
  have x: "xormask_of ?H = 0xff"
    by (simp add: xormask_of_def)
  have geo: "geometry ?J ?H = \<lparr>g_buflen = 1, g_right_padding_bytes = 0, g_shift = 0,
      g_top_empty_lines = 0, g_bot_empty_lines = 0, g_top_skip = 0, g_bot_skip = 0\<rparr>"
    by code_simp
  have gen: "generate_emit_line [0xff] 1 1 0 0 False 0xff = (True, [0x00])"
    by (simp add: generate_emit_line_def peek_def mirror_def mirror_table_def Let_def)
  have st: "stored_line j [0x00] = [0x5a]" for j
    by (simp add: stored_line_def rle_eval)
  have store: "RLE_store_line (\<lambda>_. True) j h [0x00] init_globals
      = Return (init_globals\<lparr>rle_buffer := [0x5a], rle_alloced := 16384, lines_waiting := 1\<rparr>)"
    for j h
    by (simp add: RLE_store_line_def ensure_rle_buf_space_def st init_globals_def
        max_lines_waiting_def Let_def)
  have e0: "empty_lines init_globals = 0"
    by (simp add: init_globals_def)
  have e1: "init_globals\<lparr>empty_lines := 0\<rparr> = init_globals"
    by (simp add: init_globals_def)
  have line: "emit_raster_line (\<lambda>_. True) ?J ?H (geometry ?J ?H) 0 [0xff] init_globals
      = Return (init_globals\<lparr>rle_buffer := [0x5a], rle_alloced := 16384, lines_waiting := 1\<rparr>)"
    unfolding geo
    by (simp add: emit_raster_line_def xormask_of_def gen [simplified] store [simplified] e0
        default_job_options_def example_header_def Let_def)
  have "emit_raster_lines (\<lambda>_. True) ?J [[0xff]] ?H init_globals
      = Return (init_globals\<lparr>rle_buffer := [0x5a], rle_alloced := 16384, lines_waiting := 1\<rparr>)"
    unfolding emit_raster_lines_def Let_def geo
    using line [unfolded geo]
    by (simp add: e0 e1 example_header_def)
  with x show ?thesis by simp
qed

text \<open>
  Claim C5, amended.  \<^verbatim>\<open>RLE_store_line\<close> stores the single byte \<^verbatim>\<open>Z\<close> for a row exactly
  when every byte of the row it is given, the final row after the XOR, is zero: the
  shortcut is about the final row being the zero row, not about it being the background
  \<open>xormask\<close>.
\<close>

theorem stored_line_Z_iff_zero_row:
  "stored_line job_options buf = [0x5a] \<longleftrightarrow> buf = replicate (length buf) 0"
  by (simp add: stored_line_def line_prefix_def Let_def nonzero_rle_encode)

section \<open>Flushing and the line count of ESC i z\<close>

text \<open>What \<^verbatim>\<open>flush_rle_buffer\<close> does by itself: nothing when no line waits; otherwise,
  with \<open>label_preamble\<close> set and run-length transfer, one ESC i z command that carries
  \<open>lines_waiting\<close>, then the buffer as it is, and both the buffer and the counter are
  reset.\<close>

lemma flush_rle_buffer_no_lines:
  "lines_waiting g = 0 \<Longrightarrow> flush_rle_buffer job_options header g = g"
  by (simp add: flush_rle_buffer_def)

lemma flush_rle_buffer_RLE_preamble:
  assumes "lines_waiting g > 0" "label_preamble job_options" "pixel_xfer job_options = RLE"
  shows "flush_rle_buffer job_options header g =
     (emit_quality_rollfed_size job_options header (lines_waiting g) g)
       \<lparr>stdout := stdout (emit_quality_rollfed_size job_options header (lines_waiting g) g)
                    @ [(RasterData, rle_buffer g)],
        rle_buffer := [], lines_waiting := 0\<rparr>"
  using assms
  by (simp add: flush_rle_buffer_def emit_quality_rollfed_size_def putchars_def Let_def
      case_prod_unfold)

text \<open>
  Claim C3 says that the ESC i z command of a flush is followed, within the same flush,
  by exactly as many raster rows as its lines field announces.  That needs the buffer
  to hold exactly \<open>lines_waiting\<close> rows whenever \<^verbatim>\<open>flush_rle_buffer\<close> runs.
  \<^verbatim>\<open>RLE_store_line\<close> keeps it so (it increments the counter after storing the row), but
  \<^verbatim>\<open>RLE_store_empty_lines\<close> adds the new lines to \<open>lines_waiting\<close> before it calls
  \<^verbatim>\<open>ensure_rle_buf_space\<close>, which flushes when the buffer cannot grow.

  The state below is reached with one byte per line after 101580 stored rows \<open>0x01\<close>
  (five bytes each, 507900 bytes in a buffer grown to 507904 bytes, the last size below
  the limit of 1000000) followed by five blank rows.  Storing the five empty lines
  flushes: the ESC i z command announces 101585 lines (bytes \<open>d1 8c 01 00\<close>), 101580
  rows follow, the five \<^verbatim>\<open>Z\<close> rows are stored afterwards with \<open>lines_waiting\<close> reset to
  0, and a flush in that state writes nothing.
\<close>

theorem RLE_store_empty_lines_flush_miscounts:
  "RLE_store_empty_lines (\<lambda>_. True)
      (default_job_options\<lparr>bytes_per_line := 1, label_preamble := True, page := 1\<rparr>)
      example_header 5 0x00
      \<lparr>rle_buffer = concat (replicate 101580 [0x47, 0x02, 0x00, 0x00, 0x01]),
       rle_alloced = 507904, empty_lines = 5, lines_waiting = 101580, stdout = []\<rparr>
     = Return
      \<lparr>rle_buffer = replicate 5 0x5a,
       rle_alloced = 507904, empty_lines = 5, lines_waiting = 0,
       stdout = [(PrintInformation,
                   [0x1b, 0x69, 0x7a, 0x04, 0x00, 0x3e, 0x00, 0xd1, 0x8c, 0x01, 0x00, 0x00, 0x00]),
                 (RasterData, concat (replicate 101580 [0x47, 0x02, 0x00, 0x00, 0x01]))]\<rparr> \<and>
   flush_rle_buffer
      (default_job_options\<lparr>bytes_per_line := 1, label_preamble := True, page := 1\<rparr>)
      example_header
      \<lparr>rle_buffer = replicate 5 0x5a,
       rle_alloced = 507904, empty_lines = 5, lines_waiting = 0,
       stdout = [(PrintInformation,
                   [0x1b, 0x69, 0x7a, 0x04, 0x00, 0x3e, 0x00, 0xd1, 0x8c, 0x01, 0x00, 0x00, 0x00]),
                 (RasterData, concat (replicate 101580 [0x47, 0x02, 0x00, 0x00, 0x01]))]\<rparr>
     = \<lparr>rle_buffer = replicate 5 0x5a,
       rle_alloced = 507904, empty_lines = 5, lines_waiting = 0,
       stdout = [(PrintInformation,
                   [0x1b, 0x69, 0x7a, 0x04, 0x00, 0x3e, 0x00, 0xd1, 0x8c, 0x01, 0x00, 0x00, 0x00]),
                 (RasterData, concat (replicate 101580 [0x47, 0x02, 0x00, 0x00, 0x01]))]\<rparr>"
proof -
  define J where
    "J = default_job_options\<lparr>bytes_per_line := 1, label_preamble := True, page := 1\<rparr>"
  define buf where "buf = concat (replicate 101580 [0x47, 0x02, 0x00, 0x00, 0x01 :: byte])"
  have len: "length buf = 507900"
    by (simp add: buf_def length_concat sum_list_replicate)
  have sel: "label_preamble J" "pixel_xfer J = RLE" "bytes_per_line J = 1"
    by (simp_all add: J_def default_job_options_def)
  have info: "emit_quality_rollfed_size J example_header 101585 g
     = g\<lparr>stdout := stdout g @ [(PrintInformation,
         [0x1b, 0x69, 0x7a, 0x04, 0x00, 0x3e, 0x00, 0xd1, 0x8c, 0x01, 0x00, 0x00, 0x00])]\<rparr>" for g
    by (simp add: emit_quality_rollfed_size_def J_def default_job_options_def example_header_def
        ESC_def putchars_def Let_def)
  have "RLE_store_empty_lines (\<lambda>_. True) J example_header 5 0x00
      \<lparr>rle_buffer = buf, rle_alloced = 507904, empty_lines = 5, lines_waiting = 101580,
       stdout = []\<rparr>
     = Return
      \<lparr>rle_buffer = replicate 5 0x5a,
       rle_alloced = 507904, empty_lines = 5, lines_waiting = 0,
       stdout = [(PrintInformation,
                   [0x1b, 0x69, 0x7a, 0x04, 0x00, 0x3e, 0x00, 0xd1, 0x8c, 0x01, 0x00, 0x00, 0x00]),
                 (RasterData, buf)]\<rparr>"
    by (simp add: RLE_store_empty_lines_def ensure_rle_buf_space_def flush_rle_buffer_def
        len sel info putchars_def Let_def)
  moreover have "flush_rle_buffer J example_header
      \<lparr>rle_buffer = replicate 5 0x5a,
       rle_alloced = 507904, empty_lines = 5, lines_waiting = 0,
       stdout = [(PrintInformation,
                   [0x1b, 0x69, 0x7a, 0x04, 0x00, 0x3e, 0x00, 0xd1, 0x8c, 0x01, 0x00, 0x00, 0x00]),
                 (RasterData, buf)]\<rparr>
     = \<lparr>rle_buffer = replicate 5 0x5a,
       rle_alloced = 507904, empty_lines = 5, lines_waiting = 0,
       stdout = [(PrintInformation,
                   [0x1b, 0x69, 0x7a, 0x04, 0x00, 0x3e, 0x00, 0xd1, 0x8c, 0x01, 0x00, 0x00, 0x00]),
                 (RasterData, buf)]\<rparr>"
    by (simp add: flush_rle_buffer_def)
  ultimately show ?thesis
    unfolding J_def buf_def by (rule conjI)
qed

section \<open>The command sequence of a job\<close>

text \<open>How often a command occurs in the output.\<close>

definition count_cmd :: "command \<Rightarrow> out_stream \<Rightarrow> nat" where
  "count_cmd c out = length (filter (\<lambda>x. fst x = c) out)"

text \<open>The commands written while lines are stored and flushed.\<close>

definition data_cmd :: "command \<Rightarrow> bool" where
  "data_cmd c \<longleftrightarrow> c = PrintInformation \<or> c = RasterData \<or> c = RasterLine"

text \<open>\<open>appends g g'\<close>: the output of \<open>g'\<close> is the output of \<open>g\<close> followed by print
  information and raster data only.\<close>

definition appends :: "globals \<Rightarrow> globals \<Rightarrow> bool" where
  "appends g g' \<longleftrightarrow>
     (\<exists>out. stdout g' = stdout g @ out \<and> list_all (\<lambda>x. data_cmd (fst x)) out)"

fun res_state :: "globals result \<Rightarrow> globals" where
  "res_state (Return g) = g"
| "res_state (Exit g) = g"

lemma appends_refl [simp]: "appends g g"
  by (simp add: appends_def)

lemma appends_trans: "appends g g1 \<Longrightarrow> appends g1 g2 \<Longrightarrow> appends g g2"
  by (auto simp add: appends_def)

lemma appends_stdout_eq:
  "stdout g1 = stdout g \<Longrightarrow> stdout g1' = stdout g' \<Longrightarrow> appends g g' \<Longrightarrow> appends g1 g1'"
  by (simp add: appends_def)

lemma appends_putchars: "data_cmd c \<Longrightarrow> appends g (putchars c bs g)"
  by (simp add: appends_def putchars_def)

lemma emit_quality_rollfed_size_putchars:
  "\<exists>bs. emit_quality_rollfed_size job_options header n g = putchars PrintInformation bs g"
  unfolding emit_quality_rollfed_size_def Let_def case_prod_unfold
  by (rule exI) (rule refl)

lemma appends_emit_quality_rollfed_size:
  "appends g (emit_quality_rollfed_size job_options header n g)"
proof -
  obtain bs where "emit_quality_rollfed_size job_options header n g
      = putchars PrintInformation bs g"
    using emit_quality_rollfed_size_putchars by blast
  then show ?thesis
    by (simp add: appends_putchars data_cmd_def)
qed

lemma appends_expand_lines: "appends g (expand_lines xfer bpl p g)"
proof (induction xfer bpl p g rule: expand_lines.induct)
  case (1 xfer bpl g)
  show ?case by simp
next
  case (2 xfer bpl flag p g)
  obtain bytes p' where e: "expand_line xfer bpl flag p = (bytes, p')"
    by (cases "expand_line xfer bpl flag p")
  have "appends g (putchars (if xfer = ULP then RasterLine else RasterData) bytes g)"
    by (rule appends_putchars) (simp add: data_cmd_def)
  moreover have "appends (putchars (if xfer = ULP then RasterLine else RasterData) bytes g)
      (expand_lines xfer bpl p' (putchars (if xfer = ULP then RasterLine else RasterData) bytes g))"
    using "2.IH" [OF e [symmetric] refl] .
  ultimately show ?case
    using e by (simp add: appends_trans)
qed

lemma appends_flush_rle_buffer: "appends g (flush_rle_buffer job_options header g)"
proof -
  let ?g1 = "if label_preamble job_options
             then emit_quality_rollfed_size job_options header (lines_waiting g) g else g"
  have a: "appends g ?g1"
    by (simp add: appends_emit_quality_rollfed_size)
  have b: "appends ?g1 (putchars RasterData bs ?g1)" for bs
    by (rule appends_putchars) (simp add: data_cmd_def)
  have c: "appends ?g1 (expand_lines x (bytes_per_line job_options) bs ?g1)" for x bs
    by (rule appends_expand_lines)
  show ?thesis
  proof (cases "lines_waiting g > 0")
    case False
    then show ?thesis by (simp add: flush_rle_buffer_def)
  next
    case True
    show ?thesis
    proof (cases "pixel_xfer job_options")
      case RLE
      have "appends g (putchars RasterData (rle_buffer ?g1) ?g1)"
        using a b by (rule appends_trans)
      then show ?thesis
        using True RLE
        by (auto simp add: flush_rle_buffer_def Let_def elim!: appends_stdout_eq [rotated 2])
    next
      case ULP
      have "appends g (expand_lines ULP (bytes_per_line job_options) (rle_buffer ?g1) ?g1)"
        using a c by (rule appends_trans)
      then show ?thesis
        using True ULP
        by (auto simp add: flush_rle_buffer_def Let_def elim!: appends_stdout_eq [rotated 2])
    next
      case BIP
      have "appends g (expand_lines BIP (bytes_per_line job_options) (rle_buffer ?g1) ?g1)"
        using a c by (rule appends_trans)
      then show ?thesis
        using True BIP
        by (auto simp add: flush_rle_buffer_def Let_def elim!: appends_stdout_eq [rotated 2])
    qed
  qed
qed

lemma appends_ensure_rle_buf_space:
  "appends g (res_state (ensure_rle_buf_space realloc_ok job_options header bytes g))"
  using appends_flush_rle_buffer [of g job_options header]
  by (auto simp add: ensure_rle_buf_space_def Let_def appends_def)

lemma appends_RLE_store_line:
  "appends g (res_state (RLE_store_line realloc_ok job_options header buf g))"
proof (cases "ensure_rle_buf_space realloc_ok job_options header
                (4 + length buf + length buf div 128) g")
  case (Exit g')
  with appends_ensure_rle_buf_space [of g realloc_ok job_options header
      "4 + length buf + length buf div 128"]
  show ?thesis by (simp add: RLE_store_line_def Let_def)
next
  case (Return g1)
  with appends_ensure_rle_buf_space [of g realloc_ok job_options header
      "4 + length buf + length buf div 128"]
  have a: "appends g g1" by simp
  let ?g3 = "g1\<lparr>rle_buffer := rle_buffer g1 @ stored_line job_options buf,
                  lines_waiting := lines_waiting g1 + 1\<rparr>"
  have b: "appends g ?g3"
    using a by (rule appends_stdout_eq [rotated 2]) simp_all
  have "appends g (flush_rle_buffer job_options header ?g3)"
    using b appends_flush_rle_buffer by (rule appends_trans)
  with b Return show ?thesis
    by (simp add: RLE_store_line_def Let_def)
qed

lemma appends_RLE_store_empty_lines:
  "appends g (res_state (RLE_store_empty_lines realloc_ok job_options header n xormask g))"
proof -
  let ?g = "g\<lparr>lines_waiting := lines_waiting g + n\<rparr>"
  have "appends ?g (res_state (ensure_rle_buf_space realloc_ok job_options header b ?g))" for b
    by (rule appends_ensure_rle_buf_space)
  then have a: "appends g (res_state (ensure_rle_buf_space realloc_ok job_options header b ?g))"
    for b
    by (rule appends_stdout_eq [rotated 2]) simp_all
  show ?thesis
  proof (cases "xormask \<noteq> 0")
    case True
    with a [of "n * ((bytes_per_line job_options + 127) div 128)"] show ?thesis
      by (auto simp add: RLE_store_empty_lines_def Let_def split: result.splits
          elim!: appends_stdout_eq [rotated 2])
  next
    case False
    with a [of n] show ?thesis
      by (auto simp add: RLE_store_empty_lines_def Let_def split: result.splits
          elim!: appends_stdout_eq [rotated 2])
  qed
qed

lemma appends_emit_raster_line:
  "appends g (res_state (emit_raster_line realloc_ok job_options header geo y row g))"
proof (cases "y < g_top_skip geo \<or> y + g_bot_skip geo \<ge> cupsHeight header")
  case True
  then show ?thesis by (simp add: emit_raster_line_def Let_def)
next
  case False
  obtain ne elb where gen: "generate_emit_line row (g_buflen geo) (bytes_per_line job_options)
      (g_right_padding_bytes geo) (g_shift geo)
      (software_mirror job_options \<and> mirror_print job_options) (xormask_of header) = (ne, elb)"
    by (cases "generate_emit_line row (g_buflen geo) (bytes_per_line job_options)
      (g_right_padding_bytes geo) (g_shift geo)
      (software_mirror job_options \<and> mirror_print job_options) (xormask_of header)")
  show ?thesis
  proof (cases ne)
    case ne: False
    have "appends g (g\<lparr>empty_lines := empty_lines g + 1\<rparr>)"
      by (rule appends_stdout_eq [OF _ _ appends_refl]) simp_all
    with False gen ne show ?thesis
      by (simp add: emit_raster_line_def Let_def)
  next
    case ne: True
    let ?st = "\<lambda>g2. RLE_store_line realloc_ok job_options header
                 (take (bytes_per_line job_options) elb) g2"
    show ?thesis
    proof (cases "empty_lines g \<noteq> 0")
      case e: False
      with False gen ne appends_RLE_store_line [of g realloc_ok job_options header
          "take (bytes_per_line job_options) elb"]
      show ?thesis
        by (simp add: emit_raster_line_def Let_def)
    next
      case e: True
      show ?thesis
      proof (cases "RLE_store_empty_lines realloc_ok job_options header (empty_lines g)
                       (xormask_of header) g")
        case (Exit g')
        with False gen ne e appends_RLE_store_empty_lines [of g realloc_ok job_options header
            "empty_lines g" "xormask_of header"]
        show ?thesis
          by (simp add: emit_raster_line_def Let_def)
      next
        case (Return g1)
        with appends_RLE_store_empty_lines [of g realloc_ok job_options header
            "empty_lines g" "xormask_of header"]
        have "appends g g1" by simp
        then have "appends g (g1\<lparr>empty_lines := 0\<rparr>)"
          by (rule appends_stdout_eq [rotated 2]) simp_all
        then have "appends g (res_state (?st (g1\<lparr>empty_lines := 0\<rparr>)))"
          using appends_RLE_store_line by (rule appends_trans)
        with False gen ne e Return show ?thesis
          by (simp add: emit_raster_line_def Let_def)
      qed
    qed
  qed
qed

lemma appends_raster_loop:
  "appends g (res_state (raster_loop realloc_ok job_options header geo y rows g))"
proof (induction rows arbitrary: y g)
  case Nil
  show ?case by simp
next
  case (Cons row rows)
  show ?case
  proof (cases "emit_raster_line realloc_ok job_options header geo y row g")
    case (Exit g')
    with appends_emit_raster_line [of g realloc_ok job_options header geo y row]
    show ?thesis by simp
  next
    case (Return g1)
    with appends_emit_raster_line [of g realloc_ok job_options header geo y row]
    have "appends g g1" by simp
    then have "appends g (res_state (raster_loop realloc_ok job_options header geo (y + 1) rows g1))"
      using Cons.IH by (rule appends_trans)
    with Return show ?thesis by simp
  qed
qed

lemma appends_emit_raster_lines:
  "appends g (res_state (emit_raster_lines realloc_ok job_options rows header g))"
proof -
  let ?geo = "geometry job_options header"
  let ?g1 = "g\<lparr>empty_lines := empty_lines g + g_top_empty_lines ?geo\<rparr>"
  have "appends ?g1 (res_state (raster_loop realloc_ok job_options header ?geo 0 rows ?g1))"
    by (rule appends_raster_loop)
  then have a: "appends g (res_state (raster_loop realloc_ok job_options header ?geo 0 rows ?g1))"
    by (rule appends_stdout_eq [rotated 2]) simp_all
  show ?thesis
  proof (cases "raster_loop realloc_ok job_options header ?geo 0 rows ?g1")
    case (Exit g')
    with a show ?thesis by (simp add: emit_raster_lines_def Let_def)
  next
    case (Return g2)
    with a have b: "appends g g2" by simp
    then have "appends g (g2\<lparr>empty_lines := empty_lines g2 + g_bot_empty_lines ?geo\<rparr>)"
      by (rule appends_stdout_eq [rotated 2]) simp_all
    with b Return show ?thesis by (simp add: emit_raster_lines_def Let_def)
  qed
qed

text \<open>Storing the waiting empty lines and flushing, as done at the end of a page.\<close>

lemma appends_store_flush:
  assumes "RLE_store_empty_lines realloc_ok job_options header n xormask g = Return g3"
  shows "appends g (flush_rle_buffer job_options header (g3\<lparr>empty_lines := 0\<rparr>))"
proof -
  from assms appends_RLE_store_empty_lines [of g realloc_ok job_options header n xormask]
  have "appends g g3" by simp
  then have "appends g (g3\<lparr>empty_lines := 0\<rparr>)"
    by (rule appends_stdout_eq [rotated 2]) simp_all
  then show ?thesis
    using appends_flush_rle_buffer by (rule appends_trans)
qed

lemma count_cmd_append [simp]:
  "count_cmd c (xs @ ys) = count_cmd c xs + count_cmd c ys"
  by (simp add: count_cmd_def)

lemma count_cmd_putchars [simp]:
  "count_cmd c (stdout (putchars c' bs g)) = count_cmd c (stdout g) + (if c' = c then 1 else 0)"
  by (simp add: count_cmd_def putchars_def)

lemma count_cmd_data_only:
  "list_all (\<lambda>x. data_cmd (fst x)) out \<Longrightarrow> \<not> data_cmd c \<Longrightarrow> count_cmd c out = 0"
  by (induction out) (auto simp add: count_cmd_def)

lemma appends_count_cmd:
  "appends g g' \<Longrightarrow> \<not> data_cmd c \<Longrightarrow> count_cmd c (stdout g') = count_cmd c (stdout g)"
  by (auto simp add: appends_def count_cmd_data_only)

text \<open>The commands that may follow the commands of the first page: print information
  and raster data, form feeds and the eject command.\<close>

definition tail_cmd :: "command \<Rightarrow> bool" where
  "tail_cmd c \<longleftrightarrow> data_cmd c \<or> c = FormFeed \<or> c = Eject"

definition extends :: "globals \<Rightarrow> globals \<Rightarrow> bool" where
  "extends g g' \<longleftrightarrow>
     (\<exists>out. stdout g' = stdout g @ out \<and> list_all (\<lambda>x. tail_cmd (fst x)) out)"

lemma extends_refl [simp]: "extends g g"
  by (simp add: extends_def)

lemma extends_trans: "extends g g1 \<Longrightarrow> extends g1 g2 \<Longrightarrow> extends g g2"
  by (auto simp add: extends_def)

lemma appends_extends: "appends g g' \<Longrightarrow> extends g g'"
  by (auto simp add: appends_def extends_def tail_cmd_def list_all_iff)

lemma extends_putchars: "tail_cmd c \<Longrightarrow> extends g (putchars c bs g)"
  by (simp add: extends_def putchars_def)

text \<open>The shape of one iteration of the page loop: the job and page commands on the
  first page only, then print information and raster data, then the form feed (between
  pages that are not concatenated) or the eject command (after the last page).\<close>

definition page_start ::
  "job_options_t \<Rightarrow> nat \<Rightarrow> cups_page_header2_t \<Rightarrow> globals \<Rightarrow> globals" where
  "page_start job_options pageno header g =
     (if pageno = 1
      then emit_page_cmds (job_options\<lparr>page := pageno, last_page := False\<rparr>) header
             (emit_job_cmds (job_options\<lparr>page := pageno, last_page := False\<rparr>) g)
      else g)"

definition page_end_cmd :: "job_options_t \<Rightarrow> bool \<Rightarrow> globals \<Rightarrow> globals" where
  "page_end_cmd job_options has_next g =
     (if has_next then (if concat_pages job_options then g
                        else putchars FormFeed [PTC_FORMFEED] g)
      else putchars Eject [PTC_EJECT] g)"

lemma process_page_shape:
  assumes "process_page realloc_ok job_options pageno header rows has_next g = Return g'"
  shows "\<exists>gd. appends (page_start job_options pageno header g) gd \<and>
              stdout g' = stdout (page_end_cmd job_options has_next gd)"
proof -
  let ?J = "job_options\<lparr>page := pageno, last_page := False\<rparr>"
  let ?g1 = "page_start job_options pageno header g"
  let ?J' = "?J\<lparr>last_page := \<not> has_next\<rparr>"
  have g1: "(if page ?J = 1 then emit_page_cmds ?J header (emit_job_cmds ?J g) else g) = ?g1"
    by (simp add: page_start_def)
  from assms obtain g2 where r: "emit_raster_lines realloc_ok ?J rows header ?g1 = Return g2"
    unfolding process_page_def Let_def g1
    by (cases "emit_raster_lines realloc_ok ?J rows header ?g1") simp_all
  from appends_emit_raster_lines [of ?g1 realloc_ok ?J rows header] r
  have a2: "appends ?g1 g2" by simp
  show ?thesis
  proof (cases has_next)
    case hn: True
    show ?thesis
    proof (cases "concat_pages job_options")
      case True
      with assms r hn have "g' = g2"
        unfolding process_page_def Let_def g1 by simp
      with a2 hn True show ?thesis
        by (auto simp add: page_end_cmd_def)
    next
      case False
      with assms r hn obtain g3 where
        s: "RLE_store_empty_lines realloc_ok ?J' header (empty_lines g2) (xormask_of header) g2
              = Return g3"
        and g': "g' = putchars FormFeed [PTC_FORMFEED]
                   (flush_rle_buffer ?J' header (g3\<lparr>empty_lines := 0\<rparr>))"
        unfolding process_page_def Let_def g1
        by (cases "RLE_store_empty_lines realloc_ok ?J' header (empty_lines g2)
                     (xormask_of header) g2") simp_all
      have "appends ?g1 (flush_rle_buffer ?J' header (g3\<lparr>empty_lines := 0\<rparr>))"
        using a2 appends_store_flush [OF s] by (rule appends_trans)
      with g' hn False show ?thesis
        by (auto simp add: page_end_cmd_def)
    qed
  next
    case hn: False
    let ?n = "if \<not> concat_pages ?J' then empty_lines g2 else BBox1_px header"
    from assms r hn obtain g3 where
      s: "RLE_store_empty_lines realloc_ok ?J' header ?n (xormask_of header)
            (g2\<lparr>empty_lines := ?n\<rparr>) = Return g3"
      and g': "g' = putchars Eject [PTC_EJECT]
                 (flush_rle_buffer ?J' header (g3\<lparr>empty_lines := 0\<rparr>))"
      unfolding process_page_def Let_def g1
      by (cases "RLE_store_empty_lines realloc_ok ?J' header ?n (xormask_of header)
                   (g2\<lparr>empty_lines := ?n\<rparr>)") simp_all
    have "appends g2 (g2\<lparr>empty_lines := ?n\<rparr>)"
      by (rule appends_stdout_eq [OF _ _ appends_refl]) simp_all
    then have "appends g2 (flush_rle_buffer ?J' header (g3\<lparr>empty_lines := 0\<rparr>))"
      using appends_store_flush [OF s] by (rule appends_trans)
    with a2 have "appends ?g1 (flush_rle_buffer ?J' header (g3\<lparr>empty_lines := 0\<rparr>))"
      by (rule appends_trans)
    with g' hn show ?thesis
      by (auto simp add: page_end_cmd_def)
  qed
qed

text \<open>The commands of \<^verbatim>\<open>emit_page_cmds\<close>.\<close>

definition page_cmd :: "command \<Rightarrow> bool" where
  "page_cmd c \<longleftrightarrow> c = PrintDensity \<or> c = WidthResolution \<or> c = VariousMode \<or>
     c = AdvancedMode \<or> c = CutLabel \<or> c = Margin \<or> c = Compression \<or> c = BitImage"

definition emits :: "(command \<Rightarrow> bool) \<Rightarrow> globals \<Rightarrow> globals \<Rightarrow> bool" where
  "emits P g g' \<longleftrightarrow> (\<exists>out. stdout g' = stdout g @ out \<and> list_all (\<lambda>x. P (fst x)) out)"

lemma emits_refl: "emits P g g"
  by (simp add: emits_def)

lemma emits_putchars: "P c \<Longrightarrow> emits P g g1 \<Longrightarrow> emits P g (putchars c bs g1)"
  by (auto simp add: emits_def putchars_def)

lemma emits_if: "emits P g a \<Longrightarrow> emits P g b \<Longrightarrow> emits P g (if c then a else b)"
  by simp

lemma emits_count_cmd:
  "emits P g g' \<Longrightarrow> \<not> P c \<Longrightarrow> count_cmd c (stdout g') = count_cmd c (stdout g)"
  by (auto simp add: emits_def count_cmd_def list_all_iff filter_empty_conv)

lemma emits_emit_page_cmds: "emits page_cmd g (emit_page_cmds job_options header g)"
  unfolding emit_page_cmds_def Let_def
  by (intro emits_if emits_putchars emits_refl) (simp_all add: page_cmd_def)

lemma count_cmd_emit_page_cmds:
  "\<not> page_cmd c \<Longrightarrow>
     count_cmd c (stdout (emit_page_cmds job_options header g)) = count_cmd c (stdout g)"
  using emits_emit_page_cmds by (rule emits_count_cmd)

lemma count_cmd_emit_job_cmds:
  "c = Initialise \<or> tail_cmd c \<Longrightarrow>
     count_cmd c (stdout (emit_job_cmds job_options g))
       = count_cmd c (stdout g) + (if c = Initialise then 1 else 0)"
  by (auto simp add: emit_job_cmds_def Let_def tail_cmd_def data_cmd_def)

lemma stdout_emit_job_cmds:
  "\<exists>rest. stdout (emit_job_cmds job_options g)
     = stdout g @ (NulBytes, replicate 350 0x00) # (Initialise, [ESC, 0x40]) # rest"
  by (simp add: emit_job_cmds_def Let_def putchars_def)

lemma stdout_page_start_1:
  "\<exists>rest. stdout (page_start job_options 1 header g)
     = stdout g @ (NulBytes, replicate 350 0x00) # (Initialise, [ESC, 0x40]) # rest"
proof -
  let ?J = "job_options\<lparr>page := 1, last_page := False\<rparr>"
  obtain r1 where r1: "stdout (emit_job_cmds ?J g)
      = stdout g @ (NulBytes, replicate 350 0x00) # (Initialise, [ESC, 0x40]) # r1"
    using stdout_emit_job_cmds by blast
  obtain r2 where "stdout (emit_page_cmds ?J header (emit_job_cmds ?J g))
      = stdout (emit_job_cmds ?J g) @ r2"
    using emits_emit_page_cmds [of "emit_job_cmds ?J g" ?J header] by (auto simp add: emits_def)
  with r1 show ?thesis
    by (simp add: page_start_def)
qed

lemma count_cmd_page_start:
  "c = Initialise \<or> c = FormFeed \<or> c = Eject \<Longrightarrow>
     count_cmd c (stdout (page_start job_options pageno header g))
       = count_cmd c (stdout g) + (if pageno = 1 \<and> c = Initialise then 1 else 0)"
  by (auto simp add: page_start_def count_cmd_emit_page_cmds count_cmd_emit_job_cmds
      page_cmd_def tail_cmd_def)

lemma count_cmd_page_end_cmd:
  "count_cmd c (stdout (page_end_cmd job_options has_next g))
     = count_cmd c (stdout g)
       + (if has_next \<and> \<not> concat_pages job_options \<and> c = FormFeed then 1 else 0)
       + (if \<not> has_next \<and> c = Eject then 1 else 0)"
  by (simp add: page_end_cmd_def)

lemma process_page_counts:
  assumes "process_page realloc_ok job_options pageno header rows has_next g = Return g'"
    and "c = Initialise \<or> c = FormFeed \<or> c = Eject"
  shows "count_cmd c (stdout g')
      = count_cmd c (stdout g) + (if pageno = 1 \<and> c = Initialise then 1 else 0)
        + (if has_next \<and> \<not> concat_pages job_options \<and> c = FormFeed then 1 else 0)
        + (if \<not> has_next \<and> c = Eject then 1 else 0)"
proof -
  from process_page_shape [OF assms(1)] obtain gd where
    a: "appends (page_start job_options pageno header g) gd"
    and s: "stdout g' = stdout (page_end_cmd job_options has_next gd)"
    by blast
  have nd: "\<not> data_cmd c"
    using assms(2) by (auto simp add: data_cmd_def)
  show ?thesis
    unfolding s count_cmd_page_end_cmd appends_count_cmd [OF a nd]
      count_cmd_page_start [OF assms(2)]
    by simp
qed

lemma process_page_last:
  assumes "process_page realloc_ok job_options pageno header rows False g = Return g'"
  shows "last (stdout g') = (Eject, [PTC_EJECT])"
proof -
  from process_page_shape [OF assms] obtain gd where
    "stdout g' = stdout (page_end_cmd job_options False gd)"
    by blast
  then show ?thesis
    by (simp add: page_end_cmd_def putchars_def)
qed

lemma process_page_extends:
  assumes "process_page realloc_ok job_options pageno header rows has_next g = Return g'"
  shows "extends (page_start job_options pageno header g) g'"
proof -
  from process_page_shape [OF assms] obtain gd where
    a: "appends (page_start job_options pageno header g) gd"
    and s: "stdout g' = stdout (page_end_cmd job_options has_next gd)"
    by blast
  have "extends gd (page_end_cmd job_options has_next gd)"
    by (simp add: page_end_cmd_def extends_putchars tail_cmd_def)
  with appends_extends [OF a] have "extends (page_start job_options pageno header g)
      (page_end_cmd job_options has_next gd)"
    by (rule extends_trans)
  then show ?thesis
    using s by (simp add: extends_def)
qed

lemma process_pages_extends:
  "pageno > 1 \<Longrightarrow> process_pages realloc_ok job_options pageno pages g = Return g'
     \<Longrightarrow> extends g g'"
proof (induction pages arbitrary: pageno g)
  case Nil
  then show ?case by simp
next
  case (Cons pg pages)
  obtain header rows where pg: "pg = (header, rows)" by (cases pg)
  from Cons.prems(2) obtain g1 where
    p: "process_page realloc_ok job_options pageno header rows (pages \<noteq> []) g = Return g1"
    and r: "process_pages realloc_ok job_options (pageno + 1) pages g1 = Return g'"
    by (auto simp add: pg split: result.splits)
  from process_page_extends [OF p] Cons.prems(1) have "extends g g1"
    by (simp add: page_start_def)
  moreover have "extends g1 g'"
    using Cons.IH [OF _ r] Cons.prems(1) by simp
  ultimately show ?case by (rule extends_trans)
qed

lemma process_pages_counts:
  assumes "process_pages realloc_ok job_options pageno pages g = Return g'" and "pageno \<ge> 1"
  shows "count_cmd Initialise (stdout g')
           = count_cmd Initialise (stdout g) + (if pageno = 1 \<and> pages \<noteq> [] then 1 else 0) \<and>
         count_cmd FormFeed (stdout g')
           = count_cmd FormFeed (stdout g)
             + (if concat_pages job_options then 0 else length pages - 1) \<and>
         count_cmd Eject (stdout g')
           = count_cmd Eject (stdout g) + (if pages = [] then 0 else 1) \<and>
         (pages \<noteq> [] \<longrightarrow> last (stdout g') = (Eject, [PTC_EJECT]))"
  using assms
proof (induction pages arbitrary: pageno g)
  case Nil
  then show ?case by simp
next
  case (Cons pg pages)
  obtain header rows where pg: "pg = (header, rows)" by (cases pg)
  from Cons.prems(1) obtain g1 where
    p: "process_page realloc_ok job_options pageno header rows (pages \<noteq> []) g = Return g1"
    and r: "process_pages realloc_ok job_options (pageno + 1) pages g1 = Return g'"
    by (auto simp add: pg split: result.splits)
  have "pageno + 1 \<ge> 1" by simp
  note ih = Cons.IH [OF r this]
  note c1 = process_page_counts [OF p, of Initialise] process_page_counts [OF p, of FormFeed]
    process_page_counts [OF p, of Eject]
  show ?case
  proof (cases "pages = []")
    case True
    with r have "g' = g1" by simp
    with c1 True process_page_last [of realloc_ok job_options pageno header rows g g1] p
    show ?thesis by simp
  next
    case False
    with ih c1 Cons.prems(2) show ?thesis by (auto simp add: Suc_diff_le)
  qed
qed

text \<open>The output of the pages of a job, given what the lines of each page contribute:
  a form feed after every page but the last, unless the pages are concatenated, and the
  eject command after the last.\<close>

fun pages_out :: "bool \<Rightarrow> out_stream list \<Rightarrow> out_stream" where
  "pages_out c [] = []"
| "pages_out c [d] = d @ [(Eject, [0x1a])]"
| "pages_out c (d # d' # ds) =
     d @ (if c then [] else [(FormFeed, [0x0c])]) @ pages_out c (d' # ds)"

lemma pages_out_eq:
  "ds \<noteq> [] \<Longrightarrow>
   pages_out c ds
     = concat (map (\<lambda>d. d @ (if c then [] else [(FormFeed, [0x0c])])) (butlast ds))
       @ last ds @ [(Eject, [0x1a])]"
  by (induction c ds rule: pages_out.induct) simp_all

lemma process_pages_shape:
  assumes "process_pages realloc_ok job_options pageno pages g = Return g'"
    and "pageno \<ge> 1" and "pages \<noteq> []"
  shows "\<exists>ds. length ds = length pages \<and>
           (\<forall>d \<in> set ds. list_all (\<lambda>x. data_cmd (fst x)) d) \<and>
           stdout g' = stdout (page_start job_options pageno (fst (hd pages)) g)
                        @ pages_out (concat_pages job_options) ds"
  using assms
proof (induction pages arbitrary: pageno g)
  case Nil
  then show ?case by simp
next
  case (Cons pg pages)
  obtain header rows where pg: "pg = (header, rows)" by (cases pg)
  from Cons.prems(1) obtain g1 where
    p: "process_page realloc_ok job_options pageno header rows (pages \<noteq> []) g = Return g1"
    and r: "process_pages realloc_ok job_options (pageno + 1) pages g1 = Return g'"
    by (auto simp add: pg split: result.splits)
  from process_page_shape [OF p] obtain gd where
    a: "appends (page_start job_options pageno header g) gd"
    and s: "stdout g1 = stdout (page_end_cmd job_options (pages \<noteq> []) gd)"
    by blast
  from a obtain d where
    d: "stdout gd = stdout (page_start job_options pageno header g) @ d"
    "list_all (\<lambda>x. data_cmd (fst x)) d"
    by (auto simp add: appends_def)
  show ?case
  proof (cases "pages = []")
    case True
    with r have "g' = g1" by simp
    with s d True have "stdout g' = stdout (page_start job_options pageno header g)
        @ pages_out (concat_pages job_options) [d]"
      by (simp add: page_end_cmd_def putchars_def PTC_EJECT_def)
    with d(2) True show ?thesis
      by (intro exI [where x = "[d]"]) (simp add: pg)
  next
    case False
    have "pageno + 1 \<ge> 1" by simp
    from Cons.IH [OF r this False] obtain ds where
      ds: "length ds = length pages" "\<forall>d \<in> set ds. list_all (\<lambda>x. data_cmd (fst x)) d"
      "stdout g' = stdout (page_start job_options (pageno + 1) (fst (hd pages)) g1)
         @ pages_out (concat_pages job_options) ds"
      by blast
    from Cons.prems(2) have ps: "page_start job_options (pageno + 1) (fst (hd pages)) g1 = g1"
      by (simp add: page_start_def)
    from ds(1) False obtain d' ds' where dd: "ds = d' # ds'"
      by (cases ds) auto
    have "stdout g1 = stdout (page_start job_options pageno header g) @ d
        @ (if concat_pages job_options then [] else [(FormFeed, [0x0c])])"
      using s d(1) False by (simp add: page_end_cmd_def putchars_def PTC_FORMFEED_def)
    with ds(3) have "stdout g' = stdout (page_start job_options pageno header g)
        @ pages_out (concat_pages job_options) (d # ds)"
      unfolding ps dd by simp
    with ds(1,2) d(2) show ?thesis
      by (intro exI [where x = "d # ds"]) (simp add: pg)
  qed
qed

section \<open>A job of two pages\<close>

text \<open>
  Two pages of one blank line each, one byte per line, with the default options: the
  job used below to run the page loop.  The blank line of each page waits as an empty
  line until the page ends, is then stored as \<^verbatim>\<open>Z\<close> and flushed.
\<close>

definition blank_page :: "cups_page_header2_t \<times> byte list list" where
  "blank_page = (example_header, [[0x00]])"

definition one_byte_job :: job_options_t where
  "one_byte_job = default_job_options\<lparr>bytes_per_line := 1\<rparr>"

lemma one_byte_job_sel:
  "bytes_per_line (one_byte_job\<lparr>concat_pages := c, page := p, last_page := l\<rparr>) = 1"
  "software_mirror (one_byte_job\<lparr>concat_pages := c, page := p, last_page := l\<rparr>) = False"
  "label_preamble (one_byte_job\<lparr>concat_pages := c, page := p, last_page := l\<rparr>) = False"
  "pixel_xfer (one_byte_job\<lparr>concat_pages := c, page := p, last_page := l\<rparr>) = RLE"
  "concat_pages (one_byte_job\<lparr>concat_pages := c, page := p, last_page := l\<rparr>) = c"
  "page (one_byte_job\<lparr>concat_pages := c, page := p, last_page := l\<rparr>) = p"
  by (simp_all add: one_byte_job_def default_job_options_def)

lemma geometry_one_byte_job:
  "geometry (one_byte_job\<lparr>concat_pages := c, page := p, last_page := l\<rparr>) example_header
     = \<lparr>g_buflen = 1, g_right_padding_bytes = 0, g_shift = 0, g_top_empty_lines = 0,
        g_bot_empty_lines = 0, g_top_skip = 0, g_bot_skip = 0\<rparr>"
proof -
  have u: "u32 1 = 1" "s32 0 = 0" "c_div 0 8 = 0" "c_mod 0 8 = 0"
    by (simp_all add: u32_def s32_def c_div_def c_mod_def)
  show ?thesis
    unfolding geometry_def one_byte_job_def default_job_options_def example_header_def
    by (simp add: u Let_def)
qed

lemma blank_line_generate: "generate_emit_line [0x00] 1 1 0 0 False 0x00 = (False, [0x00])"
  by (simp add: generate_emit_line_def peek_def mirror_def mirror_table_def Let_def)

lemma blank_page_lines:
  "emit_raster_lines realloc_ok (one_byte_job\<lparr>concat_pages := c, page := p, last_page := l\<rparr>)
     [[0x00]] example_header g
   = Return (g\<lparr>empty_lines := empty_lines g + 1\<rparr>)"
proof -
  let ?J = "one_byte_job\<lparr>concat_pages := c, page := p, last_page := l\<rparr>"
  have x: "xormask_of example_header = 0"
    by (simp add: xormask_of_def example_header_def)
  have h: "cupsHeight example_header = 1"
    by (simp add: example_header_def)
  have line: "emit_raster_line realloc_ok ?J example_header
      \<lparr>g_buflen = 1, g_right_padding_bytes = 0, g_shift = 0, g_top_empty_lines = 0,
        g_bot_empty_lines = 0, g_top_skip = 0, g_bot_skip = 0\<rparr> 0 [0x00] g'
      = Return (g'\<lparr>empty_lines := empty_lines g' + 1\<rparr>)" for g'
    unfolding emit_raster_line_def Let_def one_byte_job_sel x h
    by (simp add: blank_line_generate [simplified])
  show ?thesis
    unfolding emit_raster_lines_def geometry_one_byte_job Let_def
    by (simp add: line [simplified] h)
qed

lemma blank_page_start:
  "stdout (page_start (one_byte_job\<lparr>concat_pages := c\<rparr>) 1 example_header init_globals)
     = [(NulBytes, replicate 350 0x00), (Initialise, [0x1b, 0x40]),
        (VariousMode, [0x1b, 0x69, 0x4d, 0x00]), (AdvancedMode, [0x1b, 0x69, 0x4b, 0x00]),
        (Margin, [0x1b, 0x69, 0x64, 0x00, 0x00]), (Compression, [0x4d, 0x02])]"
  by (simp add: page_start_def emit_job_cmds_def emit_page_cmds_def putchars_def
      one_byte_job_def default_job_options_def example_header_def init_globals_def ESC_def
      Let_def)

text \<open>The end of a page without concatenation: the empty lines that wait are stored and
  flushed, when the buffer (allocated or still to be allocated) is empty.\<close>

lemma store_flush_blank:
  assumes "rle_buffer g = []" "lines_waiting g = 0" "rle_alloced g = 0 \<or> rle_alloced g = 16384"
  shows "\<exists>g3. RLE_store_empty_lines (\<lambda>_. True)
              (one_byte_job\<lparr>concat_pages := c, page := p, last_page := l\<rparr>) example_header
              (Suc 0) 0 g = Return g3 \<and>
           flush_rle_buffer (one_byte_job\<lparr>concat_pages := c, page := p, last_page := l\<rparr>)
              example_header (g3\<lparr>empty_lines := 0\<rparr>)
           = g\<lparr>rle_alloced := 16384, empty_lines := 0,
                stdout := stdout g @ [(RasterData, [0x5a])]\<rparr>"
  using assms
  by (auto simp add: RLE_store_empty_lines_def ensure_rle_buf_space_def flush_rle_buffer_def
      one_byte_job_sel putchars_def Let_def)

text \<open>The end of a page, spelled out for the three cases of \<^verbatim>\<open>process_rasterdata\<close>.\<close>

lemma process_page_noconcat:
  assumes "\<not> concat_pages job_options"
    and "emit_raster_lines realloc_ok (job_options\<lparr>page := pageno, last_page := False\<rparr>) rows
           header (page_start job_options pageno header g) = Return g2"
    and "RLE_store_empty_lines realloc_ok (job_options\<lparr>page := pageno, last_page := \<not> has_next\<rparr>)
           header (empty_lines g2) (xormask_of header) g2 = Return g3"
  shows "process_page realloc_ok job_options pageno header rows has_next g
           = Return (putchars (if has_next then FormFeed else Eject)
                       [if has_next then PTC_FORMFEED else PTC_EJECT]
                       (flush_rle_buffer (job_options\<lparr>page := pageno, last_page := \<not> has_next\<rparr>)
                          header (g3\<lparr>empty_lines := 0\<rparr>)))"
proof -
  have g1: "(if page (job_options\<lparr>page := pageno, last_page := False\<rparr>) = 1
             then emit_page_cmds (job_options\<lparr>page := pageno, last_page := False\<rparr>) header
                    (emit_job_cmds (job_options\<lparr>page := pageno, last_page := False\<rparr>) g)
             else g) = page_start job_options pageno header g"
    by (simp add: page_start_def)
  show ?thesis
    unfolding process_page_def Let_def g1
    using assms by (cases has_next) simp_all
qed

lemma process_page_concat_next:
  assumes "concat_pages job_options"
    and "emit_raster_lines realloc_ok (job_options\<lparr>page := pageno, last_page := False\<rparr>) rows
           header (page_start job_options pageno header g) = Return g2"
  shows "process_page realloc_ok job_options pageno header rows True g = Return g2"
proof -
  have g1: "(if page (job_options\<lparr>page := pageno, last_page := False\<rparr>) = 1
             then emit_page_cmds (job_options\<lparr>page := pageno, last_page := False\<rparr>) header
                    (emit_job_cmds (job_options\<lparr>page := pageno, last_page := False\<rparr>) g)
             else g) = page_start job_options pageno header g"
    by (simp add: page_start_def)
  show ?thesis
    unfolding process_page_def Let_def g1
    using assms by simp
qed

lemma process_page_concat_last:
  assumes "concat_pages job_options"
    and "emit_raster_lines realloc_ok (job_options\<lparr>page := pageno, last_page := False\<rparr>) rows
           header (page_start job_options pageno header g) = Return g2"
    and "RLE_store_empty_lines realloc_ok (job_options\<lparr>page := pageno, last_page := True\<rparr>)
           header (BBox1_px header) (xormask_of header) (g2\<lparr>empty_lines := BBox1_px header\<rparr>)
           = Return g3"
  shows "process_page realloc_ok job_options pageno header rows False g
           = Return (putchars Eject [PTC_EJECT]
                       (flush_rle_buffer (job_options\<lparr>page := pageno, last_page := True\<rparr>)
                          header (g3\<lparr>empty_lines := 0\<rparr>)))"
proof -
  have g1: "(if page (job_options\<lparr>page := pageno, last_page := False\<rparr>) = 1
             then emit_page_cmds (job_options\<lparr>page := pageno, last_page := False\<rparr>) header
                    (emit_job_cmds (job_options\<lparr>page := pageno, last_page := False\<rparr>) g)
             else g) = page_start job_options pageno header g"
    by (simp add: page_start_def)
  show ?thesis
    unfolding process_page_def Let_def g1
    using assms by simp
qed

text \<open>\<^verbatim>\<open>emit_job_cmds\<close> and \<^verbatim>\<open>emit_page_cmds\<close> only write to standard output.\<close>

definition same_buffers :: "globals \<Rightarrow> globals \<Rightarrow> bool" where
  "same_buffers g g' \<longleftrightarrow>
     rle_buffer g' = rle_buffer g \<and> rle_alloced g' = rle_alloced g \<and>
     empty_lines g' = empty_lines g \<and> lines_waiting g' = lines_waiting g"

lemma same_buffers_refl: "same_buffers g g"
  by (simp add: same_buffers_def)

lemma same_buffers_putchars: "same_buffers g g1 \<Longrightarrow> same_buffers g (putchars c bs g1)"
  by (simp add: same_buffers_def putchars_def)

lemma same_buffers_if:
  "same_buffers g a \<Longrightarrow> same_buffers g b \<Longrightarrow> same_buffers g (if c then a else b)"
  by simp

lemma same_buffers_emit_job_cmds: "same_buffers g g1 \<Longrightarrow> same_buffers g (emit_job_cmds j g1)"
  unfolding emit_job_cmds_def Let_def
  by (intro same_buffers_if same_buffers_putchars)

lemma same_buffers_emit_page_cmds:
  "same_buffers g g1 \<Longrightarrow> same_buffers g (emit_page_cmds j h g1)"
  unfolding emit_page_cmds_def Let_def
  by (intro same_buffers_if same_buffers_putchars)

lemma same_buffers_page_start: "same_buffers g (page_start job_options pageno header g)"
  unfolding page_start_def
  by (intro same_buffers_if same_buffers_emit_page_cmds same_buffers_emit_job_cmds
      same_buffers_refl)

lemma page_start_fields:
  "rle_buffer (page_start job_options pageno header g) = rle_buffer g"
  "rle_alloced (page_start job_options pageno header g) = rle_alloced g"
  "empty_lines (page_start job_options pageno header g) = empty_lines g"
  "lines_waiting (page_start job_options pageno header g) = lines_waiting g"
  using same_buffers_page_start [of g job_options pageno header]
  by (simp_all add: same_buffers_def)

text \<open>One blank page of the job, from a state with nothing buffered.\<close>

lemma blank_page_process:
  assumes c: "concat_pages (one_byte_job\<lparr>concat_pages := False\<rparr>) = False"
    and g: "rle_buffer g = []" "lines_waiting g = 0" "empty_lines g = 0"
      "rle_alloced g = 0 \<or> rle_alloced g = 16384"
  shows "process_page (\<lambda>_. True) (one_byte_job\<lparr>concat_pages := False\<rparr>) p example_header
           [[0x00]] has_next g
         = Return ((page_start (one_byte_job\<lparr>concat_pages := False\<rparr>) p example_header g)
             \<lparr>rle_alloced := 16384,
              stdout := stdout (page_start (one_byte_job\<lparr>concat_pages := False\<rparr>) p
                                  example_header g)
                        @ [(RasterData, [0x5a]),
                           if has_next then (FormFeed, [0x0c]) else (Eject, [0x1a])]\<rparr>)"
proof -
  let ?J = "one_byte_job\<lparr>concat_pages := False\<rparr>"
  define g1 where "g1 = page_start ?J p example_header g"
  define g2 where "g2 = g1\<lparr>empty_lines := empty_lines g1 + 1\<rparr>"
  have f1: "rle_buffer g1 = []" "lines_waiting g1 = 0" "empty_lines g1 = 0"
      "rle_alloced g1 = rle_alloced g"
    by (simp_all add: g1_def page_start_fields g)
  have f2: "rle_buffer g2 = []" "lines_waiting g2 = 0" "empty_lines g2 = Suc 0"
      "rle_alloced g2 = 0 \<or> rle_alloced g2 = 16384"
    using g(4) by (simp_all add: g2_def f1)
  have nc: "\<not> concat_pages ?J"
    by (simp add: one_byte_job_def default_job_options_def)
  have l: "emit_raster_lines (\<lambda>_. True) (?J\<lparr>page := p, last_page := False\<rparr>) [[0x00]]
             example_header (page_start ?J p example_header g) = Return g2"
    unfolding g2_def g1_def by (rule blank_page_lines)
  have x: "xormask_of example_header = 0"
    by (simp add: xormask_of_def example_header_def)
  from store_flush_blank [OF f2(1,2,4), where c = False and p = p and l = "\<not> has_next"]
  obtain g3 where
    s: "RLE_store_empty_lines (\<lambda>_. True) (?J\<lparr>page := p, last_page := \<not> has_next\<rparr>)
          example_header (Suc 0) 0 g2 = Return g3"
    and fl: "flush_rle_buffer (?J\<lparr>page := p, last_page := \<not> has_next\<rparr>) example_header
          (g3\<lparr>empty_lines := 0\<rparr>)
        = g2\<lparr>rle_alloced := 16384, empty_lines := 0,
             stdout := stdout g2 @ [(RasterData, [0x5a])]\<rparr>"
    by blast
  have s': "RLE_store_empty_lines (\<lambda>_. True) (?J\<lparr>page := p, last_page := \<not> has_next\<rparr>)
          example_header (empty_lines g2) (xormask_of example_header) g2 = Return g3"
    using s by (simp add: f2 x)
  have "process_page (\<lambda>_. True) ?J p example_header [[0x00]] has_next g
      = Return (putchars (if has_next then FormFeed else Eject)
                  [if has_next then PTC_FORMFEED else PTC_EJECT]
                  (g2\<lparr>rle_alloced := 16384, empty_lines := 0,
                      stdout := stdout g2 @ [(RasterData, [0x5a])]\<rparr>))"
    using process_page_noconcat [OF nc l s'] unfolding fl .
  then show ?thesis
    unfolding g1_def [symmetric]
    by (simp add: putchars_def g2_def f1 PTC_FORMFEED_def PTC_EJECT_def)
qed

text \<open>A job of two pages, whatever the pages are.\<close>

lemma process_pages_two:
  assumes "process_page realloc_ok job_options n h1 rows1 True g = Return g1"
    and "process_page realloc_ok job_options (n + 1) h2 rows2 False g1 = Return g2"
  shows "process_pages realloc_ok job_options n [(h1, rows1), (h2, rows2)] g = Return g2"
  using assms by simp

lemma init_globals_fields:
  "rle_buffer init_globals = []" "lines_waiting init_globals = 0"
  "empty_lines init_globals = 0" "rle_alloced init_globals = 0"
  "stdout init_globals = []"
  by (simp_all add: init_globals_def)

lemma blank_page_start_state:
  "page_start (one_byte_job\<lparr>concat_pages := c\<rparr>) 1 example_header init_globals
     = \<lparr>rle_buffer = [], rle_alloced = 0, empty_lines = 0, lines_waiting = 0,
        stdout = [(NulBytes, replicate 350 0x00), (Initialise, [0x1b, 0x40]),
                  (VariousMode, [0x1b, 0x69, 0x4d, 0x00]),
                  (AdvancedMode, [0x1b, 0x69, 0x4b, 0x00]),
                  (Margin, [0x1b, 0x69, 0x64, 0x00, 0x00]), (Compression, [0x4d, 0x02])]\<rparr>"
proof (rule globals.equality)
  show "stdout (page_start (one_byte_job\<lparr>concat_pages := c\<rparr>) 1 example_header init_globals)
      = stdout \<lparr>rle_buffer = [], rle_alloced = 0, empty_lines = 0, lines_waiting = 0,
        stdout = [(NulBytes, replicate 350 0x00), (Initialise, [0x1b, 0x40]),
                  (VariousMode, [0x1b, 0x69, 0x4d, 0x00]),
                  (AdvancedMode, [0x1b, 0x69, 0x4b, 0x00]),
                  (Margin, [0x1b, 0x69, 0x64, 0x00, 0x00]), (Compression, [0x4d, 0x02])]\<rparr>"
    unfolding blank_page_start by simp
qed (simp_all add: page_start_fields init_globals_fields)

lemma page_start_later: "1 < p \<Longrightarrow> page_start job_options p header g = g"
  by (simp add: page_start_def)

text \<open>The job of two blank pages without \<open>concat_pages\<close>.\<close>

lemma two_blank_pages_output:
  "process_rasterdata (\<lambda>_. True) (one_byte_job\<lparr>concat_pages := False\<rparr>)
      [(example_header, [[0x00]]), (example_header, [[0x00]])]
   = Return \<lparr>rle_buffer = [], rle_alloced = 16384, empty_lines = 0, lines_waiting = 0,
       stdout = [(NulBytes, replicate 350 0x00), (Initialise, [0x1b, 0x40]),
                 (VariousMode, [0x1b, 0x69, 0x4d, 0x00]), (AdvancedMode, [0x1b, 0x69, 0x4b, 0x00]),
                 (Margin, [0x1b, 0x69, 0x64, 0x00, 0x00]), (Compression, [0x4d, 0x02]),
                 (RasterData, [0x5a]), (FormFeed, [0x0c]),
                 (RasterData, [0x5a]), (Eject, [0x1a])]\<rparr>"
proof -
  let ?J = "one_byte_job\<lparr>concat_pages := False\<rparr>"
  let ?S = "[(NulBytes, replicate 350 0x00), (Initialise, [0x1b, 0x40]),
             (VariousMode, [0x1b, 0x69, 0x4d, 0x00]), (AdvancedMode, [0x1b, 0x69, 0x4b, 0x00]),
             (Margin, [0x1b, 0x69, 0x64, 0x00, 0x00]), (Compression, [0x4d, 0x02 :: byte])]"
  define gA where "gA = \<lparr>rle_buffer = [], rle_alloced = 16384, empty_lines = 0,
      lines_waiting = 0, stdout = ?S @ [(RasterData, [0x5a]), (FormFeed, [0x0c])]\<rparr>"
  have c: "concat_pages ?J = False"
    by (simp add: one_byte_job_def default_job_options_def)
  have ra: "rle_alloced init_globals = 0 \<or> rle_alloced init_globals = 16384"
    by (simp add: init_globals_fields)
  have p1: "process_page (\<lambda>_. True) ?J 1 example_header [[0x00]] True init_globals = Return gA"
    unfolding blank_page_process [OF c init_globals_fields(1,2,3) ra] blank_page_start_state
      gA_def
    by simp
  have gA: "rle_buffer gA = []" "lines_waiting gA = 0" "empty_lines gA = 0"
      "rle_alloced gA = 0 \<or> rle_alloced gA = 16384"
    by (simp_all add: gA_def)
  have ps2: "page_start ?J (1 + 1) example_header gA = gA"
    by (rule page_start_later) simp
  have p2: "process_page (\<lambda>_. True) ?J (1 + 1) example_header [[0x00]] False gA
      = Return \<lparr>rle_buffer = [], rle_alloced = 16384, empty_lines = 0, lines_waiting = 0,
          stdout = ?S @ [(RasterData, [0x5a]), (FormFeed, [0x0c]),
                         (RasterData, [0x5a]), (Eject, [0x1a])]\<rparr>"
    unfolding blank_page_process [OF c gA] ps2
    by (simp add: gA_def)
  have "process_pages (\<lambda>_. True) ?J 1 [(example_header, [[0x00]]), (example_header, [[0x00]])]
          init_globals
      = Return \<lparr>rle_buffer = [], rle_alloced = 16384, empty_lines = 0, lines_waiting = 0,
          stdout = ?S @ [(RasterData, [0x5a]), (FormFeed, [0x0c]),
                         (RasterData, [0x5a]), (Eject, [0x1a])]\<rparr>"
    using p1 p2 by (rule process_pages_two)
  then show ?thesis
    unfolding process_rasterdata_def by simp
qed

text \<open>The same job with \<open>concat_pages\<close>: the pages are not separated, and the empty lines
  that wait at the end of the job are replaced by the bottom margin of the last page,
  which is empty here.\<close>

lemma two_blank_pages_concat_output:
  "process_rasterdata (\<lambda>_. True) (one_byte_job\<lparr>concat_pages := True\<rparr>)
      [(example_header, [[0x00]]), (example_header, [[0x00]])]
   = Return \<lparr>rle_buffer = [], rle_alloced = 0, empty_lines = 0, lines_waiting = 0,
       stdout = [(NulBytes, replicate 350 0x00), (Initialise, [0x1b, 0x40]),
                 (VariousMode, [0x1b, 0x69, 0x4d, 0x00]), (AdvancedMode, [0x1b, 0x69, 0x4b, 0x00]),
                 (Margin, [0x1b, 0x69, 0x64, 0x00, 0x00]), (Compression, [0x4d, 0x02]),
                 (Eject, [0x1a])]\<rparr>"
proof -
  let ?J = "one_byte_job\<lparr>concat_pages := True\<rparr>"
  let ?S = "[(NulBytes, replicate 350 0x00), (Initialise, [0x1b, 0x40]),
             (VariousMode, [0x1b, 0x69, 0x4d, 0x00]), (AdvancedMode, [0x1b, 0x69, 0x4b, 0x00]),
             (Margin, [0x1b, 0x69, 0x64, 0x00, 0x00]), (Compression, [0x4d, 0x02 :: byte])]"
  define gA where "gA = \<lparr>rle_buffer = [], rle_alloced = 0, empty_lines = 1,
      lines_waiting = 0, stdout = ?S\<rparr>"
  define gB where "gB = \<lparr>rle_buffer = [], rle_alloced = 0, empty_lines = 0,
      lines_waiting = 0, stdout = ?S\<rparr>"
  have c: "concat_pages ?J"
    by (simp add: one_byte_job_def default_job_options_def)
  have x: "xormask_of example_header = 0"
    by (simp add: xormask_of_def example_header_def)
  have b: "BBox1_px example_header = 0"
    by (simp add: example_header_def)
  have l1: "emit_raster_lines (\<lambda>_. True) (?J\<lparr>page := 1, last_page := False\<rparr>) [[0x00]]
      example_header (page_start ?J 1 example_header init_globals) = Return gA"
    unfolding blank_page_lines blank_page_start_state gA_def by simp
  have p1: "process_page (\<lambda>_. True) ?J 1 example_header [[0x00]] True init_globals = Return gA"
    using c l1 by (rule process_page_concat_next)
  have ps2: "page_start ?J (1 + 1) example_header gA = gA"
    by (rule page_start_later) simp
  have l2: "emit_raster_lines (\<lambda>_. True) (?J\<lparr>page := 1 + 1, last_page := False\<rparr>) [[0x00]]
      example_header (page_start ?J (1 + 1) example_header gA)
      = Return (gA\<lparr>empty_lines := empty_lines gA + 1\<rparr>)"
    unfolding blank_page_lines ps2 by simp
  have s: "RLE_store_empty_lines (\<lambda>_. True) (?J\<lparr>page := 1 + 1, last_page := True\<rparr>)
      example_header (BBox1_px example_header) (xormask_of example_header)
      (gA\<lparr>empty_lines := empty_lines gA + 1, empty_lines := BBox1_px example_header\<rparr>)
      = Return gB"
    unfolding x b
    by (simp add: RLE_store_empty_lines_def ensure_rle_buf_space_def gA_def gB_def Let_def)
  have f: "flush_rle_buffer j example_header (gB\<lparr>empty_lines := 0\<rparr>) = gB" for j
    by (simp add: flush_rle_buffer_def gB_def)
  have p2: "process_page (\<lambda>_. True) ?J (1 + 1) example_header [[0x00]] False gA
      = Return (putchars Eject [PTC_EJECT] gB)"
    using process_page_concat_last [OF c l2 s] unfolding f .
  have "process_pages (\<lambda>_. True) ?J 1 [(example_header, [[0x00]]), (example_header, [[0x00]])]
          init_globals
      = Return (putchars Eject [PTC_EJECT] gB)"
    using p1 p2 by (rule process_pages_two)
  then show ?thesis
    unfolding process_rasterdata_def
    by (simp add: putchars_def gB_def PTC_EJECT_def)
qed
section \<open>The page-open commands and the command counts of a job\<close>

text \<open>
  Claim C6 says that the page-open command group is emitted for every page of a job, not
  just for the first.  The source emits it inside \<^verbatim>\<open>if (job_options->page == 1)\<close>,
  together with the job commands.  In the job of two blank pages the raster data of the
  second page (the token \<^verbatim>\<open>Z\<close>) follows the form feed of the first page directly: ESC i M,
  ESC i K, ESC i d and M 0x02 stand once, before the first page.
\<close>

theorem second_page_without_page_cmds:
  "process_rasterdata (\<lambda>_. True) (one_byte_job\<lparr>concat_pages := False\<rparr>)
      [blank_page, blank_page]
   = Return \<lparr>rle_buffer = [], rle_alloced = 16384, empty_lines = 0, lines_waiting = 0,
       stdout = [(NulBytes, replicate 350 0x00), (Initialise, [0x1b, 0x40]),
                 (VariousMode, [0x1b, 0x69, 0x4d, 0x00]), (AdvancedMode, [0x1b, 0x69, 0x4b, 0x00]),
                 (Margin, [0x1b, 0x69, 0x64, 0x00, 0x00]), (Compression, [0x4d, 0x02]),
                 (RasterData, [0x5a]), (FormFeed, [0x0c]),
                 (RasterData, [0x5a]), (Eject, [0x1a])]\<rparr>"
  unfolding blank_page_def by (rule two_blank_pages_output)

text \<open>
  Claim C6, amended: the page-open command group (ESC i D when the density is in 1..5,
  ESC i c, ESC i M, ESC i K, ESC i A, ESC i d, and M 0x02 or the bit image header
  according to the transfer mode) is emitted once per job, directly after the job
  commands and before the raster data of the first page; everything after it, for the
  first and for every later page, is print information, raster data, form feeds and the
  final eject command.
\<close>

theorem page_cmds_first_page_only:
  assumes "process_rasterdata realloc_ok job_options ((header, rows) # pages) = Return g"
  shows "\<exists>rest. stdout g
           = stdout (emit_page_cmds (job_options\<lparr>page := 1, last_page := False\<rparr>) header
                       (emit_job_cmds (job_options\<lparr>page := 1, last_page := False\<rparr>)
                          init_globals)) @ rest \<and>
         list_all (\<lambda>x. fst x \<in> {PrintInformation, RasterData, RasterLine, FormFeed, Eject}) rest"
proof -
  from assms obtain g1 where
    p: "process_page realloc_ok job_options 1 header rows (pages \<noteq> []) init_globals = Return g1"
    and r: "process_pages realloc_ok job_options (1 + 1) pages g1 = Return g"
    by (auto simp add: process_rasterdata_def split: result.splits)
  have "extends g1 g"
    using process_pages_extends [OF _ r] by simp
  with process_page_extends [OF p] have "extends (page_start job_options 1 header init_globals) g"
    by (rule extends_trans)
  then show ?thesis
    by (auto simp add: extends_def page_start_def tail_cmd_def data_cmd_def list_all_iff)
qed

theorem page_cmds_first_page_only_witness:
  "\<exists>g rest.
     process_rasterdata (\<lambda>_. True) (one_byte_job\<lparr>concat_pages := False\<rparr>)
       [(example_header, [[0x00]]), (example_header, [[0x00]])] = Return g \<and>
     stdout g
       = stdout (emit_page_cmds
                   (one_byte_job\<lparr>concat_pages := False, page := 1, last_page := False\<rparr>)
                   example_header
                   (emit_job_cmds
                      (one_byte_job\<lparr>concat_pages := False, page := 1, last_page := False\<rparr>)
                      init_globals)) @ rest \<and>
     list_all (\<lambda>x. fst x \<in> {PrintInformation, RasterData, RasterLine, FormFeed, Eject}) rest"
  using page_cmds_first_page_only [OF two_blank_pages_output] two_blank_pages_output
  by blast

text \<open>
  Claim C7 says that every job has ESC @ once, the eject byte once and last, and
  \<open>pages - 1\<close> form feeds.  With \<open>concat_pages\<close> the source writes no form feed between
  pages (the test \<^verbatim>\<open>if (!job_options->concat_pages)\<close> around the page end): the job of
  two blank pages with \<open>concat_pages\<close> has no form feed, where \<open>pages - 1\<close> is one.
\<close>

theorem concat_pages_job_without_form_feed:
  "process_rasterdata (\<lambda>_. True) (one_byte_job\<lparr>concat_pages := True\<rparr>)
      [blank_page, blank_page]
   = Return \<lparr>rle_buffer = [], rle_alloced = 0, empty_lines = 0, lines_waiting = 0,
       stdout = [(NulBytes, replicate 350 0x00), (Initialise, [0x1b, 0x40]),
                 (VariousMode, [0x1b, 0x69, 0x4d, 0x00]), (AdvancedMode, [0x1b, 0x69, 0x4b, 0x00]),
                 (Margin, [0x1b, 0x69, 0x64, 0x00, 0x00]), (Compression, [0x4d, 0x02]),
                 (Eject, [0x1a])]\<rparr> \<and>
   count_cmd FormFeed
     (stdout (res_state (process_rasterdata (\<lambda>_. True) (one_byte_job\<lparr>concat_pages := True\<rparr>)
        [blank_page, blank_page]))) = 0 \<and>
   length [blank_page, blank_page] - 1 = 1"
  unfolding blank_page_def two_blank_pages_concat_output
  by (simp add: count_cmd_def)

text \<open>
  Claim C7, amended: in the output of every job of at least one page that is not ended
  by \<^verbatim>\<open>exit\<close> in \<^verbatim>\<open>ensure_rle_buf_space\<close>, the first two commands are the 350 zero bytes
  and ESC @, which occurs once; the eject command occurs once and is the last command;
  and the form feed command occurs \<open>pages - 1\<close> times when \<open>concat_pages\<close> is off and
  never when it is on.  The output is the job and page commands of the first page,
  followed for each page by the print information and raster data of the page and, when
  \<open>concat_pages\<close> is off, after each page but the last by the form feed byte \<open>0x0c\<close>,
  and after the last page by the eject byte \<open>0x1a\<close>.
\<close>

theorem job_command_counts:
  assumes "process_rasterdata realloc_ok job_options pages = Return g" and "pages \<noteq> []"
  shows "take 2 (stdout g) = [(NulBytes, replicate 350 0x00), (Initialise, [ESC, 0x40])] \<and>
         count_cmd Initialise (stdout g) = 1 \<and>
         count_cmd Eject (stdout g) = 1 \<and>
         last (stdout g) = (Eject, [PTC_EJECT]) \<and>
         count_cmd FormFeed (stdout g)
           = (if concat_pages job_options then 0 else length pages - 1) \<and>
         (\<exists>datas. length datas = length pages \<and>
            (\<forall>d \<in> set datas.
               list_all (\<lambda>x. fst x \<in> {PrintInformation, RasterData, RasterLine}) d) \<and>
            stdout g
              = stdout (emit_page_cmds (job_options\<lparr>page := 1, last_page := False\<rparr>)
                          (fst (hd pages))
                          (emit_job_cmds (job_options\<lparr>page := 1, last_page := False\<rparr>)
                             init_globals))
                @ concat (map (\<lambda>d. d @ (if concat_pages job_options then []
                                           else [(FormFeed, [0x0c])]))
                            (butlast datas))
                @ last datas @ [(Eject, [0x1a])])"
proof -
  from assms(1) have r: "process_pages realloc_ok job_options 1 pages init_globals = Return g"
    by (simp add: process_rasterdata_def)
  from assms(2) obtain header rows rest where pages: "pages = (header, rows) # rest"
    by (cases pages) auto
  from r obtain g1 where
    p: "process_page realloc_ok job_options 1 header rows (rest \<noteq> []) init_globals = Return g1"
    and r2: "process_pages realloc_ok job_options (1 + 1) rest g1 = Return g"
    by (auto simp add: pages split: result.splits)
  have "extends g1 g"
    using process_pages_extends [OF _ r2] by simp
  with process_page_extends [OF p] have "extends (page_start job_options 1 header init_globals) g"
    by (rule extends_trans)
  then obtain out where "stdout g = stdout (page_start job_options 1 header init_globals) @ out"
    by (auto simp add: extends_def)
  moreover obtain r1 where "stdout (page_start job_options 1 header init_globals)
      = stdout init_globals @ (NulBytes, replicate 350 0x00) # (Initialise, [ESC, 0x40]) # r1"
    using stdout_page_start_1 by blast
  ultimately have t: "take 2 (stdout g)
      = [(NulBytes, replicate 350 0x00), (Initialise, [ESC, 0x40])]"
    by (simp add: init_globals_def)
  have z: "count_cmd c (stdout init_globals) = 0" for c
    by (simp add: init_globals_def count_cmd_def)
  have one: "(1 :: nat) \<ge> 1"
    by simp
  from process_pages_shape [OF r one assms(2)] obtain ds where
    ds: "length ds = length pages" "\<forall>d \<in> set ds. list_all (\<lambda>x. data_cmd (fst x)) d"
    "stdout g = stdout (page_start job_options 1 (fst (hd pages)) init_globals)
       @ pages_out (concat_pages job_options) ds"
    by blast
  from ds(1) assms(2) have ne: "ds \<noteq> []"
    by auto
  have dc: "data_cmd (fst x) \<longleftrightarrow> fst x \<in> {PrintInformation, RasterData, RasterLine}"
    for x :: "command \<times> byte list"
    by (auto simp add: data_cmd_def)
  have sh: "\<exists>datas. length datas = length pages \<and>
      (\<forall>d \<in> set datas.
         list_all (\<lambda>x. fst x \<in> {PrintInformation, RasterData, RasterLine}) d) \<and>
      stdout g
        = stdout (emit_page_cmds (job_options\<lparr>page := 1, last_page := False\<rparr>)
                    (fst (hd pages))
                    (emit_job_cmds (job_options\<lparr>page := 1, last_page := False\<rparr>)
                       init_globals))
          @ concat (map (\<lambda>d. d @ (if concat_pages job_options then []
                                     else [(FormFeed, [0x0c])]))
                      (butlast datas))
          @ last datas @ [(Eject, [0x1a])]"
    using ds unfolding pages_out_eq [OF ne] dc
    by (intro exI [where x = ds]) (simp add: page_start_def)
  from process_pages_counts [OF r] assms(2) t have
    "take 2 (stdout g) = [(NulBytes, replicate 350 0x00), (Initialise, [ESC, 0x40])] \<and>
     count_cmd Initialise (stdout g) = 1 \<and>
     count_cmd Eject (stdout g) = 1 \<and>
     last (stdout g) = (Eject, [PTC_EJECT]) \<and>
     count_cmd FormFeed (stdout g)
       = (if concat_pages job_options then 0 else length pages - 1)"
    by (simp add: z)
  with sh show ?thesis
    by blast
qed

theorem job_command_counts_witness:
  "\<exists>g. process_rasterdata (\<lambda>_. True) (one_byte_job\<lparr>concat_pages := False\<rparr>)
         [(example_header, [[0x00]]), (example_header, [[0x00]])] = Return g \<and>
       take 2 (stdout g) = [(NulBytes, replicate 350 0x00), (Initialise, [ESC, 0x40])] \<and>
       count_cmd Initialise (stdout g) = 1 \<and>
       count_cmd Eject (stdout g) = 1 \<and>
       last (stdout g) = (Eject, [PTC_EJECT]) \<and>
       count_cmd FormFeed (stdout g) = 1 \<and>
       (\<exists>datas. length datas = 2 \<and>
          (\<forall>d \<in> set datas.
             list_all (\<lambda>x. fst x \<in> {PrintInformation, RasterData, RasterLine}) d) \<and>
          stdout g
            = stdout (emit_page_cmds
                        (one_byte_job\<lparr>concat_pages := False, page := 1, last_page := False\<rparr>)
                        example_header
                        (emit_job_cmds
                           (one_byte_job\<lparr>concat_pages := False, page := 1, last_page := False\<rparr>)
                           init_globals))
              @ concat (map (\<lambda>d. d @ [(FormFeed, [0x0c])]) (butlast datas))
              @ last datas @ [(Eject, [0x1a])])"
proof -
  define g where "g = res_state (process_rasterdata (\<lambda>_. True)
      (one_byte_job\<lparr>concat_pages := False\<rparr>)
      [(example_header, [[0x00]]), (example_header, [[0x00]])])"
  have r: "process_rasterdata (\<lambda>_. True) (one_byte_job\<lparr>concat_pages := False\<rparr>)
      [(example_header, [[0x00]]), (example_header, [[0x00]])] = Return g"
    by (simp add: g_def two_blank_pages_output)
  have c: "concat_pages (one_byte_job\<lparr>concat_pages := False\<rparr>) = False"
    by (simp add: one_byte_job_def default_job_options_def)
  have n: "[(example_header, [[0x00 :: byte]]), (example_header, [[0x00]])] \<noteq> []"
    by simp
  have "take 2 (stdout g) = [(NulBytes, replicate 350 0x00), (Initialise, [ESC, 0x40])] \<and>
       count_cmd Initialise (stdout g) = 1 \<and>
       count_cmd Eject (stdout g) = 1 \<and>
       last (stdout g) = (Eject, [PTC_EJECT]) \<and>
       count_cmd FormFeed (stdout g) = 1 \<and>
       (\<exists>datas. length datas = 2 \<and>
          (\<forall>d \<in> set datas.
             list_all (\<lambda>x. fst x \<in> {PrintInformation, RasterData, RasterLine}) d) \<and>
          stdout g
            = stdout (emit_page_cmds
                        (one_byte_job\<lparr>concat_pages := False, page := 1, last_page := False\<rparr>)
                        example_header
                        (emit_job_cmds
                           (one_byte_job\<lparr>concat_pages := False, page := 1, last_page := False\<rparr>)
                           init_globals))
              @ concat (map (\<lambda>d. d @ [(FormFeed, [0x0c])]) (butlast datas))
              @ last datas @ [(Eject, [0x1a])])"
    using job_command_counts [OF r n] unfolding c by (simp add: numeral_2_eq_2)
  with r show ?thesis by blast
qed

section \<open>The decoder \<^verbatim>\<open>ptexplain\<close>\<close>

text \<open>
  The decoder reads the printer byte stream from standard input and prints one line for
  each command it recognises.  The model keeps the part of the input not yet read, the
  command stack \<^verbatim>\<open>command.data [0 .. command.len)\<close> and what has been printed so far, as
  a list of events: a message of \<^verbatim>\<open>print_message\<close>, a command printed by
  \<^verbatim>\<open>print_command\<close> with the bytes that were on the command stack, a call of
  \<^verbatim>\<open>mark_error\<close>, and the row \<^verbatim>\<open>explain_raster_line\<close> has read (the bytes of its body on
  the command stack, and the row it hands to \<^verbatim>\<open>add_row\<close>).  The texts of the messages and
  their colours are not modelled; neither are the options: \<^verbatim>\<open>--silent\<close> counts the raster
  commands instead of printing them, \<^verbatim>\<open>--verbose\<close> also prints the bytes of a row, and
  \<^verbatim>\<open>--write\<close> collects the rows in an image.  None of them changes what is read or when
  the command stack is emptied.
\<close>

datatype message =
  Command_stack_overflow | More_data_expected | Unknown_command
  | Initialize_command_missing | Compression_mode_not_specified
  | End_of_job_command_missing

datatype explanation =
  Reset_n nat | Initialize | Switch_notification | Status_request | Switch_mode
  | Switch_unknown_mode | Print_information_command | Various_mode_settings
  | Advanced_mode_settings | Specify_margin nat | Undocumented_command | Cut_every int
  | Legacy_hires | Select_compression | Raster_transfer nat | Zero_raster | Print_command
  | End_of_job

datatype event =
  Message message
  | Command "byte list" explanation
  | Mark_error nat nat
  | Raster_row "byte list" "byte list"

datatype compression_mode = UNSPECIFIED | UNCOMPRESSED | TIFF

record decoder =
  stdin :: "byte list"
  command_data :: "byte list"
  printed :: "event list"

text \<open>A function of the decoder either ends the program with \<^verbatim>\<open>exit (1)\<close> or returns.\<close>

datatype 'a outcome = Exit_1 decoder | Got 'a decoder

definition COMMAND_STACK_SIZE :: nat where "COMMAND_STACK_SIZE = 128"

definition EOF :: int where "EOF = - 1"

definition CTRL_Z :: byte where "CTRL_Z = 0x1a"

definition print_message :: "message \<Rightarrow> decoder \<Rightarrow> decoder" where
  "print_message m d = d\<lparr>printed := printed d @ [Message m]\<rparr>"

definition push :: "int \<Rightarrow> decoder \<Rightarrow> unit outcome" where
  "push c d =
     (if length (command_data d) \<ge> COMMAND_STACK_SIZE
      then Exit_1 (print_message Command_stack_overflow d)
      else Got () (d\<lparr>command_data := command_data d @ [of_int c]\<rparr>))"

definition reset_command :: "decoder \<Rightarrow> decoder" where
  "reset_command d = d\<lparr>command_data := []\<rparr>"

text \<open>\<^verbatim>\<open>vprint_command\<close> prints nothing when the command stack is empty.\<close>

definition print_command :: "explanation \<Rightarrow> decoder \<Rightarrow> decoder" where
  "print_command x d =
     (if command_data d = [] then d
      else d\<lparr>printed := printed d @ [Command (command_data d) x], command_data := []\<rparr>)"

definition print_noisy_command :: "explanation \<Rightarrow> decoder \<Rightarrow> decoder" where
  "print_noisy_command x d = print_command x d"

text \<open>\<^verbatim>\<open>die\<close> prints the bytes that follow as a hex dump, which the model leaves out, and
  calls \<^verbatim>\<open>exit (1)\<close>.\<close>

definition die :: "decoder \<Rightarrow> 'a outcome" where
  "die d = Exit_1 d"

definition get :: "decoder \<Rightarrow> int outcome" where
  "get d =
     (case stdin d of
        [] \<Rightarrow> if command_data d \<noteq> [] then die (print_message More_data_expected d)
              else Got EOF d
      | c # rest \<Rightarrow>
          (case push (uint c) (d\<lparr>stdin := rest\<rparr>) of
             Exit_1 d' \<Rightarrow> Exit_1 d'
           | Got u d' \<Rightarrow> Got (uint c) d'))"

text \<open>\<^verbatim>\<open>get_more\<close> returns a pointer to the first byte it pushes; its callers read the
  bytes from the command stack.\<close>

fun get_more :: "nat \<Rightarrow> decoder \<Rightarrow> unit outcome" where
  "get_more 0 d = Got () d"
| "get_more (Suc n) d =
     (case get d of Exit_1 d' \<Rightarrow> Exit_1 d' | Got c d' \<Rightarrow> get_more n d')"

definition mark_error :: "nat \<Rightarrow> nat \<Rightarrow> decoder \<Rightarrow> decoder" where
  "mark_error start len d = d\<lparr>printed := printed d @ [Mark_error start len]\<rparr>"

definition unknown_command :: "decoder \<Rightarrow> 'a outcome" where
  "unknown_command d = die (print_message Unknown_command d)"

subsection \<open>\<^verbatim>\<open>explain_raster_line\<close>\<close>

text \<open>The cast \<^verbatim>\<open>(signed char) c\<close>.\<close>

definition signed_char :: "int \<Rightarrow> int" where
  "signed_char c = sint (of_int c :: byte)"

text \<open>The loop \<^verbatim>\<open>while (span--)\<close> of a run of mixed bytes: \<open>span\<close> bytes are read and
  stored in the row.\<close>

fun get_raster :: "nat \<Rightarrow> decoder \<Rightarrow> (byte list) outcome" where
  "get_raster 0 d = Got [] d"
| "get_raster (Suc k) d =
     (case get d of
        Exit_1 d' \<Rightarrow> Exit_1 d'
      | Got c d1 \<Rightarrow>
          (case get_raster k d1 of
             Exit_1 d' \<Rightarrow> Exit_1 d'
           | Got bs d2 \<Rightarrow> Got (of_int c # bs) d2))"

text \<open>The loop \<^verbatim>\<open>while (n < bytes)\<close> of the TIFF mode; \<open>row\<close> is
  \<^verbatim>\<open>decompressed [0 .. row_size)\<close>.  \<^verbatim>\<open>grow_buffer\<close> is taken to get its memory.\<close>

function tiff_loop :: "nat \<Rightarrow> nat \<Rightarrow> byte list \<Rightarrow> decoder \<Rightarrow> (byte list) outcome" where
  "tiff_loop bytes n row d =
     (if n < bytes then
        (case get d of
           Exit_1 d' \<Rightarrow> Exit_1 d'
         | Got c d1 \<Rightarrow>
             if signed_char c < 0 then
               (if n + 1 + 1 > bytes then die (mark_error (n + 1 - 1) 1 d1)
                else
                  (case get d1 of
                     Exit_1 d' \<Rightarrow> Exit_1 d'
                   | Got c2 d2 \<Rightarrow>
                       tiff_loop bytes (n + 1 + 1)
                         (row @ replicate (nat (1 - signed_char c)) (of_int c2)) d2))
             else
               (if n + 1 + (nat c + 1) > bytes then die (mark_error (n + 1 - 1) 1 d1)
                else
                  (case get_raster (nat c + 1) d1 of
                     Exit_1 d' \<Rightarrow> Exit_1 d'
                   | Got bs d2 \<Rightarrow> tiff_loop bytes (n + 1 + (nat c + 1)) (row @ bs) d2)))
      else Got row d)"
  by pat_completeness auto
termination
  by (relation "measure (\<lambda>(bytes, n, row, d). bytes - n)") auto

declare tiff_loop.simps [simp del]

text \<open>Without compression the row is the bytes \<^verbatim>\<open>get_more\<close> has pushed.  (At the end of
  the input \<^verbatim>\<open>get\<close> pushes nothing on an empty command stack, and the row of the source
  is then completed by what the stack held before; the row of the model is the bytes
  read.)\<close>

definition explain_raster_line :: "nat \<Rightarrow> compression_mode \<Rightarrow> decoder \<Rightarrow> unit outcome" where
  "explain_raster_line bytes mode d =
     (if mode = TIFF then
        (case tiff_loop bytes 0 [] d of
           Exit_1 d' \<Rightarrow> Exit_1 d'
         | Got row d' \<Rightarrow>
             Got () (reset_command
                       (d'\<lparr>printed := printed d' @ [Raster_row (command_data d') row]\<rparr>)))
      else
        (case get_more bytes d of
           Exit_1 d' \<Rightarrow> Exit_1 d'
         | Got u d' \<Rightarrow>
             Got () (reset_command
                       (d'\<lparr>printed := printed d'
                              @ [Raster_row (command_data d')
                                   (drop (length (command_data d)) (command_data d'))]\<rparr>))))"

definition check_compression_mode :: "compression_mode \<Rightarrow> decoder \<Rightarrow> compression_mode \<times> decoder" where
  "check_compression_mode mode d =
     (if mode = UNSPECIFIED then (UNCOMPRESSED, print_message Compression_mode_not_specified d)
      else (mode, d))"

subsection \<open>\<^verbatim>\<open>explain\<close>\<close>

text \<open>The commands after \<^verbatim>\<open>ESC i\<close>.\<close>

definition explain_ESC_i :: "decoder \<Rightarrow> unit outcome" where
  "explain_ESC_i d =
     (case get d of
        Exit_1 d' \<Rightarrow> Exit_1 d'
      | Got c d1 \<Rightarrow>
          if c = 0x21 then
            (case get d1 of
               Exit_1 d' \<Rightarrow> Exit_1 d'
             | Got c' d2 \<Rightarrow> Got () (print_command Switch_notification d2))
          else if c = 0x53 then Got () (print_command Status_request d1)
          else if c = 0x52 \<or> c = 0x61 then
            (case get d1 of
               Exit_1 d' \<Rightarrow> Exit_1 d'
             | Got c' d2 \<Rightarrow>
                 if c' = 0 \<or> c' = 1 \<or> c' = 3 then Got () (print_command Switch_mode d2)
                 else Got () (print_command Switch_unknown_mode (mark_error 3 1 d2)))
          else if c = 0x7a then
            (case get_more 10 d1 of
               Exit_1 d' \<Rightarrow> Exit_1 d'
             | Got u d2 \<Rightarrow> Got () (print_command Print_information_command d2))
          else if c = 0x4d then
            (case get d1 of
               Exit_1 d' \<Rightarrow> Exit_1 d'
             | Got c' d2 \<Rightarrow> Got () (print_command Various_mode_settings d2))
          else if c = 0x4b then
            (case get d1 of
               Exit_1 d' \<Rightarrow> Exit_1 d'
             | Got c' d2 \<Rightarrow> Got () (print_command Advanced_mode_settings d2))
          else if c = 0x64 then
            (case get_more 2 d1 of
               Exit_1 d' \<Rightarrow> Exit_1 d'
             | Got u d2 \<Rightarrow>
                 (let ds = drop (length (command_data d1)) (command_data d2)
                  in Got () (print_command
                               (Specify_margin (unat (peek ds 0) + unat (peek ds 1) * 256)) d2)))
          else if c = 0x55 then
            (case get_more 15 d1 of
               Exit_1 d' \<Rightarrow> Exit_1 d'
             | Got u d2 \<Rightarrow> Got () (print_command Undocumented_command d2))
          else if c = 0x41 then
            (case get d1 of
               Exit_1 d' \<Rightarrow> Exit_1 d'
             | Got c' d2 \<Rightarrow> Got () (print_command (Cut_every c') d2))
          else if c = 0x6b then
            (case get_more 3 d1 of
               Exit_1 d' \<Rightarrow> Exit_1 d'
             | Got u d2 \<Rightarrow> Got () (print_command Undocumented_command d2))
          else if c = 0x63 then
            (case get_more 5 d1 of
               Exit_1 d' \<Rightarrow> Exit_1 d'
             | Got u d2 \<Rightarrow> Got () (print_command Legacy_hires d2))
          else unknown_command d1)"

text \<open>The commands after \<^verbatim>\<open>ESC\<close>; the result is the new value of \<open>initialized\<close>.\<close>

definition explain_ESC :: "bool \<Rightarrow> decoder \<Rightarrow> bool outcome" where
  "explain_ESC initialized0 d =
     (case get d of
        Exit_1 d' \<Rightarrow> Exit_1 d'
      | Got c d1 \<Rightarrow>
          (let d2 = (if c \<noteq> 0x40 \<and> \<not> initialized0
                     then print_message Initialize_command_missing d1 else d1);
               initialized = (if c \<noteq> 0x40 \<and> \<not> initialized0 then True else initialized0)
           in if c = 0x40 then Got True (print_command Initialize d2)
              else if c = 0x69 then
                (case explain_ESC_i d2 of
                   Exit_1 d' \<Rightarrow> Exit_1 d'
                 | Got u d3 \<Rightarrow> Got initialized d3)
              else if c = EOF then Got initialized d2
              else unknown_command d2))"

text \<open>The \<^verbatim>\<open>switch (c)\<close> of the main loop, for a command byte \<open>c\<close> other than 0 that has
  been read and pushed; the result is the new values of \<open>compression_mode\<close> and
  \<open>initialized\<close>.\<close>

definition explain_command ::
  "int \<Rightarrow> compression_mode \<Rightarrow> bool \<Rightarrow> decoder \<Rightarrow> (compression_mode \<times> bool) outcome" where
  "explain_command c mode initialized d =
     (if c = uint ESC then
        (case explain_ESC initialized d of
           Exit_1 d' \<Rightarrow> Exit_1 d'
         | Got i d1 \<Rightarrow> Got (mode, i) d1)
      else if c = 0x4d then
        (case get d of
           Exit_1 d' \<Rightarrow> Exit_1 d'
         | Got c' d1 \<Rightarrow>
             if c' = 0 then Got (UNCOMPRESSED, initialized) (print_command Select_compression d1)
             else if c' = 2 then Got (TIFF, initialized) (print_command Select_compression d1)
             else Got (mode, initialized) (print_command Select_compression (mark_error 1 1 d1)))
      else if c = 0x67 \<or> c = 0x47 then
        (case get_more 2 d of
           Exit_1 d' \<Rightarrow> Exit_1 d'
         | Got u d1 \<Rightarrow>
             (let ds = drop (length (command_data d)) (command_data d1)
              in if c = 0x67 \<and> peek ds 0 \<noteq> 0 then die (mark_error 1 1 d1)
                 else
                   (let bytes = (if c = 0x67 then unat (peek ds 1)
                                 else unat (peek ds 0) + unat (peek ds 1) * 256);
                        mode' = fst (check_compression_mode mode d1);
                        d2 = snd (check_compression_mode mode d1);
                        d3 = print_noisy_command (Raster_transfer bytes) d2
                    in case explain_raster_line bytes mode' d3 of
                         Exit_1 d' \<Rightarrow> Exit_1 d'
                       | Got u' d4 \<Rightarrow> Got (mode', initialized) d4)))
      else if c = 0x5a then
        (let mode' = fst (check_compression_mode mode d);
             d1 = snd (check_compression_mode mode d);
             d2 = (if mode' \<noteq> TIFF then mark_error 0 1 d1 else d1)
         in Got (mode', initialized) (print_noisy_command Zero_raster d2))
      else if c = 0x0c then Got (mode, initialized) (print_command Print_command d)
      else if c = uint CTRL_Z then Got (mode, False) (print_command End_of_job d)
      else unknown_command d)"

text \<open>The loop \<^verbatim>\<open>while ((c = getchar ()) == 0) n++\<close> after a zero byte, followed by
  \<^verbatim>\<open>print_command ("Reset (%u)", n)\<close> and \<^verbatim>\<open>ungetc\<close>: the zero bytes that follow are
  read.\<close>

definition explain_reset :: "decoder \<Rightarrow> decoder" where
  "explain_reset d =
     print_command (Reset_n (1 + length (takeWhile (\<lambda>b. b = 0) (stdin d))))
       (d\<lparr>stdin := dropWhile (\<lambda>b. b = 0) (stdin d)\<rparr>)"

text \<open>The code after the main loop.\<close>

definition explain_end :: "bool \<Rightarrow> decoder \<Rightarrow> decoder" where
  "explain_end initialized d =
     (if initialized then print_message End_of_job_command_missing d else d)"

text \<open>What \<^verbatim>\<open>explain\<close> does before the \<^verbatim>\<open>switch\<close>.\<close>

definition check_initialized :: "int \<Rightarrow> bool \<Rightarrow> decoder \<Rightarrow> decoder" where
  "check_initialized c initialized d =
     (if c \<noteq> uint ESC \<and> \<not> initialized then print_message Initialize_command_missing d else d)"

lemma stdin_print_message [simp]: "stdin (print_message m d) = stdin d"
  by (simp add: print_message_def)

lemma stdin_print_command [simp]: "stdin (print_command x d) = stdin d"
  by (simp add: print_command_def)

lemma stdin_print_noisy_command [simp]: "stdin (print_noisy_command x d) = stdin d"
  by (simp add: print_noisy_command_def)

lemma stdin_mark_error [simp]: "stdin (mark_error s l d) = stdin d"
  by (simp add: mark_error_def)

lemma stdin_reset_command [simp]: "stdin (reset_command d) = stdin d"
  by (simp add: reset_command_def)

lemma stdin_check_compression_mode [simp]:
  "stdin (snd (check_compression_mode mode d)) = stdin d"
  by (simp add: check_compression_mode_def)

lemma stdin_check_initialized [simp]: "stdin (check_initialized c i d) = stdin d"
  by (simp add: check_initialized_def)

text \<open>\<open>within n r\<close>: when the function returns, at most \<open>n\<close> bytes of input are left.\<close>

definition within :: "nat \<Rightarrow> 'a outcome \<Rightarrow> bool" where
  "within n r = (case r of Exit_1 d \<Rightarrow> True | Got x d \<Rightarrow> length (stdin d) \<le> n)"

lemma within_Exit_1 [simp]: "within n (Exit_1 d)"
  by (simp add: within_def)

lemma within_Got [simp]: "within n (Got x d) \<longleftrightarrow> length (stdin d) \<le> n"
  by (simp add: within_def)

lemma within_die [simp]: "within n (die d)"
  by (simp add: die_def)

lemma within_unknown_command [simp]: "within n (unknown_command d)"
  by (simp add: unknown_command_def)

lemma within_bind:
  assumes "within n m" and "\<And>x d1. length (stdin d1) \<le> n \<Longrightarrow> within n (k x d1)"
  shows "within n (case m of Exit_1 d' \<Rightarrow> Exit_1 d' | Got x d1 \<Rightarrow> k x d1)"
  using assms by (cases m) simp_all

lemma within_if: "within n a \<Longrightarrow> within n b \<Longrightarrow> within n (if c then a else b)"
  by simp

lemma within_get: "length (stdin d) \<le> n \<Longrightarrow> within n (get d)"
  by (cases "stdin d") (simp_all add: get_def push_def)

lemma get_shorter:
  assumes "get d = Got c d1" and "c \<noteq> EOF"
  shows "length (stdin d1) < length (stdin d)"
  using assms
  by (cases "stdin d") (auto simp add: get_def push_def die_def split: if_splits)

lemma within_get_more: "length (stdin d) \<le> n \<Longrightarrow> within n (get_more k d)"
proof (induction k arbitrary: d)
  case 0
  then show ?case by simp
next
  case (Suc k)
  show ?case
    unfolding get_more.simps
    by (intro within_bind within_get Suc.prems Suc.IH)
qed

lemma within_get_raster: "length (stdin d) \<le> n \<Longrightarrow> within n (get_raster k d)"
proof (induction k arbitrary: d)
  case 0
  then show ?case by simp
next
  case (Suc k)
  show ?case
    unfolding get_raster.simps
  proof (rule within_bind)
    show "within n (get d)"
      using Suc.prems by (rule within_get)
  next
    fix c :: int and d1 :: decoder
    assume "length (stdin d1) \<le> n"
    from Suc.IH [OF this]
    show "within n (case get_raster k d1 of Exit_1 d' \<Rightarrow> Exit_1 d'
                    | Got bs d2 \<Rightarrow> Got (of_int c # bs) d2)"
      by (cases "get_raster k d1") simp_all
  qed
qed

lemma within_tiff_loop: "length (stdin d) \<le> m \<Longrightarrow> within m (tiff_loop bytes n row d)"
proof (induction bytes n row d rule: tiff_loop.induct)
  case (1 bytes n row d)
  show ?case
  proof (cases "n < bytes")
    case False
    with "1.prems" show ?thesis by (simp add: tiff_loop.simps)
  next
    case True
    show ?thesis
    proof (cases "get d")
      case (Exit_1 d')
      with True show ?thesis by (simp add: tiff_loop.simps)
    next
      case (Got c d1)
      from within_get [OF "1.prems"] Got have l1: "length (stdin d1) \<le> m" by simp
      show ?thesis
      proof (cases "signed_char c < 0")
        case neg: True
        show ?thesis
        proof (cases "n + 1 + 1 > bytes")
          case True
          with \<open>n < bytes\<close> Got neg show ?thesis by (simp add: tiff_loop.simps)
        next
          case b: False
          show ?thesis
          proof (cases "get d1")
            case (Exit_1 d')
            with True Got neg b show ?thesis by (simp add: tiff_loop.simps)
          next
            case g2: (Got c2 d2)
            from within_get [OF l1] g2 have "length (stdin d2) \<le> m" by simp
            from "1.IH"(1) [OF True Got neg b g2 this] True Got neg b g2 show ?thesis
              by (simp add: tiff_loop.simps [of bytes n row d])
          qed
        qed
      next
        case pos: False
        show ?thesis
        proof (cases "n + 1 + (nat c + 1) > bytes")
          case True
          with \<open>n < bytes\<close> Got pos show ?thesis by (simp add: tiff_loop.simps)
        next
          case b: False
          show ?thesis
          proof (cases "get_raster (nat c + 1) d1")
            case (Exit_1 d')
            with True Got pos b show ?thesis by (simp add: tiff_loop.simps)
          next
            case g2: (Got bs d2)
            have "within m (get_raster (nat c + 1) d1)"
              using l1 by (rule within_get_raster)
            then have "length (stdin d2) \<le> m"
              unfolding g2 by simp
            from "1.IH"(2) [OF True Got pos b g2 this] True Got pos b g2 show ?thesis
              by (simp add: tiff_loop.simps [of bytes n row d])
          qed
        qed
      qed
    qed
  qed
qed

lemma within_explain_raster_line:
  "length (stdin d) \<le> n \<Longrightarrow> within n (explain_raster_line bytes mode d)"
  unfolding explain_raster_line_def
  by (intro within_if within_bind within_tiff_loop within_get_more) simp_all

lemma within_explain_ESC_i: "length (stdin d) \<le> n \<Longrightarrow> within n (explain_ESC_i d)"
  unfolding explain_ESC_i_def Let_def
  by (intro within_if within_bind within_get within_get_more within_unknown_command)
    simp_all

lemma within_explain_ESC: "length (stdin d) \<le> n \<Longrightarrow> within n (explain_ESC i d)"
  unfolding explain_ESC_def Let_def
  by (intro within_if within_bind within_get within_explain_ESC_i within_unknown_command)
    simp_all

lemma within_explain_command:
  "length (stdin d) \<le> n \<Longrightarrow> within n (explain_command c mode i d)"
  unfolding explain_command_def Let_def
  by (intro within_if within_bind within_get within_get_more within_explain_ESC
      within_explain_raster_line within_unknown_command within_die)
    simp_all

lemma explain_command_shorter:
  assumes "explain_command c mode i d = Got u d1"
  shows "length (stdin d1) \<le> length (stdin d)"
  using within_explain_command [of d "length (stdin d)" c mode i] assms by simp

text \<open>The main loop of \<^verbatim>\<open>explain\<close>, with the values of its variables
  \<open>compression_mode\<close> and \<open>initialized\<close>; it returns when the input has ended.\<close>

function explain_loop :: "compression_mode \<Rightarrow> bool \<Rightarrow> decoder \<Rightarrow> unit outcome" where
  "explain_loop mode initialized d =
     (case get d of
        Exit_1 d' \<Rightarrow> Exit_1 d'
      | Got c d1 \<Rightarrow>
          if c = EOF then Got () (explain_end initialized d1)
          else if c = 0 then
            (if stdin (explain_reset d1) = [] then Got () (explain_end initialized (explain_reset d1))
             else explain_loop mode False (explain_reset d1))
          else
            (case explain_command c mode (if c \<noteq> uint ESC \<and> \<not> initialized then True else initialized)
                    (check_initialized c initialized d1) of
               Exit_1 d' \<Rightarrow> Exit_1 d'
             | Got st d2 \<Rightarrow> explain_loop (fst st) (snd st) d2))"
  by pat_completeness auto
termination
proof (relation "measure (\<lambda>(mode, initialized, d). length (stdin d))")
  show "wf (measure (\<lambda>(mode, initialized, d). length (stdin d)))"
    by simp
next
  fix mode :: compression_mode and initialized :: bool and d d1 :: decoder and c :: int
  assume "get d = Got c d1" "c \<noteq> EOF"
  then have "length (stdin d1) < length (stdin d)"
    by (rule get_shorter)
  moreover have "length (stdin (explain_reset d1)) \<le> length (stdin d1)"
    by (simp add: explain_reset_def length_dropWhile_le)
  ultimately show "((mode, False, explain_reset d1), mode, initialized, d)
      \<in> measure (\<lambda>(mode, initialized, d). length (stdin d))"
    by simp
next
  fix mode :: compression_mode and initialized :: bool and d d1 d2 :: decoder and c :: int
    and st :: "compression_mode \<times> bool"
  assume "get d = Got c d1" "c \<noteq> EOF"
    and "explain_command c mode (if c \<noteq> uint ESC \<and> \<not> initialized then True else initialized)
           (check_initialized c initialized d1) = Got st d2"
  then have "length (stdin d1) < length (stdin d)"
    and "length (stdin d2) \<le> length (stdin (check_initialized c initialized d1))"
    by (auto dest: get_shorter explain_command_shorter)
  then show "((fst st, snd st, d2), mode, initialized, d)
      \<in> measure (\<lambda>(mode, initialized, d). length (stdin d))"
    by simp
qed

declare explain_loop.simps [simp del]

text \<open>\<^verbatim>\<open>explain\<close>, on the whole input.\<close>

definition explain :: "byte list \<Rightarrow> unit outcome" where
  "explain input_bytes =
     explain_loop UNSPECIFIED False \<lparr>stdin = input_bytes, command_data = [], printed = []\<rparr>"

section \<open>The \<^verbatim>\<open>g\<close> command of the decoder\<close>

lemma get_Cons:
  assumes "stdin d = c # rest" and "length (command_data d) < 128"
  shows "get d = Got (uint c) (d\<lparr>stdin := rest, command_data := command_data d @ [c]\<rparr>)"
  using assms by (simp add: get_def push_def COMMAND_STACK_SIZE_def)

lemma get_overflow:
  assumes "stdin d = c # rest" and "128 \<le> length (command_data d)"
  shows "get d = Exit_1 (print_message Command_stack_overflow (d\<lparr>stdin := rest\<rparr>))"
  using assms by (simp add: get_def push_def COMMAND_STACK_SIZE_def)

lemma get_more_append:
  "stdin d = bs @ rest \<Longrightarrow> length (command_data d) + length bs \<le> 128 \<Longrightarrow>
   get_more (length bs) d = Got () (d\<lparr>stdin := rest, command_data := command_data d @ bs\<rparr>)"
proof (induction bs arbitrary: d)
  case Nil
  then show ?case by simp
next
  case (Cons b bs)
  let ?d1 = "d\<lparr>stdin := bs @ rest, command_data := command_data d @ [b]\<rparr>"
  have g: "get d = Got (uint b) ?d1"
    using Cons.prems by (intro get_Cons) simp_all
  have "get_more (length bs) ?d1
      = Got () (?d1\<lparr>stdin := rest, command_data := command_data ?d1 @ bs\<rparr>)"
    using Cons.prems by (intro Cons.IH) simp_all
  then show ?case
    by (simp add: g)
qed


lemma explain_loop_command:
  assumes "stdin d = c # rest" and "command_data d = []" and "c \<noteq> 0"
  shows "explain_loop mode initialized d
    = (case explain_command (uint c) mode (if c \<noteq> ESC \<and> \<not> initialized then True else initialized)
              (check_initialized (uint c) initialized (d\<lparr>stdin := rest, command_data := [c]\<rparr>)) of
         Exit_1 d' \<Rightarrow> Exit_1 d'
       | Got st d2 \<Rightarrow> explain_loop (fst st) (snd st) d2)"
proof -
  have g: "get d = Got (uint c) (d\<lparr>stdin := rest, command_data := [c]\<rparr>)"
    using get_Cons [OF assms(1)] assms(2) by simp
  have "0 \<le> uint c"
    by simp
  then have e: "uint c \<noteq> EOF"
    unfolding EOF_def by linarith
  have z: "uint c \<noteq> 0"
    using assms(3) by (simp add: uint_0_iff)
  show ?thesis
    by (subst explain_loop.simps) (simp add: g e z word_uint_eq_iff [symmetric])
qed

lemma get_more_overflow:
  "stdin d = bs @ rest \<Longrightarrow> length (command_data d) + length bs > 128 \<Longrightarrow>
   length (command_data d) \<le> 128 \<Longrightarrow> \<exists>d'. get_more (length bs) d = Exit_1 d'"
proof (induction bs arbitrary: d)
  case Nil
  then show ?case by simp
next
  case (Cons b bs)
  show ?case
  proof (cases "length (command_data d) < 128")
    case False
    with Cons.prems(1) show ?thesis
      by (simp add: get_overflow)
  next
    case True
    let ?d1 = "d\<lparr>stdin := bs @ rest, command_data := command_data d @ [b]\<rparr>"
    have g: "get d = Got (uint b) ?d1"
      using Cons.prems True by (intro get_Cons) simp_all
    have "\<exists>d'. get_more (length bs) ?d1 = Exit_1 d'"
      using Cons.prems True by (intro Cons.IH) simp_all
    then show ?thesis
      by (simp add: g)
  qed
qed

lemma g_command_dies:
  assumes "stdin d = 0x67 # d0 # d1 # rest" and "d0 \<noteq> 0"
  shows "\<exists>d'. explain_loop mode initialized d = Exit_1 d'"
proof (cases "length (command_data d) < 128")
  case False
  then have "get d = Exit_1 (print_message Command_stack_overflow (d\<lparr>stdin := d0 # d1 # rest\<rparr>))"
    using assms(1) by (intro get_overflow) simp_all
  then show ?thesis
    by (subst explain_loop.simps) simp
next
  case lt: True
  define da where "da = check_initialized (uint (0x67 :: byte)) initialized
      (d\<lparr>stdin := d0 # d1 # rest, command_data := command_data d @ [0x67]\<rparr>)"
  have da: "stdin da = [d0, d1] @ rest" "command_data da = command_data d @ [0x67]"
    by (simp_all add: da_def check_initialized_def print_message_def)
  have g: "get d = Got (uint (0x67 :: byte))
      (d\<lparr>stdin := d0 # d1 # rest, command_data := command_data d @ [0x67]\<rparr>)"
    using assms(1) lt by (rule get_Cons)
  have l: "explain_loop mode initialized d
      = (case explain_command 0x67 mode
                (if (0x67 :: int) \<noteq> uint ESC \<and> \<not> initialized then True else initialized) da of
           Exit_1 d' \<Rightarrow> Exit_1 d'
         | Got st d2 \<Rightarrow> explain_loop (fst st) (snd st) d2)"
    by (subst explain_loop.simps) (simp add: g EOF_def da_def)
  have "\<exists>d'. explain_command 0x67 mode i da = Exit_1 d'" for i
  proof (cases "length (command_data da) + 2 \<le> 128")
    case False
    then have "\<exists>d'. get_more (length [d0, d1]) da = Exit_1 d'"
      using da lt by (intro get_more_overflow) simp_all
    then obtain d' where "get_more 2 da = Exit_1 d'"
      by (auto simp add: numeral_2_eq_2)
    then show ?thesis
      by (simp add: explain_command_def ESC_def)
  next
    case le: True
    have "get_more (length [d0, d1]) da
        = Got () (da\<lparr>stdin := rest, command_data := command_data da @ [d0, d1]\<rparr>)"
      using da le by (intro get_more_append) simp_all
    then have gm: "get_more 2 da
        = Got () (da\<lparr>stdin := rest, command_data := command_data da @ [d0, d1]\<rparr>)"
      by (simp add: numeral_2_eq_2)
    show ?thesis
      using assms(2)
      by (simp add: explain_command_def Let_def gm ESC_def peek_def die_def)
  qed
  then obtain d' where "explain_command 0x67 mode
      (if (0x67 :: int) \<noteq> uint ESC \<and> \<not> initialized then True else initialized) da
      = Exit_1 d'"
    by blast
  then show ?thesis
    unfolding l by simp
qed

text \<open>At a \<^verbatim>\<open>g\<close> command read with an empty command stack.\<close>

lemma g_command_empty_stack:
  assumes "stdin d = 0x67 # d0 # d1 # rest" and "command_data d = []"
  shows "(d0 \<noteq> 0 \<longrightarrow>
            explain_loop mode initialized d
              = Exit_1 (d\<lparr>stdin := rest, command_data := [0x67, d0, d1],
                          printed := printed d
                            @ (if initialized then [] else [Message Initialize_command_missing])
                            @ [Mark_error 1 1]\<rparr>)) \<and>
         (d0 = 0 \<longrightarrow>
            explain_loop mode initialized d
              = (case explain_raster_line (unat d1)
                        (fst (check_compression_mode mode
                           (d\<lparr>stdin := rest, command_data := [0x67, d0, d1],
                              printed := printed d
                                @ (if initialized then [] else [Message Initialize_command_missing])\<rparr>)))
                        (print_noisy_command (Raster_transfer (unat d1))
                           (snd (check_compression_mode mode
                              (d\<lparr>stdin := rest, command_data := [0x67, d0, d1],
                                 printed := printed d
                                   @ (if initialized then []
                                      else [Message Initialize_command_missing])\<rparr>)))) of
                   Exit_1 d' \<Rightarrow> Exit_1 d'
                 | Got u d4 \<Rightarrow>
                     explain_loop
                       (fst (check_compression_mode mode
                          (d\<lparr>stdin := rest, command_data := [0x67, d0, d1],
                             printed := printed d
                               @ (if initialized then []
                                  else [Message Initialize_command_missing])\<rparr>)))
                       True d4))"
proof -
  define da where "da = check_initialized (uint (0x67 :: byte)) initialized
      (d\<lparr>stdin := d0 # d1 # rest, command_data := [0x67]\<rparr>)"
  define dm where "dm = d\<lparr>stdin := rest, command_data := [0x67, d0, d1],
      printed := printed d @ (if initialized then [] else [Message Initialize_command_missing])\<rparr>"
  have da: "stdin da = [d0, d1] @ rest" "command_data da = [0x67]"
    by (simp_all add: da_def check_initialized_def print_message_def)
  have "get_more (length [d0, d1]) da
      = Got () (da\<lparr>stdin := rest, command_data := command_data da @ [d0, d1]\<rparr>)"
    using da by (intro get_more_append) simp_all
  moreover have "da\<lparr>stdin := rest, command_data := command_data da @ [d0, d1]\<rparr> = dm"
    by (simp add: da_def dm_def check_initialized_def print_message_def ESC_def)
  ultimately have gm: "get_more 2 da = Got () dm"
    by (simp add: numeral_2_eq_2)
  have ds: "drop (length (command_data da)) (command_data dm) = [d0, d1]"
    by (simp add: da dm_def)
  have pk: "peek [a, b] 0 = a" "peek [a, b] (Suc 0) = b" for a b :: byte
    by (simp_all add: peek_def)
  have i: "(if (0x67 :: byte) \<noteq> ESC \<and> \<not> initialized then True else initialized) = True"
    by (simp add: ESC_def)
  have l: "explain_loop mode initialized d
      = (case explain_command 0x67 mode True da of
           Exit_1 d' \<Rightarrow> Exit_1 d'
         | Got st d2 \<Rightarrow> explain_loop (fst st) (snd st) d2)"
    using explain_loop_command [OF assms, of mode initialized] unfolding i da_def by simp
  have c1: "d0 \<noteq> 0 \<Longrightarrow> explain_command 0x67 mode True da = Exit_1 (mark_error 1 1 dm)"
    by (simp add: explain_command_def Let_def gm ds ESC_def pk die_def)
  have c2: "d0 = 0 \<Longrightarrow> explain_command 0x67 mode True da
      = (case explain_raster_line (unat d1) (fst (check_compression_mode mode dm))
                (print_noisy_command (Raster_transfer (unat d1))
                   (snd (check_compression_mode mode dm))) of
           Exit_1 d' \<Rightarrow> Exit_1 d'
         | Got u d4 \<Rightarrow> Got (fst (check_compression_mode mode dm), True) d4)"
    by (simp add: explain_command_def Let_def gm ds ESC_def pk)
  have r1: "d0 \<noteq> 0 \<Longrightarrow> explain_loop mode initialized d = Exit_1 (mark_error 1 1 dm)"
    using c1 by (simp add: l)
  have r2: "d0 = 0 \<Longrightarrow> explain_loop mode initialized d
      = (case explain_raster_line (unat d1) (fst (check_compression_mode mode dm))
                (print_noisy_command (Raster_transfer (unat d1))
                   (snd (check_compression_mode mode dm))) of
           Exit_1 d' \<Rightarrow> Exit_1 d'
         | Got u d4 \<Rightarrow> explain_loop (fst (check_compression_mode mode dm)) True d4)"
    using c2 by (simp add: l split: outcome.splits)
  have m: "mark_error 1 1 dm = d\<lparr>stdin := rest, command_data := [0x67, d0, d1],
      printed := printed d @ (if initialized then [] else [Message Initialize_command_missing])
        @ [Mark_error 1 1]\<rparr>"
    by (simp add: mark_error_def dm_def)
  show ?thesis
    using r1 [unfolded m] r2 [unfolded dm_def] by blast
qed

text \<open>
  Claim C10.  At a \<^verbatim>\<open>g\<close> command the decoder reads two length bytes.  When the first is
  not zero, decoding ends there with \<^verbatim>\<open>exit (1)\<close>: the decoder marks the byte as an error
  and dies (or the command stack overflows, should it not be empty).  When the first is
  zero the length of the body is the second byte alone (at most 255), with which
  \<^verbatim>\<open>explain_raster_line\<close> is called before the main loop goes on.  The results are
  spelled out for an empty command stack, as it is when the decoder starts and after
  each command that has been printed.
\<close>

theorem g_command_first_length_byte:
  assumes "stdin d = 0x67 # d0 # d1 # rest"
  shows "(d0 \<noteq> 0 \<longrightarrow>
            (\<exists>d'. explain_loop mode initialized d = Exit_1 d') \<and>
            (command_data d = [] \<longrightarrow>
               explain_loop mode initialized d
              = Exit_1 (d\<lparr>stdin := rest, command_data := [0x67, d0, d1],
                          printed := printed d
                            @ (if initialized then [] else [Message Initialize_command_missing])
                            @ [Mark_error 1 1]\<rparr>))) \<and>
         (d0 = 0 \<longrightarrow> command_data d = [] \<longrightarrow>
            explain_loop mode initialized d
              = (case explain_raster_line (unat d1)
                        (fst (check_compression_mode mode
                           (d\<lparr>stdin := rest, command_data := [0x67, d0, d1],
                              printed := printed d
                                @ (if initialized then [] else [Message Initialize_command_missing])\<rparr>)))
                        (print_noisy_command (Raster_transfer (unat d1))
                           (snd (check_compression_mode mode
                              (d\<lparr>stdin := rest, command_data := [0x67, d0, d1],
                                 printed := printed d
                                   @ (if initialized then []
                                      else [Message Initialize_command_missing])\<rparr>)))) of
                   Exit_1 d' \<Rightarrow> Exit_1 d'
                 | Got u d4 \<Rightarrow>
                     explain_loop
                       (fst (check_compression_mode mode
                          (d\<lparr>stdin := rest, command_data := [0x67, d0, d1],
                             printed := printed d
                               @ (if initialized then []
                                  else [Message Initialize_command_missing])\<rparr>)))
                       True d4))"
  using g_command_dies [OF assms] g_command_empty_stack [OF assms]
  by blast

theorem g_command_first_length_byte_witness:
  "explain [0x67, 0x01, 0x00]
     = Exit_1 \<lparr>stdin = [], command_data = [0x67, 0x01, 0x00],
         printed = [Message Initialize_command_missing, Mark_error 1 1]\<rparr> \<and>
   explain [0x67, 0x00, 0x02, 0xaa, 0xbb]
     = Got () \<lparr>stdin = [], command_data = [],
         printed = [Message Initialize_command_missing, Message Compression_mode_not_specified,
                    Command [0x67, 0x00, 0x02] (Raster_transfer 2),
                    Raster_row [0xaa, 0xbb] [0xaa, 0xbb],
                    Message End_of_job_command_missing]\<rparr>"
proof -
  have e: "explain_loop UNCOMPRESSED True \<lparr>stdin = [], command_data = [], printed = p\<rparr>
      = Got () \<lparr>stdin = [], command_data = [],
          printed = p @ [Message End_of_job_command_missing]\<rparr>" for p
    by (subst explain_loop.simps)
      (simp add: get_def explain_end_def print_message_def)
  have "get_more (length [0xaa, 0xbb :: byte])
          \<lparr>stdin = [0xaa, 0xbb], command_data = [], printed = p\<rparr>
      = Got () \<lparr>stdin = [], command_data = [0xaa, 0xbb], printed = p\<rparr>" for p
    by (subst get_more_append [where rest = "[]"]) simp_all
  then have "get_more 2 \<lparr>stdin = [0xaa, 0xbb], command_data = [], printed = p\<rparr>
      = Got () \<lparr>stdin = [], command_data = [0xaa, 0xbb], printed = p\<rparr>" for p
    by (simp add: numeral_2_eq_2)
  then have r: "explain_raster_line 2 UNCOMPRESSED
        \<lparr>stdin = [0xaa, 0xbb], command_data = [], printed = p\<rparr>
      = Got () \<lparr>stdin = [], command_data = [],
          printed = p @ [Raster_row [0xaa, 0xbb] [0xaa, 0xbb]]\<rparr>" for p
    by (simp add: explain_raster_line_def reset_command_def)
  show ?thesis
    using g_command_first_length_byte
      [of "\<lparr>stdin = [0x67, 0x01, 0x00], command_data = [], printed = []\<rparr>"
        "0x01" "0x00" "[]" UNSPECIFIED False]
      g_command_first_length_byte
      [of "\<lparr>stdin = [0x67, 0x00, 0x02, 0xaa, 0xbb], command_data = [], printed = []\<rparr>"
        "0x00" "0x02" "[0xaa, 0xbb]" UNSPECIFIED False]
    by (simp add: explain_def check_compression_mode_def print_message_def
        print_noisy_command_def print_command_def r e)
qed

section \<open>Decoding what the run-length encoder has written\<close>

text \<open>
  \<open>runs e r\<close>: the bytes \<open>e\<close> are a sequence of runs as the TIFF mode of the decoder reads
  them, and \<open>r\<close> is the row they stand for.  A count byte \<open>k\<close> below 128 is followed by
  \<open>k + 1\<close> bytes to copy; a count byte that is negative as a \<^verbatim>\<open>signed char\<close>, \<open>1 - n\<close>, is
  followed by the byte to repeat \<open>n\<close> times.
\<close>

inductive runs :: "byte list \<Rightarrow> byte list \<Rightarrow> bool" where
  runs_Nil: "runs [] []"
| runs_mixed:
    "bs \<noteq> [] \<Longrightarrow> length bs \<le> 128 \<Longrightarrow> runs e r
       \<Longrightarrow> runs (of_nat (length bs - 1) # bs @ e) (bs @ r)"
| runs_repeated:
    "2 \<le> n \<Longrightarrow> n \<le> 129 \<Longrightarrow> runs e r
       \<Longrightarrow> runs ((1 - of_nat n) # x # e) (replicate n x @ r)"











text \<open>The encoder writes runs that stand for the row: invariant 6 of the comment in
  \<^verbatim>\<open>RLE_store_line\<close>, with invariants 1 and 2.  \<open>rle_dec buf m v\<close> says that what has been
  written stands for the bytes before \<open>mix_start\<close>, and that the bytes from \<open>rep_start\<close>
  up to \<open>m\<close> are \<open>rep_val\<close>.\<close>

definition rle_dec :: "byte list \<Rightarrow> nat \<Rightarrow> rle_vars \<Rightarrow> bool" where
  "rle_dec buf m v \<longleftrightarrow>
     m \<le> length buf \<and> runs (rle_out v) (take (mix_start v) buf) \<and>
     (\<forall>i. rep_start v \<le> i \<and> i < m \<longrightarrow> buf ! i = rep_val v)"








lemma rle_dec_fields:
  assumes "mix_start w = mix_start v" and "rep_start w = rep_start v"
    and "rep_val w = rep_val v" and "rle_out w = rle_out v"
  shows "rle_dec buf m w \<longleftrightarrow> rle_dec buf m v"
  by (simp add: rle_dec_def assms)














section \<open>The decoder on the rows of the encoder\<close>









end
